theory Spec2Isabelle
  imports Complex_Main
begin

section \<open>Errors, scalars and the external numeric functions\<close>

text \<open>
  The exceptions the tensor module can raise, as values. \<open>AssertionError\<close> carries the
  message of the \<^verbatim>\<open>assert\<close>, \<open>NotImplementedError\<close> the message of the \<^verbatim>\<open>raise\<close>.
  \<open>ShapeMismatch\<close>, \<open>IndexError\<close>, \<open>ValueError\<close> and \<open>ContiguityError\<close> are the
  names of the specification's error taxonomy; \<open>TypeError\<close> is Python's answer to a
  call with the wrong arguments.
\<close>

datatype py_error =
    AssertionError string
  | NotImplementedError string
  | IndexError
  | ShapeMismatch
  | ValueError
  | TypeError
  | ZeroDivisionError
  | ContiguityError

text \<open>
  Python floats are modelled by the reals: the development abstracts from rounding.

  Modelled from the spec: the module \<^verbatim>\<open>operators\<close> is not part of the sources; the
  specification (section 6) asks for pure scalar functions negate, add, multiply, identity,
  and \<^verbatim>\<open>operators.prod\<close> is the product of a shape.
\<close>

definition operators_neg :: "real \<Rightarrow> real" where
  "operators_neg x = - x"

definition operators_add :: "real \<Rightarrow> real \<Rightarrow> real" where
  "operators_add x y = x + y"

definition operators_mul :: "real \<Rightarrow> real \<Rightarrow> real" where
  "operators_mul x y = x * y"

definition operators_id :: "real \<Rightarrow> real" where
  "operators_id x = x"

definition operators_prod :: "nat list \<Rightarrow> nat" where
  "operators_prod ls = prod_list ls"

section \<open>The strided buffer\<close>

text \<open>
  Modelled from the spec: the class \<^verbatim>\<open>TensorData\<close> (module \<^verbatim>\<open>tensor_data\<close>) is not part
  of the sources. Section 3 of the specification gives its fields and section 4.1 its
  operations. The storage is a Python object that several buffers may share, so a
  buffer holds the address of its storage in the heap of the program state.
\<close>

record TensorData =
  storage :: nat
  shape :: "nat list"
  strides :: "nat list"

text \<open>The canonical row-major strides of a shape.\<close>

fun strides_from_shape :: "nat list \<Rightarrow> nat list" where
  "strides_from_shape [] = []"
| "strides_from_shape (n # ns) = prod_list ns # strides_from_shape ns"

definition is_contiguous :: "TensorData \<Rightarrow> bool" where
  "is_contiguous td = (strides td = strides_from_shape (shape td))"

text \<open>
  \<open>valid_index\<close>: one coordinate per dimension, each inside \<open>[0, shape[d])\<close>.
  \<open>index_to_position\<close> fails with \<open>IndexError\<close> otherwise; the position is
  \<open>sum(idx[d] * strides[d])\<close>.
\<close>

definition valid_index :: "nat list \<Rightarrow> nat list \<Rightarrow> bool" where
  "valid_index shp idx = list_all2 (\<lambda>i n. i < n) idx shp"

definition position :: "nat list \<Rightarrow> nat list \<Rightarrow> nat" where
  "position strd idx = sum_list (map2 (\<lambda>i k. i * k) idx strd)"

definition index_to_position :: "TensorData \<Rightarrow> nat list \<Rightarrow> py_error + nat" where
  "index_to_position td idx =
     (if valid_index (shape td) idx then Inr (position (strides td) idx) else Inl IndexError)"

text \<open>All multi-indices of a shape, in row-major order.\<close>

fun indices :: "nat list \<Rightarrow> nat list list" where
  "indices [] = [[]]"
| "indices (n # ns) = concat (map (\<lambda>i. map (\<lambda>idx. i # idx) (indices ns)) [0..<n])"

text \<open>
  \<open>shape_broadcast\<close>: the two shapes are right-aligned; two aligned sizes must be equal
  or one of them 1 (an absent one counts as 1); the result takes the larger.
\<close>

fun broadcast_aligned :: "nat list \<Rightarrow> nat list \<Rightarrow> py_error + nat list" where
  "broadcast_aligned [] ms = Inr ms"
| "broadcast_aligned (n # ns) [] = Inr (n # ns)"
| "broadcast_aligned (n # ns) (m # ms) =
     (if n = m \<or> n = 1 \<or> m = 1
      then (case broadcast_aligned ns ms of
              Inl e \<Rightarrow> Inl e
            | Inr r \<Rightarrow> Inr (max n m # r))
      else Inl ShapeMismatch)"

definition shape_broadcast :: "nat list \<Rightarrow> nat list \<Rightarrow> py_error + nat list" where
  "shape_broadcast shape1 shape2 =
     (case broadcast_aligned (rev shape1) (rev shape2) of
        Inl e \<Rightarrow> Inl e
      | Inr r \<Rightarrow> Inr (rev r))"

text \<open>
  \<open>broadcast_index\<close>: an index of the big shape, brought down to the small shape: the
  leading dimensions the small shape lacks are dropped and the coordinate of every
  dimension of size 1 is clamped to 0.
\<close>

definition broadcast_index :: "nat list \<Rightarrow> nat list \<Rightarrow> nat list" where
  "broadcast_index big_index small_shape =
     map2 (\<lambda>i n. if n = 1 then 0 else i)
       (drop (length big_index - length small_shape) big_index) small_shape"

text \<open>
  \<open>permute\<close>: a view on the same storage with shape and strides reordered; the order
  must be a permutation of \<open>range(dims)\<close>, else \<open>ValueError\<close>.
\<close>

definition TensorData_permute :: "TensorData \<Rightarrow> nat list \<Rightarrow> py_error + TensorData" where
  "TensorData_permute td order =
     (if sort order = [0..<length (shape td)]
      then Inr \<lparr>storage = storage td,
                shape = map (\<lambda>i. shape td ! i) order,
                strides = map (\<lambda>i. strides td ! i) order\<rparr>
      else Inl ValueError)"

section \<open>Tensors, the program state and its monad\<close>

text \<open>
  The differentiable operations of \<^verbatim>\<open>make_tensor_functions\<close>, the arguments a
  \<^verbatim>\<open>Function\<close> is applied to (tensors, a dimension, \<^verbatim>\<open>None\<close>, a tuple of integers),
  and the one set of tensor functions the module builds: \<^verbatim>\<open>TensorFunctions\<close>.
\<close>

datatype fn = Neg | Add | Mul | Sigmoid | ReLU | Log | Sum | Mean | LT | Permute | View | Copy

datatype tf_ref = TensorFunctions

datatype 't arg = ATensor 't | AInt nat | ANone | ATuple "nat list"

text \<open>
  A \<^verbatim>\<open>Tensor\<close> object: its identity, its buffer \<^verbatim>\<open>_tensor\<close>, the graph node that
  produced it (the operation, the values saved by the forward pass and the inputs),
  the flag \<open>requires_grad\<close> and the backend reference \<^verbatim>\<open>tf\<close>. The gradient slot
  \<^verbatim>\<open>derivative\<close> is the one field mutated after construction; it lives in the state,
  under the identity of the tensor. The field \<^verbatim>\<open>name\<close> serves printing only and is
  left out.
\<close>

datatype Tensor = Tensor
  (unique_id: nat)
  (tdata: TensorData)
  (tback: "(fn \<times> nat list option \<times> Tensor arg list) option")
  (requires_grad: bool)
  (tf: tf_ref)

record state =
  heap :: "nat \<Rightarrow> real list"
  next_addr :: nat
  derivative :: "nat \<Rightarrow> Tensor option"
  next_id :: nat

type_synonym 'a M = "state \<Rightarrow> (py_error + 'a) \<times> state"

definition returnM :: "'a \<Rightarrow> 'a M" where
  "returnM x = (\<lambda>s. (Inr x, s))"

definition raiseM :: "py_error \<Rightarrow> 'a M" where
  "raiseM e = (\<lambda>s. (Inl e, s))"

definition bindM :: "'a M \<Rightarrow> ('a \<Rightarrow> 'b M) \<Rightarrow> 'b M" where
  "bindM m f = (\<lambda>s. case m s of (Inl e, s') \<Rightarrow> (Inl e, s') | (Inr x, s') \<Rightarrow> f x s')"

definition liftE :: "py_error + 'a \<Rightarrow> 'a M" where
  "liftE r = (\<lambda>s. (r, s))"

fun mapM :: "('a \<Rightarrow> 'b M) \<Rightarrow> 'a list \<Rightarrow> 'b list M" where
  "mapM f [] = returnM []"
| "mapM f (x # xs) = bindM (f x) (\<lambda>y. bindM (mapM f xs) (\<lambda>ys. returnM (y # ys)))"

text \<open>A new storage object: a fresh address holding the given numbers.\<close>

definition alloc :: "real list \<Rightarrow> nat M" where
  "alloc xs = (\<lambda>s. (Inr (next_addr s),
     s\<lparr>heap := (heap s)(next_addr s := xs), next_addr := Suc (next_addr s)\<rparr>))"

text \<open>
  Modelled from the spec: the constructor of \<^verbatim>\<open>TensorData\<close>. Strides default to the
  row-major ones; shape and strides have one entry per dimension (section 3); the
  storage holds exactly \<open>product(shape)\<close> numbers, which is how \<^verbatim>\<open>View.forward\<close>
  meets the size requirement of section 4.1 on reinterpreting a storage.
\<close>

definition TensorData_init :: "nat \<Rightarrow> nat list \<Rightarrow> nat list option \<Rightarrow> TensorData M" where
  "TensorData_init st shp strd = (\<lambda>s.
     let strd' = (case strd of None \<Rightarrow> strides_from_shape shp | Some x \<Rightarrow> x) in
     if length strd' \<noteq> length shp then (Inl IndexError, s)
     else if length (heap s st) \<noteq> operators_prod shp then (Inl ShapeMismatch, s)
     else (Inr \<lparr>storage = st, shape = shp, strides = strd'\<rparr>, s))"

text \<open>\<^verbatim>\<open>TensorData.get\<close> and \<^verbatim>\<open>TensorData.set\<close>: read and write the storage at the
  position of a multi-index.\<close>

definition TensorData_get :: "TensorData \<Rightarrow> nat list \<Rightarrow> real M" where
  "TensorData_get td key = (\<lambda>s.
     case index_to_position td key of
       Inl e \<Rightarrow> (Inl e, s)
     | Inr p \<Rightarrow> if p < length (heap s (storage td))
                then (Inr (heap s (storage td) ! p), s) else (Inl IndexError, s))"

definition TensorData_set :: "TensorData \<Rightarrow> nat list \<Rightarrow> real \<Rightarrow> unit M" where
  "TensorData_set td key val = (\<lambda>s.
     case index_to_position td key of
       Inl e \<Rightarrow> (Inl e, s)
     | Inr p \<Rightarrow> if p < length (heap s (storage td))
                then (Inr (), s\<lparr>heap := (heap s)(storage td := (heap s (storage td))[p := val])\<rparr>)
                else (Inl IndexError, s))"

subsection \<open>Construction\<close>

text \<open>
  \<^verbatim>\<open>Tensor.__init__\<close>: a new object; \<^verbatim>\<open>backend=None\<close> means \<^verbatim>\<open>TensorFunctions\<close>.
  Modelled from the spec: \<^verbatim>\<open>Variable.__init__\<close> is not part of the sources; a tensor
  that carries a graph node requires grad, any other starts without.
\<close>

definition Tensor_init ::
  "TensorData \<Rightarrow> (fn \<times> nat list option \<times> Tensor arg list) option \<Rightarrow> tf_ref option \<Rightarrow> Tensor M" where
  "Tensor_init v bk backend = (\<lambda>s.
     (Inr (Tensor (next_id s) v bk (bk \<noteq> None)
            (case backend of None \<Rightarrow> TensorFunctions | Some b \<Rightarrow> b)),
      s\<lparr>next_id := Suc (next_id s)\<rparr>))"

definition set_tf :: "Tensor \<Rightarrow> tf_ref \<Rightarrow> Tensor" where
  "set_tf t b = Tensor (unique_id t) (tdata t) (tback t) (requires_grad t) b"

definition requires_grad_set :: "Tensor \<Rightarrow> bool \<Rightarrow> Tensor" where
  "requires_grad_set t val = Tensor (unique_id t) (tdata t) (tback t) val (tf t)"

definition Tensor_make :: "nat \<Rightarrow> nat list \<Rightarrow> nat list option \<Rightarrow> tf_ref option \<Rightarrow> Tensor M" where
  "Tensor_make st shp strd backend =
     bindM (TensorData_init st shp strd) (\<lambda>td. Tensor_init td None backend)"

definition zeros :: "nat list \<Rightarrow> Tensor M" where
  "zeros shp =
     bindM (alloc (replicate (operators_prod shp) 0)) (\<lambda>st. Tensor_make st shp None None)"

definition tensor :: "real list \<Rightarrow> nat list option \<Rightarrow> Tensor M" where
  "tensor ls shp =
     (let shp' = (case shp of None \<Rightarrow> [length ls] | Some [] \<Rightarrow> [length ls] | Some x \<Rightarrow> x)
      in bindM (alloc ls) (\<lambda>st. Tensor_make st shp' None None))"

datatype operand = Number real | Tens Tensor

fun ensure_tensor :: "operand \<Rightarrow> Tensor M" where
  "ensure_tensor (Number b) = tensor [b] None"
| "ensure_tensor (Tens b) = returnM b"

definition CudaTensorFunctions :: "tf_ref option" where
  "CudaTensorFunctions = None"

definition Tensor_new :: "Tensor \<Rightarrow> TensorData \<Rightarrow> Tensor M" where
  "Tensor_new self tensor_data = Tensor_init tensor_data None (Some (tf self))"

definition cuda :: "Tensor \<Rightarrow> Tensor M" where
  "cuda self = Tensor_init (tdata self) (tback self) CudaTensorFunctions"

definition Tensor_shape :: "Tensor \<Rightarrow> nat list" where
  "Tensor_shape self = shape (tdata self)"

definition Tensor_size :: "Tensor \<Rightarrow> nat" where
  "Tensor_size self = operators_prod (shape (tdata self))"

definition Tensor_dims :: "Tensor \<Rightarrow> nat" where
  "Tensor_dims self = length (shape (tdata self))"

definition Tensor_getitem :: "Tensor \<Rightarrow> nat list \<Rightarrow> real M" where
  "Tensor_getitem self key = TensorData_get (tdata self) key"

definition Tensor_setitem :: "Tensor \<Rightarrow> nat list \<Rightarrow> real \<Rightarrow> unit M" where
  "Tensor_setitem self key val = TensorData_set (tdata self) key val"

definition Tensor_zeros :: "Tensor \<Rightarrow> nat list option \<Rightarrow> Tensor M" where
  "Tensor_zeros self shp =
     bindM (case shp of None \<Rightarrow> zeros (Tensor_shape self) | Some x \<Rightarrow> zeros x)
       (\<lambda>out. returnM (set_tf out (tf self)))"

definition get_data :: "Tensor \<Rightarrow> Tensor M" where
  "get_data self = Tensor_init (tdata self) None None"

definition grad :: "Tensor \<Rightarrow> state \<Rightarrow> Tensor option" where
  "grad self s = derivative s (unique_id self)"


section \<open>The backend operator contract\<close>

text \<open>
  A backend gives, for a scalar function, the tensor-level map, zip and reduce.
  \<^verbatim>\<open>make_tensor_functions(backend)\<close> closes every differentiable operation over such a
  backend, so the operations below take the backend as their first argument.
\<close>

record backend =
  map_fn :: "(real \<Rightarrow> real) \<Rightarrow> Tensor \<Rightarrow> Tensor option \<Rightarrow> Tensor M"
  zip_fn :: "(real \<Rightarrow> real \<Rightarrow> real) \<Rightarrow> Tensor \<Rightarrow> Tensor \<Rightarrow> Tensor option \<Rightarrow> Tensor M"
  reduce_fn :: "(real \<Rightarrow> real \<Rightarrow> real) \<Rightarrow> Tensor \<Rightarrow> nat list option \<Rightarrow> Tensor option \<Rightarrow> Tensor M"

text \<open>
  Modelled from the spec: the sequential backend \<^verbatim>\<open>TensorOps\<close> (module \<^verbatim>\<open>tensor_ops\<close>) is
  not part of the sources; section 4.3 of the specification is its contract. Each
  primitive walks the multi-indices of a shape in row-major order, reads the operands
  at the broadcast index and writes the cell of \<open>out\<close>. The operands are read as they
  were when the call started (the caller must not pass one buffer as source and
  target); a position outside a storage is an \<open>IndexError\<close>.
\<close>

definition map_storage ::
  "(real \<Rightarrow> real) \<Rightarrow> TensorData \<Rightarrow> TensorData \<Rightarrow> real list \<Rightarrow> real list \<Rightarrow> real list" where
  "map_storage f out a a_st out_st =
     fold (\<lambda>idx st. st[position (strides out) idx :=
                       f (a_st ! position (strides a) (broadcast_index idx (shape a)))])
          (indices (shape out)) out_st"

definition map_in_bounds :: "TensorData \<Rightarrow> TensorData \<Rightarrow> real list \<Rightarrow> real list \<Rightarrow> bool" where
  "map_in_bounds out a a_st out_st =
     list_all (\<lambda>idx. position (strides out) idx < length out_st \<and>
                     position (strides a) (broadcast_index idx (shape a)) < length a_st)
              (indices (shape out))"

definition TensorOps_map :: "(real \<Rightarrow> real) \<Rightarrow> Tensor \<Rightarrow> Tensor option \<Rightarrow> Tensor M" where
  "TensorOps_map f a out =
     bindM (case out of None \<Rightarrow> Tensor_zeros a (Some (Tensor_shape a)) | Some t \<Rightarrow> returnM t)
       (\<lambda>out s.
          let o_td = tdata out; a_td = tdata a;
              a_st = heap s (storage a_td); o_st = heap s (storage o_td) in
          if shape_broadcast (shape a_td) (shape o_td) \<noteq> Inr (shape o_td)
          then (Inl ShapeMismatch, s)
          else if \<not> map_in_bounds o_td a_td a_st o_st then (Inl IndexError, s)
          else (Inr out,
                s\<lparr>heap := (heap s)(storage o_td := map_storage f o_td a_td a_st o_st)\<rparr>))"

definition zip_storage ::
  "(real \<Rightarrow> real \<Rightarrow> real) \<Rightarrow> TensorData \<Rightarrow> TensorData \<Rightarrow> TensorData \<Rightarrow>
     real list \<Rightarrow> real list \<Rightarrow> real list \<Rightarrow> real list" where
  "zip_storage f out a b a_st b_st out_st =
     fold (\<lambda>idx st. st[position (strides out) idx :=
                       f (a_st ! position (strides a) (broadcast_index idx (shape a)))
                         (b_st ! position (strides b) (broadcast_index idx (shape b)))])
          (indices (shape out)) out_st"

definition zip_in_bounds ::
  "TensorData \<Rightarrow> TensorData \<Rightarrow> TensorData \<Rightarrow> real list \<Rightarrow> real list \<Rightarrow> real list \<Rightarrow> bool" where
  "zip_in_bounds out a b a_st b_st out_st =
     list_all (\<lambda>idx. position (strides out) idx < length out_st \<and>
                     position (strides a) (broadcast_index idx (shape a)) < length a_st \<and>
                     position (strides b) (broadcast_index idx (shape b)) < length b_st)
              (indices (shape out))"

definition TensorOps_zip ::
  "(real \<Rightarrow> real \<Rightarrow> real) \<Rightarrow> Tensor \<Rightarrow> Tensor \<Rightarrow> Tensor option \<Rightarrow> Tensor M" where
  "TensorOps_zip f a b out =
     bindM (liftE (shape_broadcast (Tensor_shape a) (Tensor_shape b)))
       (\<lambda>shp.
     bindM (case out of None \<Rightarrow> Tensor_zeros a (Some shp) | Some t \<Rightarrow> returnM t)
       (\<lambda>out s.
          let o_td = tdata out; a_td = tdata a; b_td = tdata b;
              a_st = heap s (storage a_td); b_st = heap s (storage b_td);
              o_st = heap s (storage o_td) in
          if shape o_td \<noteq> shp then (Inl ShapeMismatch, s)
          else if \<not> zip_in_bounds o_td a_td b_td a_st b_st o_st then (Inl IndexError, s)
          else (Inr out,
                s\<lparr>heap := (heap s)(storage o_td :=
                     zip_storage f o_td a_td b_td a_st b_st o_st)\<rparr>)))"

text \<open>
  \<open>reduce\<close>: every cell of \<open>a\<close>, in row-major order, is folded into the cell of \<open>out\<close>
  its index broadcasts down to, so each collapsed dimension is folded left to right.
  With \<open>dims\<close>, the result is a new tensor of the shape of \<open>a\<close> with the listed
  dimensions set to 1, every cell starting from \<open>start\<close>. With \<open>out\<close> (the call of
  \<^verbatim>\<open>Tensor.expand\<close>), the cells of \<open>out\<close> start from what they hold.
\<close>

definition reduce_storage ::
  "(real \<Rightarrow> real \<Rightarrow> real) \<Rightarrow> TensorData \<Rightarrow> TensorData \<Rightarrow> real list \<Rightarrow> real list \<Rightarrow> real list" where
  "reduce_storage f out a a_st out_st =
     fold (\<lambda>idx st.
             let p = position (strides out) (broadcast_index idx (shape out))
             in st[p := f (st ! p) (a_st ! position (strides a) idx)])
          (indices (shape a)) out_st"

definition reduce_in_bounds :: "TensorData \<Rightarrow> TensorData \<Rightarrow> real list \<Rightarrow> real list \<Rightarrow> bool" where
  "reduce_in_bounds out a a_st out_st =
     list_all (\<lambda>idx. position (strides out) (broadcast_index idx (shape out)) < length out_st \<and>
                     position (strides a) idx < length a_st)
              (indices (shape a))"

definition reduce_shape :: "nat list \<Rightarrow> nat list \<Rightarrow> py_error + nat list" where
  "reduce_shape shp dims =
     (if list_all (\<lambda>d. d < length shp) dims
      then Inr (fold (\<lambda>d out_shape. out_shape[d := 1]) dims shp)
      else Inl IndexError)"

definition fill :: "Tensor \<Rightarrow> real \<Rightarrow> unit M" where
  "fill t v = (\<lambda>s. (Inr (),
     s\<lparr>heap := (heap s)(storage (tdata t) :=
          replicate (length (heap s (storage (tdata t)))) v)\<rparr>))"

definition TensorOps_reduce ::
  "(real \<Rightarrow> real \<Rightarrow> real) \<Rightarrow> real \<Rightarrow> Tensor \<Rightarrow> nat list option \<Rightarrow> Tensor option \<Rightarrow> Tensor M" where
  "TensorOps_reduce f start a dims out =
     bindM (case out of
              Some t \<Rightarrow> returnM t
            | None \<Rightarrow>
               (case dims of
                  None \<Rightarrow> raiseM TypeError
                | Some ds \<Rightarrow>
                    bindM (liftE (reduce_shape (Tensor_shape a) ds)) (\<lambda>out_shape.
                    bindM (Tensor_zeros a (Some out_shape)) (\<lambda>t.
                    bindM (fill t start) (\<lambda>_. returnM t)))))
       (\<lambda>out s.
          let o_td = tdata out; a_td = tdata a;
              a_st = heap s (storage a_td); o_st = heap s (storage o_td) in
          if shape_broadcast (shape o_td) (shape a_td) \<noteq> Inr (shape a_td)
          then (Inl ShapeMismatch, s)
          else if \<not> reduce_in_bounds o_td a_td a_st o_st then (Inl IndexError, s)
          else (Inr out,
                s\<lparr>heap := (heap s)(storage o_td := reduce_storage f o_td a_td a_st o_st)\<rparr>))"

definition TensorOps :: backend where
  "TensorOps = \<lparr>map_fn = TensorOps_map, zip_fn = TensorOps_zip,
                reduce_fn = (\<lambda>f. TensorOps_reduce f 0)\<rparr>"

section \<open>The differentiable operations\<close>

text \<open>
  Modelled from the spec: \<^verbatim>\<open>FunctionBase.apply\<close> (module \<^verbatim>\<open>autodiff\<close>) is not part of the
  sources. Section 4.2: it runs the forward function of the operation on the raw data
  of the inputs, wraps the result into a tensor (\<^verbatim>\<open>Function.variable\<close> and
  \<^verbatim>\<open>Function.data\<close> of the sources) and, when an input requires grad, attaches the
  graph node: the operation, the saved values and the inputs. The forward function
  returns the values it saved next to its result.
\<close>

definition Function_data :: "Tensor \<Rightarrow> TensorData \<times> tf_ref" where
  "Function_data a = (tdata a, tf a)"

definition Function_variable ::
  "TensorData \<times> tf_ref \<Rightarrow> (fn \<times> nat list option \<times> Tensor arg list) option \<Rightarrow> Tensor M" where
  "Function_variable data bk = Tensor_init (fst data) bk (Some (snd data))"

fun raw_arg :: "Tensor arg \<Rightarrow> Tensor arg M" where
  "raw_arg (ATensor t) = bindM (get_data t) (\<lambda>d. returnM (ATensor d))"
| "raw_arg a = returnM a"

fun arg_requires_grad :: "Tensor arg \<Rightarrow> bool" where
  "arg_requires_grad (ATensor t) = requires_grad t"
| "arg_requires_grad _ = False"

definition FunctionBase_apply ::
  "(Tensor arg list \<Rightarrow> (nat list option \<times> Tensor) M) \<Rightarrow> fn \<Rightarrow> Tensor arg list \<Rightarrow> Tensor M" where
  "FunctionBase_apply forward cls vals =
     bindM (mapM raw_arg vals) (\<lambda>raw_vals.
     bindM (forward raw_vals) (\<lambda>(saved, c).
       Function_variable (Function_data c)
         (if list_ex arg_requires_grad vals then Some (cls, saved, vals) else None)))"

subsection \<open>The members of \<^verbatim>\<open>TF\<close>\<close>

definition neg_map :: "backend \<Rightarrow> Tensor \<Rightarrow> Tensor option \<Rightarrow> Tensor M" where
  "neg_map b = map_fn b operators_neg"

definition id_map :: "backend \<Rightarrow> Tensor \<Rightarrow> Tensor option \<Rightarrow> Tensor M" where
  "id_map b = map_fn b operators_id"

definition add_zip :: "backend \<Rightarrow> Tensor \<Rightarrow> Tensor \<Rightarrow> Tensor option \<Rightarrow> Tensor M" where
  "add_zip b = zip_fn b operators_add"

definition mul_zip :: "backend \<Rightarrow> Tensor \<Rightarrow> Tensor \<Rightarrow> Tensor option \<Rightarrow> Tensor M" where
  "mul_zip b = zip_fn b operators_mul"

definition add_reduce :: "backend \<Rightarrow> Tensor \<Rightarrow> nat list option \<Rightarrow> Tensor option \<Rightarrow> Tensor M" where
  "add_reduce b = reduce_fn b operators_add"

definition past_assignment :: string where
  "past_assignment = ''Need to include this file from past assignment.''"

fun Neg_forward :: "backend \<Rightarrow> Tensor arg list \<Rightarrow> (nat list option \<times> Tensor) M" where
  "Neg_forward b [ATensor t1] = bindM (neg_map b t1 None) (\<lambda>r. returnM (None, r))"
| "Neg_forward b _ = raiseM TypeError"

definition Neg_backward :: "backend \<Rightarrow> nat list option \<Rightarrow> Tensor \<Rightarrow> Tensor list M" where
  "Neg_backward b saved grad_output = bindM (neg_map b grad_output None) (\<lambda>r. returnM [r])"

fun Add_forward :: "backend \<Rightarrow> Tensor arg list \<Rightarrow> (nat list option \<times> Tensor) M" where
  "Add_forward b [ATensor t1, ATensor t2] = bindM (add_zip b t1 t2 None) (\<lambda>r. returnM (None, r))"
| "Add_forward b _ = raiseM TypeError"

definition Add_backward :: "backend \<Rightarrow> nat list option \<Rightarrow> Tensor \<Rightarrow> Tensor list M" where
  "Add_backward b saved grad_output = returnM [grad_output, grad_output]"

fun Mul_forward :: "backend \<Rightarrow> Tensor arg list \<Rightarrow> (nat list option \<times> Tensor) M" where
  "Mul_forward b [a, b'] = raiseM (NotImplementedError past_assignment)"
| "Mul_forward b _ = raiseM TypeError"

definition Mul_backward :: "backend \<Rightarrow> nat list option \<Rightarrow> Tensor \<Rightarrow> Tensor list M" where
  "Mul_backward b saved grad_output = raiseM (NotImplementedError past_assignment)"

fun unary_stub_forward :: "backend \<Rightarrow> Tensor arg list \<Rightarrow> (nat list option \<times> Tensor) M" where
  "unary_stub_forward b [a] = raiseM (NotImplementedError past_assignment)"
| "unary_stub_forward b _ = raiseM TypeError"

fun View_forward :: "backend \<Rightarrow> Tensor arg list \<Rightarrow> (nat list option \<times> Tensor) M" where
  "View_forward b [ATensor a, ATuple shp] =
     (if \<not> is_contiguous (tdata a) then raiseM (AssertionError ''Must be contiguous to view'')
      else bindM (Tensor_make (storage (tdata a)) shp None None) (\<lambda>t.
           returnM (Some (Tensor_shape a), set_tf t (tf a))))"
| "View_forward b _ = raiseM TypeError"

definition View_backward :: "backend \<Rightarrow> nat list option \<Rightarrow> Tensor \<Rightarrow> Tensor list M" where
  "View_backward b saved grad_output =
     (case saved of
        None \<Rightarrow> raiseM (AssertionError [])
      | Some original \<Rightarrow>
          bindM (Tensor_make (storage (tdata grad_output)) original None None) (\<lambda>ret.
          returnM [set_tf ret (tf grad_output)]))"

definition Tensor_view :: "backend \<Rightarrow> Tensor \<Rightarrow> nat list \<Rightarrow> Tensor M" where
  "Tensor_view b self shp = FunctionBase_apply (View_forward b) View [ATensor self, ATuple shp]"

fun Sum_forward :: "backend \<Rightarrow> Tensor arg list \<Rightarrow> (nat list option \<times> Tensor) M" where
  "Sum_forward b [ATensor a, AInt d] =
     bindM (add_reduce b a (Some [d]) None) (\<lambda>r. returnM (Some (Tensor_shape a), r))"
| "Sum_forward b [ATensor a, ANone] =
     bindM (add_reduce b a (Some [0..<Tensor_dims a]) None) (\<lambda>r.
     bindM (Tensor_view b r [1]) (\<lambda>v. returnM (Some (Tensor_shape a), v)))"
| "Sum_forward b _ = raiseM TypeError"

definition Sum_backward :: "backend \<Rightarrow> nat list option \<Rightarrow> Tensor \<Rightarrow> Tensor list M" where
  "Sum_backward b saved grad_output = returnM [grad_output]"

text \<open>\<^verbatim>\<open>[a[0] for a in sorted(enumerate(order), key=lambda a: a[1])]\<close>\<close>

definition inverse_order :: "nat list \<Rightarrow> nat list" where
  "inverse_order order = map fst (sort_key snd (enumerate 0 order))"

fun Permute_forward :: "backend \<Rightarrow> Tensor arg list \<Rightarrow> (nat list option \<times> Tensor) M" where
  "Permute_forward b [ATensor a, ATuple order] =
     bindM (liftE (TensorData_permute (tdata a) order)) (\<lambda>td.
     bindM (Tensor_new a td) (\<lambda>t. returnM (Some order, t)))"
| "Permute_forward b _ = raiseM TypeError"

definition Permute_backward :: "backend \<Rightarrow> nat list option \<Rightarrow> Tensor \<Rightarrow> Tensor list M" where
  "Permute_backward b saved grad_output =
     (case saved of
        None \<Rightarrow> raiseM (AssertionError [])
      | Some order \<Rightarrow>
          bindM (liftE (TensorData_permute (tdata grad_output) (inverse_order order))) (\<lambda>td.
          bindM (Tensor_new grad_output td) (\<lambda>t. returnM [t])))"

fun Copy_forward :: "backend \<Rightarrow> Tensor arg list \<Rightarrow> (nat list option \<times> Tensor) M" where
  "Copy_forward b [ATensor a] = bindM (id_map b a None) (\<lambda>r. returnM (None, r))"
| "Copy_forward b _ = raiseM TypeError"

definition Copy_backward :: "backend \<Rightarrow> nat list option \<Rightarrow> Tensor \<Rightarrow> Tensor list M" where
  "Copy_backward b saved grad_output = returnM [grad_output]"

text \<open>
  The forward and backward function of each class of \<^verbatim>\<open>TF\<close>. The bodies of
  \<^verbatim>\<open>Mul\<close>, \<^verbatim>\<open>Sigmoid\<close>, \<^verbatim>\<open>ReLU\<close>, \<^verbatim>\<open>Log\<close>, \<^verbatim>\<open>Mean\<close> and \<^verbatim>\<open>LT\<close> only raise
  \<^verbatim>\<open>NotImplementedError\<close>: the classes of two arguments (\<^verbatim>\<open>Mul\<close>, \<^verbatim>\<open>Mean\<close>, \<^verbatim>\<open>LT\<close>)
  share one function, and so do the classes of one argument.
\<close>

fun forward_of :: "backend \<Rightarrow> fn \<Rightarrow> Tensor arg list \<Rightarrow> (nat list option \<times> Tensor) M" where
  "forward_of b Neg = Neg_forward b"
| "forward_of b Add = Add_forward b"
| "forward_of b Mul = Mul_forward b"
| "forward_of b Sigmoid = unary_stub_forward b"
| "forward_of b ReLU = unary_stub_forward b"
| "forward_of b Log = unary_stub_forward b"
| "forward_of b Sum = Sum_forward b"
| "forward_of b Mean = Mul_forward b"
| "forward_of b LT = Mul_forward b"
| "forward_of b Permute = Permute_forward b"
| "forward_of b View = View_forward b"
| "forward_of b Copy = Copy_forward b"

fun backward_of :: "backend \<Rightarrow> fn \<Rightarrow> nat list option \<Rightarrow> Tensor \<Rightarrow> Tensor list M" where
  "backward_of b Neg = Neg_backward b"
| "backward_of b Add = Add_backward b"
| "backward_of b Sum = Sum_backward b"
| "backward_of b Permute = Permute_backward b"
| "backward_of b View = View_backward b"
| "backward_of b Copy = Copy_backward b"
| "backward_of b _ = Mul_backward b"

subsection \<open>The methods of \<^verbatim>\<open>Tensor\<close>\<close>

definition contiguous :: "backend \<Rightarrow> Tensor \<Rightarrow> Tensor M" where
  "contiguous b self = FunctionBase_apply (Copy_forward b) Copy [ATensor self]"

definition Tensor_neg :: "backend \<Rightarrow> Tensor \<Rightarrow> Tensor M" where
  "Tensor_neg b self = FunctionBase_apply (Neg_forward b) Neg [ATensor self]"

definition Tensor_add :: "backend \<Rightarrow> Tensor \<Rightarrow> operand \<Rightarrow> Tensor M" where
  "Tensor_add b self other =
     bindM (ensure_tensor other) (\<lambda>t.
     FunctionBase_apply (Add_forward b) Add [ATensor self, ATensor t])"

definition Tensor_sub :: "backend \<Rightarrow> Tensor \<Rightarrow> operand \<Rightarrow> Tensor M" where
  "Tensor_sub b self other =
     bindM (ensure_tensor other) (\<lambda>t.
     bindM (Tensor_neg b t) (\<lambda>n.
     FunctionBase_apply (Add_forward b) Add [ATensor self, ATensor n]))"

definition Tensor_mul :: "backend \<Rightarrow> Tensor \<Rightarrow> operand \<Rightarrow> Tensor M" where
  "Tensor_mul b self other =
     bindM (ensure_tensor other) (\<lambda>t.
     FunctionBase_apply (Mul_forward b) Mul [ATensor self, ATensor t])"

definition Tensor_sum :: "backend \<Rightarrow> Tensor \<Rightarrow> nat option \<Rightarrow> Tensor M" where
  "Tensor_sum b self d =
     FunctionBase_apply (Sum_forward b) Sum
       [ATensor self, (case d of None \<Rightarrow> ANone | Some d \<Rightarrow> AInt d)]"

definition Tensor_permute :: "backend \<Rightarrow> Tensor \<Rightarrow> nat list \<Rightarrow> Tensor M" where
  "Tensor_permute b self order =
     FunctionBase_apply (Permute_forward b) Permute [ATensor self, ATuple order]"

definition Tensor_expand :: "backend \<Rightarrow> Tensor \<Rightarrow> Tensor \<Rightarrow> Tensor M" where
  "Tensor_expand b self other =
     (if Tensor_shape self = Tensor_shape other then returnM other
      else
        bindM (liftE (shape_broadcast (Tensor_shape self) (Tensor_shape other))) (\<lambda>shp.
        bindM (zeros shp) (\<lambda>buf.
        bindM (id_map b other (Some buf)) (\<lambda>_.
        if Tensor_shape self = shp then returnM buf
        else
          bindM (zeros (Tensor_shape self)) (\<lambda>buf2.
          bindM (add_reduce b buf None (Some buf2)) (\<lambda>_. returnM buf2))))))"


section \<open>The backward pass\<close>

text \<open>
  Modelled from the spec: \<^verbatim>\<open>Variable.backward\<close> and the chain rule (module \<^verbatim>\<open>autodiff\<close>)
  are not part of the sources. Section 4.2: the seed must have the shape of the root;
  the graph reachable from the root through the graph nodes is sorted so that a tensor
  comes after every tensor that uses it; each operation's backward function turns the
  gradient accumulated for its output into one gradient per input, which is added to
  the gradient slot of a leaf that requires grad and passed on for an input with a
  graph node. The gradient for an input is first brought to the shape of that input
  by \<^verbatim>\<open>Tensor.expand\<close>: the catalogue asks that the gradient of \<open>Sum\<close> be broadcast
  back over the reduced entries, and \<^verbatim>\<open>Sum.backward\<close> itself returns it as it came.
  A gradient slot is allocated, as zeros, on its first accumulation.
\<close>

lemma size_input_less:
  "tback v = Some (f, saved, inputs) \<Longrightarrow> ATensor t \<in> set inputs \<Longrightarrow> size t < size v"
  using size_list_estimation'[of "ATensor t" inputs "size t" "size_arg size"]
  by (cases v) simp

function visit :: "Tensor \<Rightarrow> nat list \<times> Tensor list \<Rightarrow> nat list \<times> Tensor list" where
  "visit v (seen, order) =
     (if unique_id v \<in> set seen \<or> \<not> requires_grad v then (seen, order)
      else
        (case (case tback v of
                 None \<Rightarrow> (seen, order)
               | Some (f, saved, inputs) \<Rightarrow>
                   fold (\<lambda>a acc. case a of ATensor t \<Rightarrow> visit t acc | _ \<Rightarrow> acc)
                     inputs (seen, order))
         of (seen', order') \<Rightarrow> (unique_id v # seen', v # order')))"
  by pat_completeness auto
termination
  by (relation "measure (\<lambda>(v, acc). size v)") (auto dest: size_input_less)

definition topological_sort :: "Tensor \<Rightarrow> Tensor list" where
  "topological_sort v = snd (visit v ([], []))"

definition accumulate_derivative :: "backend \<Rightarrow> Tensor \<Rightarrow> Tensor \<Rightarrow> unit M" where
  "accumulate_derivative b v val = (\<lambda>s.
     bindM (case derivative s (unique_id v) of
              None \<Rightarrow> Tensor_zeros v None
            | Some d \<Rightarrow> returnM d) (\<lambda>d.
     bindM (Tensor_add b d (Tens val)) (\<lambda>d' s'.
       (Inr (), s'\<lparr>derivative := (derivative s')(unique_id v := Some d')\<rparr>))) s)"

definition add_pending ::
  "backend \<Rightarrow> Tensor \<Rightarrow> Tensor \<Rightarrow> (nat \<times> Tensor) list \<Rightarrow> (nat \<times> Tensor) list M" where
  "add_pending b t d pending =
     (case map_of pending (unique_id t) of
        None \<Rightarrow> returnM ((unique_id t, d) # pending)
      | Some g \<Rightarrow> bindM (Tensor_add b g (Tens d)) (\<lambda>g'. returnM ((unique_id t, g') # pending)))"

fun contribute ::
  "backend \<Rightarrow> (Tensor arg \<times> Tensor) list \<Rightarrow> (nat \<times> Tensor) list \<Rightarrow> (nat \<times> Tensor) list M" where
  "contribute b [] pending = returnM pending"
| "contribute b ((ATensor t, d) # rest) pending =
     (if \<not> requires_grad t then contribute b rest pending
      else bindM (Tensor_expand b t d) (\<lambda>d'.
           if tback t = None
           then bindM (accumulate_derivative b t d') (\<lambda>_. contribute b rest pending)
           else bindM (add_pending b t d' pending) (\<lambda>pending'. contribute b rest pending')))"
| "contribute b (_ # rest) pending = contribute b rest pending"

fun backpropagate :: "backend \<Rightarrow> Tensor list \<Rightarrow> (nat \<times> Tensor) list \<Rightarrow> unit M" where
  "backpropagate b [] pending = returnM ()"
| "backpropagate b (v # vs) pending =
     (case tback v of
        None \<Rightarrow> backpropagate b vs pending
      | Some (f, saved, inputs) \<Rightarrow>
          (case map_of pending (unique_id v) of
             None \<Rightarrow> backpropagate b vs pending
           | Some g \<Rightarrow>
               bindM (backward_of b f saved g) (\<lambda>grads.
               bindM (contribute b (zip inputs grads) pending) (\<lambda>pending'.
               backpropagate b vs pending'))))"

definition Variable_backward :: "backend \<Rightarrow> Tensor \<Rightarrow> Tensor \<Rightarrow> unit M" where
  "Variable_backward b self grad_output =
     (if Tensor_shape grad_output \<noteq> Tensor_shape self then raiseM ShapeMismatch
      else if tback self = None
      then (if requires_grad self then accumulate_derivative b self grad_output
            else returnM ())
      else backpropagate b (topological_sort self) [(unique_id self, grad_output)])"

text \<open>\<^verbatim>\<open>Tensor.backward\<close> of the sources.\<close>

definition Tensor_backward :: "backend \<Rightarrow> Tensor \<Rightarrow> Tensor option \<Rightarrow> unit M" where
  "Tensor_backward b self grad_output =
     (case grad_output of
        None \<Rightarrow>
          (if Tensor_shape self \<noteq> [1]
           then raiseM (AssertionError ''Must provide grad_output if non-scalar'')
           else bindM (tensor [1] None) (\<lambda>g.
                Variable_backward b self (set_tf g (tf self))))
      | Some g \<Rightarrow> Variable_backward b self g)"

section \<open>Gradient verification\<close>

definition central_difference ::
  "backend \<Rightarrow> (Tensor list \<Rightarrow> Tensor M) \<Rightarrow> Tensor list \<Rightarrow> nat \<Rightarrow> real \<Rightarrow> nat list \<Rightarrow> real M" where
  "central_difference b f vals arg epsilon ind =
     (if \<not> arg < length vals then raiseM IndexError
      else
        let x = vals ! arg in
        bindM (zeros (Tensor_shape x)) (\<lambda>up.
        bindM (Tensor_setitem up ind epsilon) (\<lambda>_.
        bindM (mapM (\<lambda>(j, x). if j \<noteq> arg then returnM x else Tensor_add b x (Tens up))
                 (enumerate 0 vals)) (\<lambda>vals1.
        bindM (mapM (\<lambda>(j, x). if j \<noteq> arg then returnM x else Tensor_sub b x (Tens up))
                 (enumerate 0 vals)) (\<lambda>vals2.
        bindM (f vals1) (\<lambda>r1.
        bindM (Tensor_sum b r1 None) (\<lambda>s1.
        bindM (f vals2) (\<lambda>r2.
        bindM (Tensor_sum b r2 None) (\<lambda>s2.
        bindM (Tensor_sub b s1 (Tens s2)) (\<lambda>delta.
        bindM (Tensor_getitem delta [0]) (\<lambda>d0.
        if 2 * epsilon = 0 then raiseM ZeroDivisionError
        else returnM (d0 / (2 * epsilon)))))))))))))"


section \<open>Well-formed tensors\<close>

text \<open>
  The element of a tensor at a multi-index, read from the storage, and the tensors the
  theorems speak about: one stride per dimension, every size at least 1 (section 3 of
  the specification), a storage that has been allocated, and every valid multi-index
  inside the storage.
\<close>

definition entry :: "state \<Rightarrow> Tensor \<Rightarrow> nat list \<Rightarrow> real" where
  "entry s t idx = heap s (storage (tdata t)) ! position (strides (tdata t)) idx"

definition wf_tensor :: "state \<Rightarrow> Tensor \<Rightarrow> bool" where
  "wf_tensor s t =
     (length (strides (tdata t)) = length (shape (tdata t)) \<and>
      list_all (\<lambda>n. 1 \<le> n) (shape (tdata t)) \<and>
      storage (tdata t) < next_addr s \<and>
      list_all (\<lambda>idx. position (strides (tdata t)) idx < length (heap s (storage (tdata t))))
        (indices (shape (tdata t))))"

text \<open>
  \<open>extends s s'\<close>: the state \<open>s'\<close> has every storage of \<open>s\<close>, unchanged, and perhaps
  new ones. \<open>full s t ns c\<close>: the tensor \<open>t\<close> is contiguous, of shape \<open>ns\<close>, and every
  number of its storage is \<open>c\<close>. \<open>fresh_leaf s x\<close>: the tensor \<open>x\<close> is a well-formed
  leaf (no graph node) that requires grad, was built before \<open>s\<close>, and has no gradient
  accumulated yet.
\<close>

definition extends :: "state \<Rightarrow> state \<Rightarrow> bool" where
  "extends s s' =
     (next_addr s \<le> next_addr s' \<and> next_id s \<le> next_id s' \<and>
      (\<forall>a<next_addr s. heap s' a = heap s a))"

definition full :: "state \<Rightarrow> Tensor \<Rightarrow> nat list \<Rightarrow> real \<Rightarrow> bool" where
  "full s t ns c =
     (shape (tdata t) = ns \<and> strides (tdata t) = strides_from_shape ns \<and>
      storage (tdata t) < next_addr s \<and>
      heap s (storage (tdata t)) = replicate (prod_list ns) c)"

definition fresh_leaf :: "state \<Rightarrow> Tensor \<Rightarrow> bool" where
  "fresh_leaf s x =
     (wf_tensor s x \<and> requires_grad x \<and> tback x = None \<and>
      unique_id x < next_id s \<and> derivative s (unique_id x) = None)"

text \<open>
  \<open>total s t\<close>: the sum of all elements of \<open>t\<close>. \<open>forward_function_near f s vals arg\<close>:
  what \<^verbatim>\<open>central_difference\<close> needs of the function it is given, and only on the
  inputs it calls it with. In every state that has the storages of \<open>s\<close>, on the inputs
  \<open>vals\<close> with the one at position \<open>arg\<close> replaced by a well-formed contiguous tensor of
  the same shape, \<open>f\<close> returns a well-formed tensor and leaves every storage that
  exists as it is (a forward function, section 4.2 of the specification). Nothing is
  asked of \<open>f\<close> on any other number of arguments or on other shapes.
\<close>

definition total :: "state \<Rightarrow> Tensor \<Rightarrow> real" where
  "total s t = sum_list (map (entry s t) (indices (Tensor_shape t)))"

definition forward_function_near ::
  "(Tensor list \<Rightarrow> Tensor M) \<Rightarrow> state \<Rightarrow> Tensor list \<Rightarrow> nat \<Rightarrow> bool" where
  "forward_function_near f s vals arg =
     (\<forall>vs s'. extends s s' \<and> list_all (wf_tensor s') vs \<and> length vs = length vals \<and>
              (\<forall>j<length vals. j \<noteq> arg \<longrightarrow> vs ! j = vals ! j) \<and>
              Tensor_shape (vs ! arg) = Tensor_shape (vals ! arg) \<and>
              is_contiguous (tdata (vs ! arg)) \<longrightarrow>
        (\<exists>r s''. f vs s' = (Inr r, s'') \<and> wf_tensor s'' r \<and> extends s' s''))"

text \<open>
  Two backends are compared through the tensors they build. Two tensors are the same
  when they have the same shape, the same strides and the same numbers in their
  storage; addresses and identifiers, which no Python program can observe, may differ.
  Two runs have the same outcome when both raise the same error or both return the
  same tensor. A backend honors the map/zip/reduce contract when each of its three
  primitives, called without a destination on well-formed tensors, has the same
  outcome as the primitive of the sequential backend.
\<close>

definition same_tensor :: "state \<Rightarrow> Tensor \<Rightarrow> state \<Rightarrow> Tensor \<Rightarrow> bool" where
  "same_tensor s1 t1 s2 t2 =
     (shape (tdata t1) = shape (tdata t2) \<and> strides (tdata t1) = strides (tdata t2) \<and>
      heap s1 (storage (tdata t1)) = heap s2 (storage (tdata t2)))"

definition same_outcome ::
  "(py_error + Tensor) \<times> state \<Rightarrow> (py_error + Tensor) \<times> state \<Rightarrow> bool" where
  "same_outcome p q =
     (case (fst p, fst q) of
        (Inl e1, Inl e2) \<Rightarrow> e1 = e2
      | (Inr t1, Inr t2) \<Rightarrow> same_tensor (snd p) t1 (snd q) t2
      | _ \<Rightarrow> False)"

definition same_forward ::
  "(py_error + nat list option \<times> Tensor) \<times> state \<Rightarrow>
   (py_error + nat list option \<times> Tensor) \<times> state \<Rightarrow> bool" where
  "same_forward p q =
     (case (fst p, fst q) of
        (Inl e1, Inl e2) \<Rightarrow> e1 = e2
      | (Inr (c1, t1), Inr (c2, t2)) \<Rightarrow> c1 = c2 \<and> same_tensor (snd p) t1 (snd q) t2
      | _ \<Rightarrow> False)"

fun arg_wf :: "state \<Rightarrow> Tensor arg \<Rightarrow> bool" where
  "arg_wf s (ATensor t) = wf_tensor s t"
| "arg_wf s _ = True"

definition honors_contract :: "backend \<Rightarrow> bool" where
  "honors_contract b =
     (\<forall>s a. wf_tensor s a \<longrightarrow>
        (\<forall>f. same_outcome (map_fn b f a None s) (map_fn TensorOps f a None s)) \<and>
        (\<forall>f c. wf_tensor s c \<longrightarrow>
           same_outcome (zip_fn b f a c None s) (zip_fn TensorOps f a c None s)) \<and>
        (\<forall>f ds. same_outcome (reduce_fn b f a (Some ds) None s)
                   (reduce_fn TensorOps f a (Some ds) None s)))"

section \<open>Example inputs\<close>

text \<open>The state of a program that has built nothing yet.\<close>

definition init_state :: state where
  "init_state = \<lparr>heap = (\<lambda>_. []), next_addr = 0, derivative = (\<lambda>_. None), next_id = 0\<rparr>"

text \<open>
  A state holding one storage of six numbers, a contiguous tensor of shape \<open>(2, 3)\<close>
  on it, and the tensor \<^verbatim>\<open>permute(1, 0)\<close> makes of it: shape \<open>(3, 2)\<close>, strides
  \<open>(1, 3)\<close>.
\<close>

definition six_state :: state where
  "six_state = \<lparr>heap = (\<lambda>_. [])(0 := [1, 2, 3, 4, 5, 6]), next_addr = 1,
                 derivative = (\<lambda>_. None), next_id = 2\<rparr>"

definition six_tensor :: Tensor where
  "six_tensor = Tensor 0 \<lparr>storage = 0, shape = [2, 3], strides = [3, 1]\<rparr> None False TensorFunctions"

definition six_permuted :: Tensor where
  "six_permuted = Tensor 1 \<lparr>storage = 0, shape = [3, 2], strides = [1, 3]\<rparr> None False TensorFunctions"

text \<open>A leaf of shape \<open>(3,)\<close> that requires grad, every entry 7.\<close>

definition leaf_state :: state where
  "leaf_state = \<lparr>heap = (\<lambda>_. [])(0 := [7, 7, 7]), next_addr = 1,
                  derivative = (\<lambda>_. None), next_id = 1\<rparr>"

definition leaf_tensor :: Tensor where
  "leaf_tensor = Tensor 0 \<lparr>storage = 0, shape = [3], strides = [1]\<rparr> None True TensorFunctions"

text \<open>
  Two tensors of shape \<open>(3,)\<close> in one state, and the function \<^verbatim>\<open>lambda a, b: a + b\<close>,
  which Python refuses to call with any other number of arguments.
\<close>

definition pair_state :: state where
  "pair_state = \<lparr>heap = (\<lambda>_. [])(0 := [7, 7, 7], 1 := [1, 2, 3]), next_addr = 2,
                  derivative = (\<lambda>_. None), next_id = 2\<rparr>"

definition second_tensor :: Tensor where
  "second_tensor = Tensor 1 \<lparr>storage = 1, shape = [3], strides = [1]\<rparr> None False TensorFunctions"

definition add2_fn :: "Tensor list \<Rightarrow> Tensor M" where
  "add2_fn vs = (case vs of [a, c] \<Rightarrow> Tensor_add TensorOps a (Tens c) | _ \<Rightarrow> raiseM TypeError)"

text \<open>
  A backend that differs from the sequential one: every primitive first allocates a
  scratch buffer, so its results live at other addresses.
\<close>

definition padded_ops :: backend where
  "padded_ops =
     \<lparr>map_fn = (\<lambda>f a out. bindM (alloc []) (\<lambda>_. TensorOps_map f a out)),
      zip_fn = (\<lambda>f a c out. bindM (alloc []) (\<lambda>_. TensorOps_zip f a c out)),
      reduce_fn = (\<lambda>f a ds out. bindM (alloc []) (\<lambda>_. TensorOps_reduce f 0 a ds out))\<rparr>"

section \<open>Basic facts\<close>

lemma bindM_apply:
  "bindM m f s = (case m s of (Inl e, s') \<Rightarrow> (Inl e, s') | (Inr x, s') \<Rightarrow> f x s')"
  by (simp add: bindM_def)

lemma returnM_apply: "returnM x s = (Inr x, s)"
  by (simp add: returnM_def)

lemma raiseM_apply: "raiseM e s = (Inl e, s)"
  by (simp add: raiseM_def)

lemma liftE_apply: "liftE r s = (r, s)"
  by (simp add: liftE_def)

lemmas monad_simps = bindM_apply returnM_apply raiseM_apply liftE_apply

lemma length_strides_from_shape: "length (strides_from_shape shp) = length shp"
  by (induction shp) auto

lemma get_data_apply:
  "get_data t s = (Inr (Tensor (next_id s) (tdata t) None False TensorFunctions),
                   s\<lparr>next_id := Suc (next_id s)\<rparr>)"
  by (simp add: get_data_def Tensor_init_def)

section \<open>Multiplication\<close>

text \<open>
  C3. \<^verbatim>\<open>tensor([2.0, 3.0]) * tensor([4.0, 5.0])\<close> should be \<open>[8.0, 15.0]\<close>. In the
  sources \<^verbatim>\<open>Mul.forward\<close> raises \<^verbatim>\<open>NotImplementedError\<close>: from any state, building the
  two tensors and multiplying them ends in that exception, so there is no product and
  no gradient.
\<close>

theorem mul_not_implemented:
  "fst (bindM (tensor [2, 3] None) (\<lambda>a. bindM (tensor [4, 5] None) (\<lambda>b.
         Tensor_mul TensorOps a (Tens b))) s)
   = Inl (NotImplementedError ''Need to include this file from past assignment.'')"
  by (simp add: Tensor_mul_def FunctionBase_apply_def monad_simps get_data_apply tensor_def
      Tensor_make_def alloc_def TensorData_init_def Tensor_init_def operators_prod_def
      past_assignment_def)

section \<open>Views\<close>

lemma Tensor_view_noncontiguous:
  "\<not> is_contiguous (tdata a) \<Longrightarrow>
   Tensor_view b a shp s =
     (Inl (AssertionError ''Must be contiguous to view''), s\<lparr>next_id := Suc (next_id s)\<rparr>)"
  by (simp add: Tensor_view_def FunctionBase_apply_def monad_simps get_data_apply)

lemma Tensor_view_contiguous:
  "is_contiguous (tdata a) \<Longrightarrow> length (heap s (storage (tdata a))) = operators_prod shp \<Longrightarrow>
   Tensor_view b a shp s =
     (Inr (Tensor (next_id s + 2)
             \<lparr>storage = storage (tdata a), shape = shp, strides = strides_from_shape shp\<rparr>
             (if requires_grad a
              then Some (View, Some (Tensor_shape a), [ATensor a, ATuple shp]) else None)
             (requires_grad a) TensorFunctions),
      s\<lparr>next_id := next_id s + 3\<rparr>)"
  by (simp add: Tensor_view_def FunctionBase_apply_def monad_simps get_data_apply
      Tensor_make_def TensorData_init_def Tensor_init_def length_strides_from_shape
      Function_variable_def Function_data_def set_tf_def Tensor_shape_def)

text \<open>
  C6, as the claim states it: a view of a non-contiguous tensor fails with
  \<open>ContiguityError\<close>. The permuted tensor of shape \<open>(3, 2)\<close> and strides \<open>(1, 3)\<close> is
  not contiguous, and \<^verbatim>\<open>view(6)\<close> of it fails with the \<open>AssertionError\<close> of the
  \<^verbatim>\<open>assert\<close> in \<^verbatim>\<open>View.forward\<close>, not with \<open>ContiguityError\<close>.
\<close>

theorem view_error_is_assertion:
  "\<not> is_contiguous (tdata six_permuted) \<and>
   fst (Tensor_view TensorOps six_permuted [6] six_state)
     = Inl (AssertionError ''Must be contiguous to view'') \<and>
   fst (Tensor_view TensorOps six_permuted [6] six_state) \<noteq> Inl ContiguityError"
proof -
  have nc: "\<not> is_contiguous (tdata six_permuted)"
    by (simp add: six_permuted_def is_contiguous_def)
  show ?thesis
    using nc by (simp add: Tensor_view_noncontiguous)
qed

text \<open>
  C6, amended. For every tensor \<open>a\<close> whose buffer is not contiguous, \<^verbatim>\<open>a.view(shape)\<close>
  fails with \<open>AssertionError\<close> ("Must be contiguous to view") and leaves storages and
  gradient slots as they were. For every contiguous \<open>a\<close> whose storage holds
  \<open>a.size\<close> numbers and every shape with \<open>product(shape) = a.size\<close>, \<^verbatim>\<open>a.view(shape)\<close>
  succeeds, with a tensor of that shape on the storage of \<open>a\<close>.
\<close>

theorem view_contiguity:
  "(\<not> is_contiguous (tdata a) \<longrightarrow>
      fst (Tensor_view b a shp s) = Inl (AssertionError ''Must be contiguous to view'') \<and>
      heap (snd (Tensor_view b a shp s)) = heap s \<and>
      derivative (snd (Tensor_view b a shp s)) = derivative s) \<and>
   (is_contiguous (tdata a) \<and> length (heap s (storage (tdata a))) = Tensor_size a \<and>
    operators_prod shp = Tensor_size a \<longrightarrow>
      (\<exists>v s'. Tensor_view b a shp s = (Inr v, s') \<and> Tensor_shape v = shp \<and>
               storage (tdata v) = storage (tdata a)))"
  by (simp add: Tensor_view_noncontiguous Tensor_view_contiguous Tensor_shape_def)

theorem view_contiguity_witness:
  "\<not> is_contiguous (tdata six_permuted) \<and>
   fst (Tensor_view TensorOps six_permuted [6] six_state)
     = Inl (AssertionError ''Must be contiguous to view'') \<and>
   is_contiguous (tdata six_tensor) \<and>
   length (heap six_state (storage (tdata six_tensor))) = Tensor_size six_tensor \<and>
   operators_prod [3, 2] = Tensor_size six_tensor \<and>
   (\<exists>v s'. Tensor_view TensorOps six_tensor [3, 2] six_state = (Inr v, s') \<and>
            Tensor_shape v = [3, 2] \<and> storage (tdata v) = storage (tdata six_tensor))"
proof -
  have nc: "\<not> is_contiguous (tdata six_permuted)"
    by (simp add: six_permuted_def is_contiguous_def)
  have c: "is_contiguous (tdata six_tensor) \<and>
           length (heap six_state (storage (tdata six_tensor))) = Tensor_size six_tensor \<and>
           operators_prod [3, 2] = Tensor_size six_tensor"
    by (simp add: six_tensor_def six_state_def is_contiguous_def Tensor_size_def
        operators_prod_def)
  show ?thesis
    using nc c view_contiguity [of six_permuted TensorOps "[6]" six_state]
      view_contiguity [of six_tensor TensorOps "[3, 2]" six_state]
    by blast
qed

section \<open>Seeding the backward pass\<close>

text \<open>
  C10. \<^verbatim>\<open>backward()\<close> with no \<open>grad_output\<close> on a tensor of shape \<open>(1,)\<close> runs the
  backward pass with a new tensor \<open>tensor([1.0])\<close> as the seed: shape \<open>(1,)\<close>, a fresh
  storage holding \<open>1.0\<close>, the backend of the tensor. On a tensor of any other shape
  it fails with the assertion "Must provide grad_output if non-scalar" and the state,
  every gradient slot included, is what it was.
\<close>

theorem backward_seed:
  "(Tensor_shape self = [1] \<longrightarrow>
      Tensor_backward b self None s =
        Variable_backward b self
          (Tensor (next_id s) \<lparr>storage = next_addr s, shape = [1], strides = [1]\<rparr>
             None False (tf self))
          (s\<lparr>heap := (heap s)(next_addr s := [1]), next_addr := Suc (next_addr s),
             next_id := Suc (next_id s)\<rparr>)) \<and>
   (Tensor_shape self \<noteq> [1] \<longrightarrow>
      Tensor_backward b self None s =
        (Inl (AssertionError ''Must provide grad_output if non-scalar''), s))"
  by (simp add: Tensor_backward_def monad_simps tensor_def alloc_def Tensor_make_def
      TensorData_init_def Tensor_init_def operators_prod_def set_tf_def Let_def)

theorem backward_seed_witness:
  "Tensor_shape (Tensor 0 \<lparr>storage = 0, shape = [1], strides = [1]\<rparr> None False TensorFunctions)
     = [1] \<and>
   Tensor_backward TensorOps
     (Tensor 0 \<lparr>storage = 0, shape = [1], strides = [1]\<rparr> None False TensorFunctions) None
     six_state =
     Variable_backward TensorOps
       (Tensor 0 \<lparr>storage = 0, shape = [1], strides = [1]\<rparr> None False TensorFunctions)
       (Tensor 2 \<lparr>storage = 1, shape = [1], strides = [1]\<rparr> None False TensorFunctions)
       (six_state\<lparr>heap := (heap six_state)(1 := [1]), next_addr := 2, next_id := 3\<rparr>) \<and>
   Tensor_shape six_tensor \<noteq> [1] \<and>
   Tensor_backward TensorOps six_tensor None six_state =
     (Inl (AssertionError ''Must provide grad_output if non-scalar''), six_state)"
  using backward_seed
      [of "Tensor 0 \<lparr>storage = 0, shape = [1], strides = [1]\<rparr> None False TensorFunctions"
          TensorOps six_state]
    backward_seed [of six_tensor TensorOps six_state]
  by (simp add: Tensor_shape_def six_tensor_def six_state_def eval_nat_numeral)


section \<open>Permutation\<close>

lemma map_insort_key: "map f (insort_key f x ys) = insort (f x) (map f ys)"
  by (induction ys) auto

lemma map_sort_key: "map f (sort_key f xs) = sort (map f xs)"
  by (induction xs) (auto simp: map_insort_key)

lemma length_of_sorted_order: "sort order = [0..<n] \<Longrightarrow> length order = n"
  by (metis length_sort length_upt minus_nat.diff_0)

lemma length_inverse_order: "length (inverse_order order) = length order"
  by (simp add: inverse_order_def)

lemma inverse_order_nth:
  assumes "sort order = [0..<n]" and "i < n"
  shows "inverse_order order ! i < n \<and> order ! (inverse_order order ! i) = i"
proof -
  let ?ps = "sort_key snd (enumerate 0 order)"
  have len: "length order = n" using assms(1) by (rule length_of_sorted_order)
  have "map snd ?ps = [0..<n]"
    using assms(1) by (simp add: map_sort_key)
  then have sndi: "snd (?ps ! i) = i"
    using assms(2) len by (metis add_0 length_enumerate length_sort nth_map nth_upt)
  have "?ps ! i \<in> set (enumerate 0 order)"
    using assms(2) len by (metis length_enumerate length_sort nth_mem set_sort)
  then have "fst (?ps ! i) < length order \<and> order ! fst (?ps ! i) = snd (?ps ! i)"
    by (simp add: in_set_enumerate_eq)
  moreover have "inverse_order order ! i = fst (?ps ! i)"
    using assms(2) len by (simp add: inverse_order_def)
  ultimately show ?thesis using sndi len by simp
qed

lemma sort_inverse_order:
  assumes "sort order = [0..<n]"
  shows "sort (inverse_order order) = [0..<n]"
proof -
  let ?inv = "inverse_order order"
  have len: "length ?inv = n"
    using assms by (simp add: length_inverse_order length_of_sorted_order)
  have inj: "distinct ?inv"
    unfolding distinct_conv_nth
  proof (intro allI impI)
    fix i j assume "i < length ?inv" "j < length ?inv" "i \<noteq> j"
    then show "?inv ! i \<noteq> ?inv ! j"
      using inverse_order_nth[OF assms, of i] inverse_order_nth[OF assms, of j] len by metis
  qed
  have sub: "set ?inv \<subseteq> {0..<n}"
    using inverse_order_nth[OF assms] len by (auto simp: in_set_conv_nth)
  have "card (set ?inv) = n" using inj len by (simp add: distinct_card)
  then have "set ?inv = {0..<n}"
    using sub by (simp add: card_subset_eq)
  then show ?thesis
    using inj by (intro sorted_distinct_set_unique) simp_all
qed

lemma permute_nth_inverse:
  assumes "sort order = [0..<n]" and "length xs = n"
  shows "map (\<lambda>i. map (\<lambda>j. xs ! j) order ! i) (inverse_order order) = xs"
proof (rule nth_equalityI)
  show "length (map (\<lambda>i. map (\<lambda>j. xs ! j) order ! i) (inverse_order order)) = length xs"
    using assms by (simp add: length_inverse_order length_of_sorted_order)
next
  fix i assume "i < length (map (\<lambda>i. map (\<lambda>j. xs ! j) order ! i) (inverse_order order))"
  then have i: "i < n"
    using assms by (simp add: length_inverse_order length_of_sorted_order)
  have len: "length order = n" using assms(1) by (rule length_of_sorted_order)
  show "map (\<lambda>i. map (\<lambda>j. xs ! j) order ! i) (inverse_order order) ! i = xs ! i"
    using inverse_order_nth[OF assms(1) i] i len by (simp add: length_inverse_order)
qed

lemma inverse_order_left:
  assumes "sort order = [0..<n]" and "i < n"
  shows "inverse_order order ! (order ! i) = i"
proof -
  have len: "length order = n" using assms(1) by (rule length_of_sorted_order)
  have "set order = {0..<n}" using assms(1) by (metis set_sort set_upt)
  then have oi: "order ! i < n" using assms(2) len by (metis atLeastLessThan_iff nth_mem)
  have d: "distinct order" using assms(1) by (metis distinct_sort distinct_upt)
  have "order ! (inverse_order order ! (order ! i)) = order ! i"
    using inverse_order_nth[OF assms(1) oi] by simp
  moreover have "inverse_order order ! (order ! i) < n"
    using inverse_order_nth[OF assms(1) oi] by simp
  ultimately show ?thesis
    using d assms(2) len by (simp add: nth_eq_iff_index_eq)
qed

lemma TensorData_permute_inverse:
  assumes "sort order = [0..<length (shape td)]" and "length (strides td) = length (shape td)"
  shows "\<exists>td1. TensorData_permute td order = Inr td1 \<and>
               TensorData_permute td1 (inverse_order order) = Inr td"
proof -
  have len: "length order = length (shape td)" using assms(1) by (rule length_of_sorted_order)
  show ?thesis
    using assms len
    by (simp add: TensorData_permute_def sort_inverse_order permute_nth_inverse)
qed


lemma fst_TensorData_get:
  "fst (TensorData_get td idx s) =
     (case index_to_position td idx of
        Inl e \<Rightarrow> Inl e
      | Inr p \<Rightarrow> if p < length (heap s (storage td)) then Inr (heap s (storage td) ! p)
                 else Inl IndexError)"
  by (simp add: TensorData_get_def split: sum.splits)

lemma snd_TensorData_get: "snd (TensorData_get td idx s) = s"
  by (simp add: TensorData_get_def split: sum.splits)

lemma Tensor_getitem_cong:
  "tdata q = tdata t \<Longrightarrow> heap s2 = heap s \<Longrightarrow>
   fst (Tensor_getitem q idx s2) = fst (Tensor_getitem t idx s)"
  by (simp add: Tensor_getitem_def fst_TensorData_get split: sum.splits)

lemma Tensor_permute_apply:
  "TensorData_permute (tdata t) order = Inr td1 \<Longrightarrow>
   Tensor_permute b t order s =
     (Inr (Tensor (next_id s + 2) td1
             (if requires_grad t then Some (Permute, Some order, [ATensor t, ATuple order])
              else None)
             (requires_grad t) TensorFunctions),
      s\<lparr>next_id := next_id s + 3\<rparr>)"
  by (simp add: Tensor_permute_def FunctionBase_apply_def monad_simps get_data_apply
      Tensor_new_def Tensor_init_def Function_variable_def Function_data_def)

lemma Permute_backward_apply:
  "TensorData_permute (tdata g) (inverse_order order) = Inr td \<Longrightarrow>
   Permute_backward b (Some order) g s =
     (Inr [Tensor (next_id s) td None False (tf g)], s\<lparr>next_id := Suc (next_id s)\<rparr>)"
  by (simp add: Permute_backward_def monad_simps Tensor_new_def Tensor_init_def)

text \<open>
  C5. For every tensor \<open>t\<close> (one stride per dimension) and every order that is a
  permutation of \<open>range(t.dims)\<close>: \<^verbatim>\<open>t.permute(*order)\<close> succeeds, permuting the
  result with the inverse order (the order \<^verbatim>\<open>Permute.backward\<close> computes by sorting the
  saved order) succeeds and gives a tensor with the shape, strides and storage of \<open>t\<close>,
  so with the same element at every multi-index; \<^verbatim>\<open>Permute.backward\<close> applied to the
  permuted tensor gives the buffer of \<open>t\<close> back; and the computed order is the inverse
  permutation.
\<close>

theorem permute_inverse:
  assumes "sort order = [0..<Tensor_dims t]"
      and "length (strides (tdata t)) = Tensor_dims t"
  shows "\<exists>p s1 q s2 g s3.
           Tensor_permute b t order s = (Inr p, s1) \<and>
           Tensor_permute b p (inverse_order order) s1 = (Inr q, s2) \<and>
           Tensor_shape q = Tensor_shape t \<and>
           (\<forall>idx. fst (Tensor_getitem q idx s2) = fst (Tensor_getitem t idx s)) \<and>
           tdata q = tdata t \<and> heap s2 = heap s \<and>
           Permute_backward b (Some order) p s1 = (Inr [g], s3) \<and>
           tdata g = tdata t \<and> heap s3 = heap s \<and>
           (\<forall>i<Tensor_dims t. inverse_order order ! (order ! i) = i \<and>
                               order ! (inverse_order order ! i) = i)"
proof -
  obtain td1 where fw: "TensorData_permute (tdata t) order = Inr td1"
    and bw: "TensorData_permute td1 (inverse_order order) = Inr (tdata t)"
    using TensorData_permute_inverse [of order "tdata t"] assms
    unfolding Tensor_dims_def by blast
  have inv: "\<forall>i<Tensor_dims t. inverse_order order ! (order ! i) = i \<and>
                                order ! (inverse_order order ! i) = i"
    using inverse_order_left [OF assms(1)] inverse_order_nth [OF assms(1)] by blast
  obtain p s1 where p: "Tensor_permute b t order s = (Inr p, s1)"
    and p1: "tdata p = td1" "heap s1 = heap s"
    by (simp add: Tensor_permute_apply [OF fw])
  obtain q s2 where q: "Tensor_permute b p (inverse_order order) s1 = (Inr q, s2)"
    and q1: "tdata q = tdata t" "heap s2 = heap s1"
    using bw p1 by (simp add: Tensor_permute_apply [of _ _ "tdata t"])
  obtain g s3 where g: "Permute_backward b (Some order) p s1 = (Inr [g], s3)"
    and g1: "tdata g = tdata t" "heap s3 = heap s1"
    using bw p1 by (simp add: Permute_backward_apply [of _ _ "tdata t"])
  have "\<forall>idx. fst (Tensor_getitem q idx s2) = fst (Tensor_getitem t idx s)"
    using q1 p1 by (intro allI Tensor_getitem_cong) simp_all
  then have idx: "\<forall>idx. fst (Tensor_getitem q idx s2) = fst (Tensor_getitem t idx s)" .
  have sh: "Tensor_shape q = Tensor_shape t"
    using q1 by (simp add: Tensor_shape_def)
  have h2: "heap s2 = heap s" using q1 p1 by simp
  have h3: "heap s3 = heap s" using g1 p1 by simp
  show ?thesis
    apply (rule exI [of _ p], rule exI [of _ s1], rule exI [of _ q], rule exI [of _ s2],
           rule exI [of _ g], rule exI [of _ s3])
    apply (intro conjI)
    apply (rule p, rule q, rule sh, rule idx, rule q1(1), rule h2, rule g, rule g1(1), rule h3,
           rule inv)
    done
qed


theorem permute_inverse_witness:
  "sort [1, 0] = [0..<Tensor_dims six_tensor] \<and>
   length (strides (tdata six_tensor)) = Tensor_dims six_tensor \<and>
   (\<exists>p s1 q s2 g s3.
      Tensor_permute TensorOps six_tensor [1, 0] six_state = (Inr p, s1) \<and>
      Tensor_permute TensorOps p (inverse_order [1, 0]) s1 = (Inr q, s2) \<and>
      Tensor_shape q = Tensor_shape six_tensor \<and>
      fst (Tensor_getitem q [1, 2] s2) = fst (Tensor_getitem six_tensor [1, 2] six_state) \<and>
      Permute_backward TensorOps (Some [1, 0]) p s1 = (Inr [g], s3) \<and>
      tdata g = tdata six_tensor)"
proof -
  have h1: "sort [1, 0] = [0..<Tensor_dims six_tensor]"
    by (simp add: Tensor_dims_def six_tensor_def numeral_2_eq_2)
  have h2: "length (strides (tdata six_tensor)) = Tensor_dims six_tensor"
    by (simp add: Tensor_dims_def six_tensor_def)
  from permute_inverse [OF h1 h2, of TensorOps six_state]
  obtain p s1 q s2 g s3 where
    a: "Tensor_permute TensorOps six_tensor [1, 0] six_state = (Inr p, s1)" and
    b: "Tensor_permute TensorOps p (inverse_order [1, 0]) s1 = (Inr q, s2)" and
    c: "Tensor_shape q = Tensor_shape six_tensor" and
    d: "\<forall>idx. fst (Tensor_getitem q idx s2) = fst (Tensor_getitem six_tensor idx six_state)" and
    e: "Permute_backward TensorOps (Some [1, 0]) p s1 = (Inr [g], s3)" and
    f: "tdata g = tdata six_tensor"
    by (elim exE conjE)
  have d': "fst (Tensor_getitem q [1, 2] s2) = fst (Tensor_getitem six_tensor [1, 2] six_state)"
    using d by (rule spec)
  show ?thesis
    apply (rule conjI [OF h1])
    apply (rule conjI [OF h2])
    apply (rule exI [of _ p], rule exI [of _ s1], rule exI [of _ q], rule exI [of _ s2],
           rule exI [of _ g], rule exI [of _ s3])
    apply (intro conjI)
    apply (rule a, rule b, rule c, rule d', rule e, rule f)
    done
qed

section \<open>Multi-indices and positions\<close>

lemma position_Nil [simp]: "position ks [] = 0" "position [] idx = 0"
  by (simp_all add: position_def)

lemma position_Cons [simp]: "position (k # ks) (i # idx) = i * k + position ks idx"
  by (simp add: position_def)

lemma valid_index_Nil [simp]: "valid_index [] idx \<longleftrightarrow> idx = []"
  by (simp add: valid_index_def)

lemma valid_index_Cons:
  "valid_index (n # ns) idx \<longleftrightarrow> (\<exists>i is. idx = i # is \<and> i < n \<and> valid_index ns is)"
  by (auto simp: valid_index_def list_all2_Cons2)

lemma valid_index_Cons_Cons [simp]:
  "valid_index (n # ns) (i # idx) \<longleftrightarrow> i < n \<and> valid_index ns idx"
  by (simp add: valid_index_def)

lemma valid_index_length: "valid_index shp idx \<Longrightarrow> length idx = length shp"
  by (simp add: valid_index_def list_all2_lengthD)

lemma position_lt:
  "valid_index shp idx \<Longrightarrow> position (strides_from_shape shp) idx < prod_list shp"
proof (induction shp arbitrary: idx)
  case Nil
  then show ?case by simp
next
  case (Cons n ns)
  then obtain i "is" where idx: "idx = i # is" "i < n" "valid_index ns is"
    by (auto simp: valid_index_Cons)
  have "position (strides_from_shape ns) is < prod_list ns"
    using Cons.IH idx(3) by simp
  then have "i * prod_list ns + position (strides_from_shape ns) is < Suc i * prod_list ns"
    by simp
  also have "\<dots> \<le> n * prod_list ns"
    using idx(2) by (intro mult_le_mono1) simp
  finally show ?case using idx(1) by simp
qed

lemma set_indices: "set (indices shp) = {idx. valid_index shp idx}"
proof (induction shp)
  case Nil
  then show ?case by auto
next
  case (Cons n ns)
  show ?case
  proof (rule set_eqI)
    fix idx
    show "idx \<in> set (indices (n # ns)) \<longleftrightarrow> idx \<in> {idx. valid_index (n # ns) idx}"
      using Cons.IH by (cases idx) (auto simp: valid_index_def)
  qed
qed

lemma concat_blocks:
  "concat (map (\<lambda>i. map (\<lambda>k. i * p + k) [0..<p]) [0..<n]) = [0..<n * p]"
proof (induction n)
  case 0
  then show ?case by simp
next
  case (Suc n)
  have "map (\<lambda>k. n * p + k) [0..<p] = [n * p..<n * p + p]"
    using map_add_upt [of "n * p" p] by (simp add: add.commute)
  then show ?case
    using Suc.IH upt_add_eq_append [of 0 "n * p" p] by (simp add: add.commute)
qed

lemma map_position_indices:
  "map (position (strides_from_shape shp)) (indices shp) = [0..<prod_list shp]"
proof (induction shp)
  case Nil
  then show ?case by simp
next
  case (Cons n ns)
  have "map (position (strides_from_shape (n # ns))) (indices (n # ns)) =
        concat (map (\<lambda>i. map (\<lambda>k. i * prod_list ns + k)
                    (map (position (strides_from_shape ns)) (indices ns))) [0..<n])"
    by (simp add: map_concat comp_def)
  also have "\<dots> = [0..<n * prod_list ns]"
    by (simp only: Cons.IH concat_blocks)
  finally show ?case by simp
qed

lemma length_indices: "length (indices shp) = prod_list shp"
  using arg_cong [OF map_position_indices, of length shp] by simp

lemma distinct_indices: "distinct (indices shp)"
proof -
  have "distinct (map (position (strides_from_shape shp)) (indices shp))"
    by (simp add: map_position_indices)
  then show ?thesis by (simp add: distinct_map)
qed

lemma position_inj:
  "valid_index shp i \<Longrightarrow> valid_index shp j \<Longrightarrow>
   position (strides_from_shape shp) i = position (strides_from_shape shp) j \<Longrightarrow> i = j"
proof -
  assume a: "valid_index shp i" "valid_index shp j"
    "position (strides_from_shape shp) i = position (strides_from_shape shp) j"
  have "inj_on (position (strides_from_shape shp)) (set (indices shp))"
    using distinct_map [of "position (strides_from_shape shp)" "indices shp"]
    by (simp add: map_position_indices)
  then show ?thesis using a by (auto simp: inj_on_def set_indices)
qed

lemma position_onto:
  "p < prod_list shp \<Longrightarrow>
   \<exists>idx. valid_index shp idx \<and> position (strides_from_shape shp) idx = p"
proof -
  assume "p < prod_list shp"
  then have "p \<in> set (map (position (strides_from_shape shp)) (indices shp))"
    by (simp add: map_position_indices)
  then show ?thesis by (auto simp: set_indices)
qed

section \<open>Views share their storage\<close>

lemma TensorData_set_apply:
  "valid_index (shape td) idx \<Longrightarrow> position (strides td) idx < length (heap s (storage td)) \<Longrightarrow>
   TensorData_set td idx x s =
     (Inr (), s\<lparr>heap := (heap s)(storage td :=
                  (heap s (storage td))[position (strides td) idx := x])\<rparr>)"
  by (simp add: TensorData_set_def index_to_position_def)

lemma TensorData_get_apply:
  "valid_index (shape td) idx \<Longrightarrow> position (strides td) idx < length (heap s (storage td)) \<Longrightarrow>
   TensorData_get td idx s = (Inr (heap s (storage td) ! position (strides td) idx), s)"
  by (simp add: TensorData_get_def index_to_position_def)

lemma set_then_get:
  assumes "valid_index (shape v) i" "valid_index (shape a) j"
    and "storage v = storage a"
    and "position (strides a) j = position (strides v) i"
    and "position (strides v) i < length (heap s (storage v))"
  shows "fst (bindM (TensorData_set v i x) (\<lambda>_. TensorData_get a j) s) = Inr x"
  using assms by (simp add: bindM_apply TensorData_set_apply TensorData_get_apply)

text \<open>
  C9. For every contiguous tensor \<open>a\<close> whose storage holds \<open>a.size\<close> numbers and every
  shape with \<open>product(shape) = a.size\<close>, \<^verbatim>\<open>a.view(shape)\<close> is a contiguous tensor of
  that shape on the storage object of \<open>a\<close> itself and copies nothing. Every index of the
  view has an index of \<open>a\<close> at the same storage position, and for two such indices a
  value set through the view is the value read through \<open>a\<close>, and a value set through
  \<open>a\<close> is the value read through the view.
\<close>

theorem view_shares_storage:
  assumes "is_contiguous (tdata a)"
      and "length (heap s (storage (tdata a))) = Tensor_size a"
      and "operators_prod shp = Tensor_size a"
  shows "\<exists>v s1.
           Tensor_view b a shp s = (Inr v, s1) \<and>
           storage (tdata v) = storage (tdata a) \<and> heap s1 = heap s \<and>
           Tensor_shape v = shp \<and> is_contiguous (tdata v) \<and>
           (\<forall>i. valid_index shp i \<longrightarrow>
                 (\<exists>j. valid_index (Tensor_shape a) j \<and>
                      position (strides (tdata a)) j = position (strides (tdata v)) i)) \<and>
           (\<forall>i j x. valid_index shp i \<and> valid_index (Tensor_shape a) j \<and>
                     position (strides (tdata a)) j = position (strides (tdata v)) i \<longrightarrow>
                fst (bindM (Tensor_setitem v i x) (\<lambda>_. Tensor_getitem a j) s1) = Inr x \<and>
                fst (bindM (Tensor_setitem a j x) (\<lambda>_. Tensor_getitem v i) s1) = Inr x)"
proof -
  let ?n = "prod_list (shape (tdata a))"
  have len: "length (heap s (storage (tdata a))) = operators_prod shp"
    using assms by simp
  have n: "prod_list shp = ?n" "length (heap s (storage (tdata a))) = ?n"
    using assms by (simp_all add: Tensor_size_def operators_prod_def)
  have sa: "strides (tdata a) = strides_from_shape (shape (tdata a))"
    using assms(1) by (simp add: is_contiguous_def)
  obtain v s1 where v: "Tensor_view b a shp s = (Inr v, s1)"
    and vt: "tdata v = \<lparr>storage = storage (tdata a), shape = shp, strides = strides_from_shape shp\<rparr>"
    and h: "heap s1 = heap s"
    by (simp add: Tensor_view_contiguous [OF assms(1) len])
  have onto: "\<forall>i. valid_index shp i \<longrightarrow>
                 (\<exists>j. valid_index (Tensor_shape a) j \<and>
                      position (strides (tdata a)) j = position (strides (tdata v)) i)"
  proof (intro allI impI)
    fix i assume "valid_index shp i"
    then have "position (strides_from_shape shp) i < ?n"
      using position_lt [of shp i] n by simp
    then show "\<exists>j. valid_index (Tensor_shape a) j \<and>
                   position (strides (tdata a)) j = position (strides (tdata v)) i"
      using position_onto [of _ "shape (tdata a)"] by (simp add: vt sa Tensor_shape_def)
  qed
  have shared: "\<forall>i j x. valid_index shp i \<and> valid_index (Tensor_shape a) j \<and>
                     position (strides (tdata a)) j = position (strides (tdata v)) i \<longrightarrow>
                fst (bindM (Tensor_setitem v i x) (\<lambda>_. Tensor_getitem a j) s1) = Inr x \<and>
                fst (bindM (Tensor_setitem a j x) (\<lambda>_. Tensor_getitem v i) s1) = Inr x"
  proof (intro allI impI, elim conjE)
    fix i j x
    assume i: "valid_index shp i" and j: "valid_index (Tensor_shape a) j"
      and eq: "position (strides (tdata a)) j = position (strides (tdata v)) i"
    have pi: "position (strides (tdata v)) i < length (heap s1 (storage (tdata v)))"
      using position_lt [OF i] n h by (simp add: vt)
    have pj: "position (strides (tdata a)) j < length (heap s1 (storage (tdata a)))"
      using pi eq by (simp add: vt)
    have 1: "fst (bindM (Tensor_setitem v i x) (\<lambda>_. Tensor_getitem a j) s1) = Inr x"
      unfolding Tensor_setitem_def Tensor_getitem_def
      using i j eq pi by (intro set_then_get) (simp_all add: vt Tensor_shape_def)
    have 2: "fst (bindM (Tensor_setitem a j x) (\<lambda>_. Tensor_getitem v i) s1) = Inr x"
      unfolding Tensor_setitem_def Tensor_getitem_def
      using i j eq pj by (intro set_then_get) (simp_all add: vt Tensor_shape_def)
    show "fst (bindM (Tensor_setitem v i x) (\<lambda>_. Tensor_getitem a j) s1) = Inr x \<and>
          fst (bindM (Tensor_setitem a j x) (\<lambda>_. Tensor_getitem v i) s1) = Inr x"
      using 1 2 by (rule conjI)
  qed
  have st: "storage (tdata v) = storage (tdata a)" by (simp add: vt)
  have sv: "Tensor_shape v = shp" by (simp add: vt Tensor_shape_def)
  have cv: "is_contiguous (tdata v)" by (simp add: vt is_contiguous_def)
  show ?thesis
    apply (rule exI [of _ v], rule exI [of _ s1])
    apply (intro conjI)
    apply (rule v, rule st, rule h, rule sv, rule cv, rule onto, rule shared)
    done
qed


theorem view_shares_storage_witness:
  "is_contiguous (tdata six_tensor) \<and>
   length (heap six_state (storage (tdata six_tensor))) = Tensor_size six_tensor \<and>
   operators_prod [3, 2] = Tensor_size six_tensor \<and>
   (\<exists>v s1.
      Tensor_view TensorOps six_tensor [3, 2] six_state = (Inr v, s1) \<and>
      storage (tdata v) = storage (tdata six_tensor) \<and>
      fst (bindM (Tensor_setitem v [2, 1] 9) (\<lambda>_. Tensor_getitem six_tensor [1, 2]) s1) = Inr 9 \<and>
      fst (bindM (Tensor_setitem six_tensor [1, 2] 9) (\<lambda>_. Tensor_getitem v [2, 1]) s1) = Inr 9)"
proof -
  have h1: "is_contiguous (tdata six_tensor)"
    by (simp add: six_tensor_def is_contiguous_def)
  have h2: "length (heap six_state (storage (tdata six_tensor))) = Tensor_size six_tensor"
    by (simp add: six_tensor_def six_state_def Tensor_size_def operators_prod_def)
  have h3: "operators_prod [3, 2] = Tensor_size six_tensor"
    by (simp add: six_tensor_def Tensor_size_def operators_prod_def)
  from view_shares_storage [OF h1 h2 h3, of TensorOps]
  obtain v s1 where
    a: "Tensor_view TensorOps six_tensor [3, 2] six_state = (Inr v, s1)" and
    b: "storage (tdata v) = storage (tdata six_tensor)" and
    c: "Tensor_shape v = [3, 2]" "is_contiguous (tdata v)" and
    d: "\<forall>i j x. valid_index [3, 2] i \<and> valid_index (Tensor_shape six_tensor) j \<and>
          position (strides (tdata six_tensor)) j = position (strides (tdata v)) i \<longrightarrow>
          fst (bindM (Tensor_setitem v i x) (\<lambda>_. Tensor_getitem six_tensor j) s1) = Inr x \<and>
          fst (bindM (Tensor_setitem six_tensor j x) (\<lambda>_. Tensor_getitem v i) s1) = Inr x"
    by (elim exE conjE)
  have pre: "valid_index [3, 2] [2, 1] \<and> valid_index (Tensor_shape six_tensor) [1, 2] \<and>
             position (strides (tdata six_tensor)) [1, 2] = position (strides (tdata v)) [2, 1]"
    using c by (simp add: is_contiguous_def Tensor_shape_def six_tensor_def)
  have e: "fst (bindM (Tensor_setitem v [2, 1] 9) (\<lambda>_. Tensor_getitem six_tensor [1, 2]) s1) = Inr 9 \<and>
           fst (bindM (Tensor_setitem six_tensor [1, 2] 9) (\<lambda>_. Tensor_getitem v [2, 1]) s1) = Inr 9"
    using d pre by blast
  show ?thesis
    apply (intro conjI h1 h2 h3)
    apply (rule exI [of _ v], rule exI [of _ s1])
    using a b e apply simp
    done
qed

section \<open>Running the backend primitives\<close>

lemma tf_is_TensorFunctions [simp]: "(x :: tf_ref) = TensorFunctions"
  by (cases x) simp

lemma zeros_apply:
  "zeros shp s =
     (Inr (Tensor (next_id s)
             \<lparr>storage = next_addr s, shape = shp, strides = strides_from_shape shp\<rparr>
             None False TensorFunctions),
      s\<lparr>heap := (heap s)(next_addr s := replicate (prod_list shp) 0),
        next_addr := Suc (next_addr s), next_id := Suc (next_id s)\<rparr>)"
  by (simp add: zeros_def monad_simps alloc_def Tensor_make_def TensorData_init_def
      Tensor_init_def operators_prod_def length_strides_from_shape)

lemma Tensor_zeros_apply:
  "Tensor_zeros t (Some shp) s =
     (Inr (Tensor (next_id s)
             \<lparr>storage = next_addr s, shape = shp, strides = strides_from_shape shp\<rparr>
             None False TensorFunctions),
      s\<lparr>heap := (heap s)(next_addr s := replicate (prod_list shp) 0),
        next_addr := Suc (next_addr s), next_id := Suc (next_id s)\<rparr>)"
  by (simp add: Tensor_zeros_def monad_simps zeros_apply set_tf_def)

lemma TensorOps_reduce_fresh:
  assumes "reduce_shape (Tensor_shape a) ds = Inr out_shape"
      and "storage (tdata a) \<noteq> next_addr s"
      and "shape_broadcast out_shape (Tensor_shape a) = Inr (Tensor_shape a)"
      and "reduce_in_bounds
             \<lparr>storage = next_addr s, shape = out_shape, strides = strides_from_shape out_shape\<rparr>
             (tdata a) (heap s (storage (tdata a))) (replicate (prod_list out_shape) start)"
  shows "TensorOps_reduce f start a (Some ds) None s =
     (Inr (Tensor (next_id s)
             \<lparr>storage = next_addr s, shape = out_shape, strides = strides_from_shape out_shape\<rparr>
             None False TensorFunctions),
      s\<lparr>heap := (heap s)(next_addr s :=
            reduce_storage f
              \<lparr>storage = next_addr s, shape = out_shape, strides = strides_from_shape out_shape\<rparr>
              (tdata a) (heap s (storage (tdata a))) (replicate (prod_list out_shape) start)),
        next_addr := Suc (next_addr s), next_id := Suc (next_id s)\<rparr>)"
  using assms
  by (simp add: TensorOps_reduce_def monad_simps Tensor_zeros_apply fill_def Tensor_shape_def
      Let_def)


lemma length_fold_update:
  "length (fold (\<lambda>x st. st[p x st := g x st]) xs st) = length st"
  by (induction xs arbitrary: st) auto

lemma fold_accumulate:
  "q < length (st :: real list) \<Longrightarrow>
   fold (\<lambda>x st. st[p x := st ! p x + v x]) xs st ! q =
     st ! q + sum_list (map v (filter (\<lambda>x. p x = q) xs))"
proof (induction xs arbitrary: st)
  case Nil
  then show ?case by simp
next
  case (Cons x xs)
  have "fold (\<lambda>x st. st[p x := st ! p x + v x]) (x # xs) st ! q =
        st[p x := st ! p x + v x] ! q + sum_list (map v (filter (\<lambda>x. p x = q) xs))"
    using Cons.IH [of "st[p x := st ! p x + v x]"] Cons.prems by simp
  then show ?case using Cons.prems by (simp add: nth_list_update)
qed

lemma length_reduce_storage:
  "length (reduce_storage f out a a_st out_st) = length out_st"
  unfolding reduce_storage_def Let_def by (rule length_fold_update)

lemma reduce_storage_add_nth:
  "q < length out_st \<Longrightarrow>
   reduce_storage operators_add out a a_st out_st ! q =
     out_st ! q +
     sum_list (map (\<lambda>idx. a_st ! position (strides a) idx)
       (filter (\<lambda>idx. position (strides out) (broadcast_index idx (shape out)) = q)
          (indices (shape a))))"
  unfolding reduce_storage_def Let_def operators_add_def by (rule fold_accumulate)

lemma broadcast_aligned_down:
  "list_all2 (\<lambda>k n. (k = n \<or> k = 1) \<and> 1 \<le> n) ks ns \<Longrightarrow> broadcast_aligned ks ns = Inr ns"
  by (induction ks ns rule: list_all2_induct) auto

lemma shape_broadcast_down:
  "list_all2 (\<lambda>k n. (k = n \<or> k = 1) \<and> 1 \<le> n) ks ns \<Longrightarrow> shape_broadcast ks ns = Inr ns"
  by (simp add: shape_broadcast_def broadcast_aligned_down)

lemma broadcast_index_same_rank:
  "length idx = length ks \<Longrightarrow>
   broadcast_index idx ks = map2 (\<lambda>i n. if n = 1 then 0 else i) idx ks"
  by (simp add: broadcast_index_def)

lemma valid_broadcast_index:
  assumes "valid_index ns idx" and "list_all2 (\<lambda>k n. k = n \<or> k = 1) ks ns"
  shows "valid_index ks (broadcast_index idx ks)"
proof -
  have l: "length idx = length ns" "length ks = length ns"
    using assms by (simp_all add: valid_index_def list_all2_lengthD)
  show ?thesis
    using assms l
    by (auto simp: broadcast_index_same_rank valid_index_def list_all2_conv_all_nth)
qed

lemma fold_set_one_upto:
  "k \<le> length ns \<Longrightarrow>
   fold (\<lambda>d out_shape. out_shape[d := 1]) [0..<k] ns = replicate k 1 @ drop k ns"
proof (induction k)
  case 0
  then show ?case by simp
next
  case (Suc k)
  then have "fold (\<lambda>d out_shape. out_shape[d := 1]) [0..<Suc k] ns =
             (replicate k 1 @ drop k ns)[k := 1]"
    by simp
  also have "\<dots> = replicate k 1 @ (drop k ns)[0 := 1]"
    by (simp add: list_update_append)
  also have "\<dots> = replicate (Suc k) 1 @ drop (Suc k) ns"
    using Suc.prems Cons_nth_drop_Suc [of k ns, symmetric]
    by (simp add: replicate_append_same)
  finally show ?case .
qed

lemma reduce_shape_all:
  "reduce_shape ns [0..<length ns] = Inr (replicate (length ns) 1)"
  using fold_set_one_upto [of "length ns" ns] by (simp add: reduce_shape_def list_all_iff)

lemma reduce_shape_one:
  "d < length ns \<Longrightarrow> reduce_shape ns [d] = Inr (ns[d := 1])"
  by (simp add: reduce_shape_def)

lemma strides_replicate_one:
  "strides_from_shape (replicate k 1) = replicate k 1"
  by (induction k) auto

lemma position_zero: "position ks (replicate k 0) = 0"
proof (induction k arbitrary: ks)
  case 0
  then show ?case by simp
next
  case (Suc k)
  then show ?case by (cases ks) simp_all
qed

lemma broadcast_index_ones:
  "length idx = k \<Longrightarrow> broadcast_index idx (replicate k 1) = replicate k 0"
  by (auto simp: broadcast_index_same_rank intro!: nth_equalityI)

lemma TensorOps_select [simp]:
  "map_fn TensorOps = TensorOps_map"
  "zip_fn TensorOps = TensorOps_zip"
  "reduce_fn TensorOps = (\<lambda>f. TensorOps_reduce f 0)"
  by (simp_all add: TensorOps_def)

lemma reduce_in_bounds_wf:
  assumes "wf_tensor s a"
      and "list_all2 (\<lambda>k n. k = n \<or> k = 1) ks (shape (tdata a))"
  shows "reduce_in_bounds \<lparr>storage = A, shape = ks, strides = strides_from_shape ks\<rparr>
           (tdata a) (heap s (storage (tdata a))) (replicate (prod_list ks) start)"
proof -
  have "position (strides_from_shape ks) (broadcast_index idx ks) < prod_list ks"
    if "valid_index (shape (tdata a)) idx" for idx
    using valid_broadcast_index [OF that assms(2)] by (rule position_lt)
  moreover have "position (strides (tdata a)) idx < length (heap s (storage (tdata a)))"
    if "valid_index (shape (tdata a)) idx" for idx
    using assms(1) that by (simp add: wf_tensor_def list_all_iff set_indices)
  ultimately show ?thesis
    by (simp add: reduce_in_bounds_def list_all_iff set_indices)
qed

lemma shape_broadcast_wf:
  assumes "wf_tensor s a"
      and "list_all2 (\<lambda>k n. k = n \<or> k = 1) ks (shape (tdata a))"
  shows "shape_broadcast ks (shape (tdata a)) = Inr (shape (tdata a))"
proof -
  have "list_all2 (\<lambda>k n. (k = n \<or> k = 1) \<and> 1 \<le> n) ks (shape (tdata a))"
    using assms by (auto simp: wf_tensor_def list_all2_conv_all_nth list_all_length)
  then show ?thesis by (rule shape_broadcast_down)
qed

lemma add_reduce_fresh:
  assumes "wf_tensor s a"
      and "reduce_shape (shape (tdata a)) ds = Inr ks"
      and "list_all2 (\<lambda>k n. k = n \<or> k = 1) ks (shape (tdata a))"
      and "tdata a' = tdata a"
      and "next_addr s1 = next_addr s" "heap s1 = heap s"
  shows "add_reduce TensorOps a' (Some ds) None s1 =
     (Inr (Tensor (next_id s1)
             \<lparr>storage = next_addr s, shape = ks, strides = strides_from_shape ks\<rparr>
             None False TensorFunctions),
      s1\<lparr>heap := (heap s)(next_addr s :=
            reduce_storage operators_add
              \<lparr>storage = next_addr s, shape = ks, strides = strides_from_shape ks\<rparr>
              (tdata a) (heap s (storage (tdata a))) (replicate (prod_list ks) 0)),
        next_addr := Suc (next_addr s), next_id := Suc (next_id s1)\<rparr>)"
proof -
  have ne: "storage (tdata a') \<noteq> next_addr s1"
    using assms(1,4,5) by (simp add: wf_tensor_def)
  show ?thesis
    unfolding add_reduce_def
    using TensorOps_reduce_fresh [of a' ds ks s1 0 operators_add] assms(2-6) ne
      shape_broadcast_wf [OF assms(1,3)] reduce_in_bounds_wf [OF assms(1,3), of "next_addr s" 0]
    by (simp add: Tensor_shape_def)
qed

lemma all2_update_one:
  "d < length ns \<Longrightarrow> list_all2 (\<lambda>k n. k = n \<or> k = 1) (ns[d := 1]) ns"
  by (simp add: list_all2_conv_all_nth nth_list_update)

lemma all2_replicate_one:
  "list_all2 (\<lambda>k n. k = n \<or> k = 1) (replicate (length ns) 1) ns"
  by (simp add: list_all2_conv_all_nth)

lemma prod_list_replicate_one [simp]: "prod_list (replicate k (1::nat)) = 1"
  by (induction k) auto

lemma Tensor_sum_dim_apply:
  assumes "wf_tensor s a" and "d < Tensor_dims a"
  shows "Tensor_sum TensorOps a (Some d) s =
     (Inr (Tensor (next_id s + 2)
             \<lparr>storage = next_addr s, shape = (shape (tdata a))[d := 1],
               strides = strides_from_shape ((shape (tdata a))[d := 1])\<rparr>
             (if requires_grad a then Some (Sum, Some (Tensor_shape a), [ATensor a, AInt d])
              else None)
             (requires_grad a) TensorFunctions),
      s\<lparr>heap := (heap s)(next_addr s :=
            reduce_storage operators_add
              \<lparr>storage = next_addr s, shape = (shape (tdata a))[d := 1],
                strides = strides_from_shape ((shape (tdata a))[d := 1])\<rparr>
              (tdata a) (heap s (storage (tdata a)))
              (replicate (prod_list ((shape (tdata a))[d := 1])) 0)),
        next_addr := Suc (next_addr s), next_id := next_id s + 3\<rparr>)"
proof -
  have d: "d < length (shape (tdata a))" using assms(2) by (simp add: Tensor_dims_def)
  note r = add_reduce_fresh [OF assms(1) reduce_shape_one [OF d] all2_update_one [OF d],
      of "Tensor (next_id s) (tdata a) None False TensorFunctions"
         "s\<lparr>next_id := Suc (next_id s)\<rparr>"]
  show ?thesis
    by (simp add: Tensor_sum_def FunctionBase_apply_def monad_simps get_data_apply r
        Function_variable_def Function_data_def Tensor_init_def Tensor_shape_def)
qed

lemma Tensor_sum_all_apply:
  assumes "wf_tensor s a"
  shows "Tensor_sum TensorOps a None s =
     (Inr (Tensor (next_id s + 5)
             \<lparr>storage = next_addr s, shape = [1], strides = [1]\<rparr>
             (if requires_grad a then Some (Sum, Some (Tensor_shape a), [ATensor a, ANone])
              else None)
             (requires_grad a) TensorFunctions),
      s\<lparr>heap := (heap s)(next_addr s :=
            reduce_storage operators_add
              \<lparr>storage = next_addr s, shape = replicate (Tensor_dims a) 1,
                strides = replicate (Tensor_dims a) 1\<rparr>
              (tdata a) (heap s (storage (tdata a))) [0]),
        next_addr := Suc (next_addr s), next_id := next_id s + 6\<rparr>)"
proof -
  note r = add_reduce_fresh [OF assms reduce_shape_all all2_replicate_one,
      of "Tensor (next_id s) (tdata a) None False TensorFunctions"
         "s\<lparr>next_id := Suc (next_id s)\<rparr>"]
  show ?thesis
    by (simp add: Tensor_sum_def FunctionBase_apply_def monad_simps get_data_apply r
        Function_variable_def Function_data_def Tensor_init_def Tensor_shape_def
        Tensor_dims_def strides_replicate_one [simplified] Tensor_view_contiguous is_contiguous_def
        length_reduce_storage operators_prod_def)
qed

section \<open>Sum\<close>

lemma sum_all_value:
  "reduce_storage operators_add
     \<lparr>storage = A, shape = replicate (length (shape atd)) 1, strides = replicate (length (shape atd)) 1\<rparr>
     atd a_st [0] ! 0 =
   sum_list (map (\<lambda>idx. a_st ! position (strides atd) idx) (indices (shape atd)))"
proof -
  have "position (replicate (length (shape atd)) 1) (broadcast_index idx (replicate (length (shape atd)) 1)) = 0"
    if "idx \<in> set (indices (shape atd))" for idx
    using that broadcast_index_ones [of idx "length (shape atd)"]
    by (simp add: set_indices valid_index_length position_zero)
  then have "filter (\<lambda>idx. position (replicate (length (shape atd)) 1)
                        (broadcast_index idx (replicate (length (shape atd)) 1)) = 0) (indices (shape atd))
             = indices (shape atd)"
    by (simp add: filter_id_conv)
  then show ?thesis
    using reduce_storage_add_nth [of 0 "[0]"
        "\<lparr>storage = A, shape = replicate (length (shape atd)) 1, strides = replicate (length (shape atd)) 1\<rparr>"
        "atd" a_st]
    by simp
qed

lemma broadcast_index_update_one:
  assumes "valid_index ns idx" and "d < length ns"
  shows "broadcast_index idx (ns[d := 1]) = idx[d := 0]"
proof -
  have l: "length idx = length ns" using assms(1) by (rule valid_index_length)
  have "idx ! i = 0" if "i < length ns" "ns ! i = 1" for i
    using assms(1) that l by (auto simp: valid_index_def list_all2_conv_all_nth)
  then show ?thesis
    using l assms(2)
    by (auto simp: broadcast_index_same_rank nth_list_update intro!: nth_equalityI)
qed

lemma valid_index_update:
  assumes "valid_index (ns[d := 1]) idx" and "d < length ns" and "k < ns ! d"
  shows "valid_index ns (idx[d := k])" and "(idx[d := k])[d := 0] = idx"
proof -
  have l: "length idx = length ns" using assms(1) valid_index_length by fastforce
  have n: "\<forall>i<length ns. idx ! i < (ns[d := 1]) ! i"
    using assms(1) l by (simp add: valid_index_def list_all2_conv_all_nth)
  show "valid_index ns (idx[d := k])"
    unfolding valid_index_def list_all2_conv_all_nth
  proof (intro conjI allI impI)
    show "length (idx[d := k]) = length ns" using l by simp
  next
    fix i assume "i < length (idx[d := k])"
    then have i: "i < length ns" using l by simp
    show "idx[d := k] ! i < ns ! i"
      using n i assms(2,3) l by (cases "i = d") (auto simp: nth_list_update)
  qed
  have "idx ! d = 0" using n assms(2) by auto
  then show "(idx[d := k])[d := 0] = idx"
    using l assms(2) by (simp add: list_update_same_conv)
qed

lemma reduced_cells:
  assumes "valid_index (ns[d := 1]) idx" and "d < length ns"
  shows "{j. valid_index ns j \<and> j[d := 0] = idx} = (\<lambda>k. idx[d := k]) ` {..<ns ! d}"
proof (intro set_eqI iffI)
  fix j assume "j \<in> {j. valid_index ns j \<and> j[d := 0] = idx}"
  then have j: "valid_index ns j" "j[d := 0] = idx" by simp_all
  have l: "length j = length ns" using j(1) by (rule valid_index_length)
  have "j ! d < ns ! d"
    using j(1) assms(2) l by (simp add: valid_index_def list_all2_conv_all_nth)
  moreover have "idx[d := j ! d] = j"
    using j(2) by (metis list_update_id list_update_overwrite)
  ultimately show "j \<in> (\<lambda>k. idx[d := k]) ` {..<ns ! d}"
    by (metis imageI lessThan_iff)
next
  fix j assume "j \<in> (\<lambda>k. idx[d := k]) ` {..<ns ! d}"
  then obtain k where k: "k < ns ! d" "j = idx[d := k]" by auto
  show "j \<in> {j. valid_index ns j \<and> j[d := 0] = idx}"
    using valid_index_update [OF assms k(1)] k(2) by simp
qed

lemma sum_dim_value:
  assumes "valid_index (ns[d := 1]) idx" and "d < length ns" and ns: "shape atd = ns"
  shows "reduce_storage operators_add
     \<lparr>storage = A, shape = ns[d := 1], strides = strides_from_shape (ns[d := 1])\<rparr>
     atd a_st (replicate (prod_list (ns[d := 1])) 0)
       ! position (strides_from_shape (ns[d := 1])) idx =
   (\<Sum>k<ns ! d. a_st ! position (strides atd) (idx[d := k]))"
proof -
  let ?ms = "ns[d := 1]"
  let ?P = "\<lambda>j. position (strides_from_shape ?ms) (broadcast_index j ?ms) =
                 position (strides_from_shape ?ms) idx"
  have q: "position (strides_from_shape ?ms) idx < prod_list ?ms"
    using assms(1) by (rule position_lt)
  have P: "?P j \<longleftrightarrow> j[d := 0] = idx" if "valid_index ns j" for j
  proof -
    have b: "broadcast_index j ?ms = j[d := 0]"
      using that assms(2) by (rule broadcast_index_update_one)
    have "valid_index ?ms (broadcast_index j ?ms)"
      using that all2_update_one [OF assms(2)] by (rule valid_broadcast_index)
    then show ?thesis
      using position_inj [of ?ms "j[d := 0]" idx] assms(1) b by auto
  qed
  have "set (filter ?P (indices ns)) = {j. valid_index ns j \<and> j[d := 0] = idx}"
    using P by (auto simp: set_indices)
  then have s: "set (filter ?P (indices ns)) = (\<lambda>k. idx[d := k]) ` {..<ns ! d}"
    using reduced_cells [OF assms(1,2)] by simp
  have l: "length idx = length ns" using assms(1) valid_index_length by fastforce
  have inj: "inj_on (\<lambda>k. idx[d := k]) {..<ns ! d}"
  proof (rule inj_onI)
    fix x y assume "idx[d := x] = idx[d := y]"
    then have "idx[d := x] ! d = idx[d := y] ! d" by simp
    then show "x = y" using l assms(2) by simp
  qed
  have "sum_list (map (\<lambda>j. a_st ! position (strides atd) j) (filter ?P (indices ns))) =
        sum (\<lambda>j. a_st ! position (strides atd) j) (set (filter ?P (indices ns)))"
    by (intro sum_list_distinct_conv_sum_set distinct_filter distinct_indices)
  also have "\<dots> = (\<Sum>k<ns ! d. a_st ! position (strides atd) (idx[d := k]))"
    unfolding s using inj by (simp add: sum.reindex)
  finally show ?thesis
    using q reduce_storage_add_nth [of "position (strides_from_shape ?ms) idx"
        "replicate (prod_list ?ms) 0"
        "\<lparr>storage = A, shape = ?ms, strides = strides_from_shape ?ms\<rparr>"
        atd a_st] ns
    by simp
qed

text \<open>
  C8. For every well-formed tensor \<open>a\<close>: \<^verbatim>\<open>a.sum(dim)\<close> with a dimension \<open>dim\<close> of \<open>a\<close>
  succeeds; its result has the shape of \<open>a\<close> with dimension \<open>dim\<close> set to 1, and its
  element at every index is the sum of the elements of \<open>a\<close> along dimension \<open>dim\<close> at
  that index. \<^verbatim>\<open>a.sum()\<close> succeeds; its result has shape \<open>(1,)\<close> and its one element is
  the sum of all elements of \<open>a\<close>.
\<close>

theorem sum_reduces:
  assumes "wf_tensor s a"
  shows "(\<forall>d<Tensor_dims a. \<exists>r s'.
            Tensor_sum TensorOps a (Some d) s = (Inr r, s') \<and>
            Tensor_shape r = (Tensor_shape a)[d := 1] \<and>
            (\<forall>idx. valid_index (Tensor_shape r) idx \<longrightarrow>
               Tensor_getitem r idx s' =
                 (Inr (\<Sum>k<Tensor_shape a ! d. entry s a (idx[d := k])), s'))) \<and>
         (\<exists>r s'.
            Tensor_sum TensorOps a None s = (Inr r, s') \<and>
            Tensor_shape r = [1] \<and>
            Tensor_getitem r [0] s' =
              (Inr (sum_list (map (entry s a) (indices (Tensor_shape a)))), s'))"
proof (intro conjI allI impI)
  fix d assume d: "d < Tensor_dims a"
  let ?ns = "shape (tdata a)"
  let ?otd = "\<lparr>storage = next_addr s, shape = ?ns[d := 1],
               strides = strides_from_shape (?ns[d := 1])\<rparr>"
  have dl: "d < length ?ns" using d by (simp add: Tensor_dims_def)
  have ta: "tdata a = \<lparr>storage = storage (tdata a), shape = ?ns, strides = strides (tdata a)\<rparr>"
    by simp
  obtain r s' where r: "Tensor_sum TensorOps a (Some d) s = (Inr r, s')"
    and rt: "tdata r = ?otd"
    and h: "heap s' (next_addr s) =
              reduce_storage operators_add ?otd (tdata a) (heap s (storage (tdata a)))
                (replicate (prod_list (?ns[d := 1])) 0)"
    by (simp add: Tensor_sum_dim_apply [OF assms d])
  have "Tensor_getitem r idx s' =
          (Inr (\<Sum>k<Tensor_shape a ! d. entry s a (idx[d := k])), s')"
    if v: "valid_index (Tensor_shape r) idx" for idx
  proof -
    have v': "valid_index (?ns[d := 1]) idx" using v rt by (simp add: Tensor_shape_def)
    have lt: "position (strides_from_shape (?ns[d := 1])) idx < prod_list (?ns[d := 1])"
      using v' by (rule position_lt)
    have "heap s' (next_addr s) ! position (strides_from_shape (?ns[d := 1])) idx =
          (\<Sum>k<?ns ! d. heap s (storage (tdata a)) ! position (strides (tdata a)) (idx[d := k]))"
      unfolding h
      using sum_dim_value [OF v' dl, of "tdata a" "next_addr s" "heap s (storage (tdata a))"]
      by simp
    then show ?thesis
      using v' lt h
      by (simp add: Tensor_getitem_def TensorData_get_apply rt length_reduce_storage
          entry_def Tensor_shape_def)
  qed
  then show "\<exists>r s'.
            Tensor_sum TensorOps a (Some d) s = (Inr r, s') \<and>
            Tensor_shape r = (Tensor_shape a)[d := 1] \<and>
            (\<forall>idx. valid_index (Tensor_shape r) idx \<longrightarrow>
               Tensor_getitem r idx s' =
                 (Inr (\<Sum>k<Tensor_shape a ! d. entry s a (idx[d := k])), s'))"
    using r rt by (auto simp: Tensor_shape_def)
next
  let ?ns = "shape (tdata a)"
  obtain r s' where r: "Tensor_sum TensorOps a None s = (Inr r, s')"
    and rt: "tdata r = \<lparr>storage = next_addr s, shape = [1], strides = [1]\<rparr>"
    and h: "heap s' (next_addr s) =
              reduce_storage operators_add
                \<lparr>storage = next_addr s, shape = replicate (length ?ns) 1,
                  strides = replicate (length ?ns) 1\<rparr>
                (tdata a) (heap s (storage (tdata a))) [0]"
    by (simp add: Tensor_sum_all_apply [OF assms] Tensor_dims_def)
  have v: "heap s' (next_addr s) ! 0 =
           sum_list (map (entry s a) (indices (Tensor_shape a)))"
    unfolding h
    using sum_all_value [of "next_addr s" "tdata a" "heap s (storage (tdata a))"]
    by (simp add: entry_def [abs_def] Tensor_shape_def)
  have "length (heap s' (next_addr s)) = 1"
    unfolding h by (simp add: length_reduce_storage)
  then have "Tensor_getitem r [0] s' =
              (Inr (sum_list (map (entry s a) (indices (Tensor_shape a)))), s')"
    using v by (simp add: Tensor_getitem_def TensorData_get_apply rt)
  then show "\<exists>r s'.
            Tensor_sum TensorOps a None s = (Inr r, s') \<and>
            Tensor_shape r = [1] \<and>
            Tensor_getitem r [0] s' =
              (Inr (sum_list (map (entry s a) (indices (Tensor_shape a)))), s')"
    using r rt by (auto simp: Tensor_shape_def)
qed

lemma indices_2_3: "indices [2, 3] = [[0,0],[0,1],[0,2],[1,0],[1,1],[1,2]]"
  by (simp add: eval_nat_numeral)

lemma wf_six: "wf_tensor six_state six_tensor"
  by (simp add: wf_tensor_def six_tensor_def six_state_def eval_nat_numeral)

theorem sum_reduces_witness:
  "wf_tensor six_state six_tensor \<and>
   (\<exists>r s'. Tensor_sum TensorOps six_tensor (Some 1) six_state = (Inr r, s') \<and>
            Tensor_shape r = [2, 1] \<and> Tensor_getitem r [1, 0] s' = (Inr 15, s')) \<and>
   (\<exists>r s'. Tensor_sum TensorOps six_tensor None six_state = (Inr r, s') \<and>
            Tensor_shape r = [1] \<and> Tensor_getitem r [0] s' = (Inr 21, s'))"
proof -
  note t = sum_reduces [OF wf_six]
  have d: "1 < Tensor_dims six_tensor" by (simp add: Tensor_dims_def six_tensor_def)
  from t d obtain r s' where
    a: "Tensor_sum TensorOps six_tensor (Some 1) six_state = (Inr r, s')" and
    b: "Tensor_shape r = (Tensor_shape six_tensor)[1 := 1]" and
    c: "\<forall>idx. valid_index (Tensor_shape r) idx \<longrightarrow>
               Tensor_getitem r idx s' =
                 (Inr (\<Sum>k<Tensor_shape six_tensor ! 1. entry six_state six_tensor (idx[1 := k])), s')"
    by blast
  have b': "Tensor_shape r = [2, 1]"
    using b by (simp add: Tensor_shape_def six_tensor_def)
  have "valid_index (Tensor_shape r) [1, 0]" using b' by simp
  then have "Tensor_getitem r [1, 0] s' =
       (Inr (\<Sum>k<Tensor_shape six_tensor ! 1. entry six_state six_tensor ([1, 0][1 := k])), s')"
    using c by blast
  then have c': "Tensor_getitem r [1, 0] s' = (Inr 15, s')"
    by (simp add: Tensor_shape_def six_tensor_def entry_def six_state_def eval_nat_numeral)
  from t obtain r2 s2 where
    e: "Tensor_sum TensorOps six_tensor None six_state = (Inr r2, s2)" and
    f: "Tensor_shape r2 = [1]" and
    g: "Tensor_getitem r2 [0] s2 =
          (Inr (sum_list (map (entry six_state six_tensor) (indices (Tensor_shape six_tensor)))), s2)"
    by blast
  have g': "Tensor_getitem r2 [0] s2 = (Inr 21, s2)"
    using g by (simp add: Tensor_shape_def six_tensor_def entry_def six_state_def eval_nat_numeral)
  show ?thesis
    using wf_six a b' c' e f g' by blast
qed

section \<open>Gradients of constant tensors\<close>

lemma extends_refl [simp]: "extends s s"
  by (simp add: extends_def)

lemma extends_trans: "extends s s' \<Longrightarrow> extends s' s'' \<Longrightarrow> extends s s''"
  by (auto simp: extends_def)

lemma full_extends: "full s t ns c \<Longrightarrow> extends s s' \<Longrightarrow> full s' t ns c"
  by (auto simp: full_def extends_def)

lemma wf_tensor_extends: "wf_tensor s t \<Longrightarrow> extends s s' \<Longrightarrow> wf_tensor s' t"
  by (auto simp: wf_tensor_def extends_def)

lemma fold_update_prefix:
  "map p xs = [0..<length xs] \<Longrightarrow> length xs \<le> length st \<Longrightarrow>
   fold (\<lambda>x st. st[p x := g x]) xs st = map g xs @ drop (length xs) st"
proof (induction xs rule: rev_induct)
  case Nil
  then show ?case by simp
next
  case (snoc x xs)
  have p: "map p xs = [0..<length xs]" "p x = length xs"
    using snoc.prems(1) by (simp_all add: upt_Suc_append del: upt_Suc)
  have l: "length xs < length st" using snoc.prems(2) by simp
  have "fold (\<lambda>x st. st[p x := g x]) (xs @ [x]) st =
        (map g xs @ drop (length xs) st)[length xs := g x]"
    using snoc.IH p l by simp
  also have "\<dots> = map g xs @ (drop (length xs) st)[0 := g x]"
    by (simp add: list_update_append)
  also have "\<dots> = map g (xs @ [x]) @ drop (length (xs @ [x])) st"
    using l Cons_nth_drop_Suc [of "length xs" st, symmetric] by simp
  finally show ?case .
qed

lemma fold_update_all:
  "map p xs = [0..<length xs] \<Longrightarrow> length st = length xs \<Longrightarrow>
   fold (\<lambda>x st. st[p x := g x]) xs st = map g xs"
  using fold_update_prefix [of p xs st g] by simp

lemma map_storage_contiguous:
  assumes "strides out = strides_from_shape (shape out)"
      and "length out_st = prod_list (shape out)"
  shows "map_storage f out a a_st out_st =
         map (\<lambda>idx. f (a_st ! position (strides a) (broadcast_index idx (shape a))))
           (indices (shape out))"
  unfolding map_storage_def
  using assms by (intro fold_update_all) (simp_all add: map_position_indices length_indices)

lemma zip_storage_contiguous:
  assumes "strides out = strides_from_shape (shape out)"
      and "length out_st = prod_list (shape out)"
  shows "zip_storage f out a b a_st b_st out_st =
         map (\<lambda>idx. f (a_st ! position (strides a) (broadcast_index idx (shape a)))
                      (b_st ! position (strides b) (broadcast_index idx (shape b))))
           (indices (shape out))"
  unfolding zip_storage_def
  using assms by (intro fold_update_all) (simp_all add: map_position_indices length_indices)

lemma broadcast_index_id:
  "valid_index ns idx \<Longrightarrow> broadcast_index idx ns = idx"
proof -
  assume v: "valid_index ns idx"
  then have l: "length idx = length ns" by (rule valid_index_length)
  show ?thesis
    using v l
    by (auto simp: broadcast_index_same_rank valid_index_def list_all2_conv_all_nth
        intro!: nth_equalityI)
qed

lemma broadcast_aligned_same: "broadcast_aligned ns ns = Inr ns"
  by (induction ns) auto

lemma shape_broadcast_same: "shape_broadcast ns ns = Inr ns"
  by (simp add: shape_broadcast_def broadcast_aligned_same)

lemma TensorOps_zip_fresh:
  assumes "shape_broadcast (Tensor_shape a) (Tensor_shape b) = Inr ns"
      and "storage (tdata a) \<noteq> next_addr s" and "storage (tdata b) \<noteq> next_addr s"
      and "zip_in_bounds
             \<lparr>storage = next_addr s, shape = ns, strides = strides_from_shape ns\<rparr>
             (tdata a) (tdata b) (heap s (storage (tdata a))) (heap s (storage (tdata b)))
             (replicate (prod_list ns) 0)"
  shows "TensorOps_zip f a b None s =
     (Inr (Tensor (next_id s)
             \<lparr>storage = next_addr s, shape = ns, strides = strides_from_shape ns\<rparr>
             None False TensorFunctions),
      s\<lparr>heap := (heap s)(next_addr s :=
            zip_storage f
              \<lparr>storage = next_addr s, shape = ns, strides = strides_from_shape ns\<rparr>
              (tdata a) (tdata b) (heap s (storage (tdata a))) (heap s (storage (tdata b)))
              (replicate (prod_list ns) 0)),
        next_addr := Suc (next_addr s), next_id := Suc (next_id s)\<rparr>)"
  using assms
  by (simp add: TensorOps_zip_def monad_simps Tensor_zeros_apply Let_def)

lemma Tensor_add_apply:
  assumes "shape_broadcast (Tensor_shape a) (Tensor_shape b) = Inr ns"
      and "storage (tdata a) \<noteq> next_addr s" and "storage (tdata b) \<noteq> next_addr s"
      and "zip_in_bounds
             \<lparr>storage = next_addr s, shape = ns, strides = strides_from_shape ns\<rparr>
             (tdata a) (tdata b) (heap s (storage (tdata a))) (heap s (storage (tdata b)))
             (replicate (prod_list ns) 0)"
  shows "Tensor_add TensorOps a (Tens b) s =
     (Inr (Tensor (next_id s + 3)
             \<lparr>storage = next_addr s, shape = ns, strides = strides_from_shape ns\<rparr>
             (if requires_grad a \<or> requires_grad b
              then Some (Add, None, [ATensor a, ATensor b]) else None)
             (requires_grad a \<or> requires_grad b) TensorFunctions),
      s\<lparr>heap := (heap s)(next_addr s :=
            zip_storage operators_add
              \<lparr>storage = next_addr s, shape = ns, strides = strides_from_shape ns\<rparr>
              (tdata a) (tdata b) (heap s (storage (tdata a))) (heap s (storage (tdata b)))
              (replicate (prod_list ns) 0)),
        next_addr := Suc (next_addr s), next_id := next_id s + 4\<rparr>)"
proof -
  note z = TensorOps_zip_fresh [of "Tensor (next_id s) (tdata a) None False TensorFunctions"
      "Tensor (Suc (next_id s)) (tdata b) None False TensorFunctions" ns
      "s\<lparr>next_id := Suc (Suc (next_id s))\<rparr>" operators_add]
  show ?thesis
    using assms z
    by (simp add: Tensor_add_def FunctionBase_apply_def monad_simps get_data_apply add_zip_def
        Function_variable_def Function_data_def Tensor_init_def Tensor_shape_def)
qed

lemma zip_in_bounds_same:
  assumes "\<forall>idx. valid_index ns idx \<longrightarrow> position (strides a) idx < length a_st"
      and "\<forall>idx. valid_index ns idx \<longrightarrow> position (strides b) idx < length b_st"
      and "shape a = ns" "shape b = ns"
  shows "zip_in_bounds \<lparr>storage = A, shape = ns, strides = strides_from_shape ns\<rparr>
           a b a_st b_st (replicate (prod_list ns) 0)"
  using assms
  by (simp add: zip_in_bounds_def list_all_iff set_indices broadcast_index_id position_lt)

lemma full_in_bounds:
  "full s t ns c \<Longrightarrow> valid_index ns idx \<Longrightarrow>
   position (strides (tdata t)) idx < length (heap s (storage (tdata t)))"
  by (simp add: full_def position_lt)

lemma full_entry:
  "full s t ns c \<Longrightarrow> valid_index ns idx \<Longrightarrow>
   heap s (storage (tdata t)) ! position (strides (tdata t)) idx = c"
  by (simp add: full_def position_lt)

lemma map_const_replicate: "(\<forall>x\<in>set xs. g x = c) \<Longrightarrow> map g xs = replicate (length xs) c"
  by (induction xs) auto

lemma Tensor_add_full:
  assumes "full s a ns c1" and "full s b ns c2"
  shows "\<exists>r s'. Tensor_add TensorOps a (Tens b) s = (Inr r, s') \<and>
                full s' r ns (c1 + c2) \<and> extends s s' \<and> derivative s' = derivative s"
proof -
  let ?otd = "\<lparr>storage = next_addr s, shape = ns, strides = strides_from_shape ns\<rparr>"
  have sh: "shape (tdata a) = ns" "shape (tdata b) = ns"
    using assms by (simp_all add: full_def)
  have ne: "storage (tdata a) \<noteq> next_addr s" "storage (tdata b) \<noteq> next_addr s"
    using assms by (simp_all add: full_def)
  have ib: "zip_in_bounds ?otd (tdata a) (tdata b) (heap s (storage (tdata a)))
              (heap s (storage (tdata b))) (replicate (prod_list ns) 0)"
    using full_in_bounds [OF assms(1)] full_in_bounds [OF assms(2)] sh
    by (intro zip_in_bounds_same) simp_all
  have val: "zip_storage operators_add ?otd (tdata a) (tdata b) (heap s (storage (tdata a)))
              (heap s (storage (tdata b))) (replicate (prod_list ns) 0)
             = replicate (prod_list ns) (c1 + c2)"
  proof -
    have "zip_storage operators_add ?otd (tdata a) (tdata b) (heap s (storage (tdata a)))
              (heap s (storage (tdata b))) (replicate (prod_list ns) 0)
          = map (\<lambda>idx. operators_add
                   (heap s (storage (tdata a)) !
                      position (strides (tdata a)) (broadcast_index idx (shape (tdata a))))
                   (heap s (storage (tdata b)) !
                      position (strides (tdata b)) (broadcast_index idx (shape (tdata b)))))
              (indices ns)"
      using zip_storage_contiguous [of ?otd "replicate (prod_list ns) 0"] by simp
    also have "\<dots> = replicate (length (indices ns)) (c1 + c2)"
      using full_entry [OF assms(1)] full_entry [OF assms(2)] sh
      by (intro map_const_replicate)
         (simp add: set_indices broadcast_index_id operators_add_def)
    finally show ?thesis by (simp add: length_indices)
  qed
  show ?thesis
    using Tensor_add_apply [of a b ns s] sh ne ib val
    by (simp add: Tensor_shape_def shape_broadcast_same full_def extends_def)
qed

lemma zeros_full:
  "\<exists>z s'. zeros ns s = (Inr z, s') \<and> full s' z ns 0 \<and> extends s s' \<and>
           derivative s' = derivative s"
  by (simp add: zeros_apply full_def extends_def)

lemma broadcast_aligned_Nil2: "broadcast_aligned ms [] = Inr ms"
  by (cases ms) auto

lemma shape_broadcast_one:
  assumes "ns \<noteq> []" and "list_all (\<lambda>n. 1 \<le> n) ns"
  shows "shape_broadcast ns [1] = Inr ns" and "shape_broadcast [1] ns = Inr ns"
proof -
  obtain n ms where r: "rev ns = n # ms"
    using assms(1) by (cases "rev ns") auto
  have "n \<in> set ns" using r by (metis list.set_intros(1) set_rev)
  then have n: "1 \<le> n" using assms(2) by (simp add: list_all_iff)
  have ns: "ns = rev ms @ [n]" using r by (metis rev.simps(2) rev_rev_ident)
  show "shape_broadcast ns [1] = Inr ns"
    using n by (simp add: shape_broadcast_def r broadcast_aligned_Nil2 ns max_def)
  show "shape_broadcast [1] ns = Inr ns"
    using n by (simp add: shape_broadcast_def r ns max_def)
qed

lemma broadcast_index_to_one:
  "idx \<noteq> [] \<Longrightarrow> broadcast_index idx [Suc 0] = [0]"
proof -
  assume "idx \<noteq> []"
  then obtain i where "drop (length idx - 1) idx = [i]"
    by (metis append_butlast_last_id append_eq_conv_conj length_butlast)
  then show ?thesis by (simp add: broadcast_index_def)
qed

lemma TensorOps_map_out:
  assumes "shape_broadcast (shape (tdata a)) (shape (tdata out)) = Inr (shape (tdata out))"
      and "map_in_bounds (tdata out) (tdata a)
             (heap s (storage (tdata a))) (heap s (storage (tdata out)))"
  shows "TensorOps_map f a (Some out) s =
     (Inr out,
      s\<lparr>heap := (heap s)(storage (tdata out) :=
            map_storage f (tdata out) (tdata a)
              (heap s (storage (tdata a))) (heap s (storage (tdata out))))\<rparr>)"
  using assms by (simp add: TensorOps_map_def monad_simps Let_def)

lemma TensorOps_reduce_out:
  assumes "shape_broadcast (shape (tdata out)) (shape (tdata a)) = Inr (shape (tdata a))"
      and "reduce_in_bounds (tdata out) (tdata a)
             (heap s (storage (tdata a))) (heap s (storage (tdata out)))"
  shows "TensorOps_reduce f start a None (Some out) s =
     (Inr out,
      s\<lparr>heap := (heap s)(storage (tdata out) :=
            reduce_storage f (tdata out) (tdata a)
              (heap s (storage (tdata a))) (heap s (storage (tdata out))))\<rparr>)"
  using assms by (simp add: TensorOps_reduce_def monad_simps Let_def)

lemma valid_index_nonempty: "valid_index ns idx \<Longrightarrow> ns \<noteq> [] \<Longrightarrow> idx \<noteq> []"
  by (auto simp: valid_index_def)

lemma expand_by_map:
  assumes g: "full s g [1] c" and ne: "ns \<noteq> []" and pos: "list_all (\<lambda>n. 1 \<le> n) ns"
  shows "\<exists>buf s'. bindM (zeros ns) (\<lambda>buf. bindM (id_map TensorOps g (Some buf))
                      (\<lambda>_. returnM buf)) s = (Inr buf, s') \<and>
           full s' buf ns c \<and> extends s s' \<and> derivative s' = derivative s"
proof -
  let ?B = "next_addr s"
  let ?btd = "\<lparr>storage = ?B, shape = ns, strides = strides_from_shape ns\<rparr>"
  let ?buf = "Tensor (next_id s) ?btd None False TensorFunctions"
  let ?s1 = "s\<lparr>heap := (heap s)(?B := replicate (prod_list ns) 0),
               next_addr := Suc ?B, next_id := Suc (next_id s)\<rparr>"
  have gs: "shape (tdata g) = [1]" "strides (tdata g) = [1]" "storage (tdata g) < ?B"
    "heap s (storage (tdata g)) = [c]"
    using g by (simp_all add: full_def)
  have ib: "map_in_bounds ?btd (tdata g) (heap ?s1 (storage (tdata g))) (heap ?s1 ?B)"
    using gs ne
    by (auto simp: map_in_bounds_def list_all_iff set_indices position_lt
        broadcast_index_to_one valid_index_nonempty)
  have val: "map_storage operators_id ?btd (tdata g) [c] (replicate (prod_list ns) 0)
             = replicate (prod_list ns) c"
  proof -
    have "map_storage operators_id ?btd (tdata g) [c] (replicate (prod_list ns) 0)
          = map (\<lambda>idx. operators_id
                   ([c] ! position (strides (tdata g)) (broadcast_index idx (shape (tdata g)))))
              (indices ns)"
      using map_storage_contiguous [of ?btd "replicate (prod_list ns) 0"] by simp
    also have "\<dots> = replicate (length (indices ns)) c"
      using gs ne
      by (intro map_const_replicate)
         (auto simp: set_indices broadcast_index_to_one valid_index_nonempty operators_id_def)
    finally show ?thesis by (simp add: length_indices)
  qed
  have m: "id_map TensorOps g (Some ?buf) ?s1 =
        (Inr ?buf, ?s1\<lparr>heap := (heap ?s1)(?B :=
            map_storage operators_id ?btd (tdata g)
              (heap ?s1 (storage (tdata g))) (heap ?s1 ?B))\<rparr>)"
    unfolding id_map_def
    using TensorOps_map_out [of g ?buf ?s1 operators_id] ib gs
      shape_broadcast_one(2) [OF ne pos]
    by simp
  show ?thesis
    using m gs val
    by (simp add: monad_simps zeros_apply full_def extends_def)
qed

lemma bind_keep:
  "bindM m (\<lambda>x. bindM (n x) (\<lambda>_. k x)) s =
   bindM (bindM m (\<lambda>x. bindM (n x) (\<lambda>_. returnM x))) k s"
  by (simp add: bindM_def returnM_def split: prod.splits sum.splits)

lemma reduce_to_scalar:
  assumes "full s buf [1] c"
  shows "\<exists>buf2 s'. bindM (zeros []) (\<lambda>buf2. bindM (add_reduce TensorOps buf None (Some buf2))
                      (\<lambda>_. returnM buf2)) s = (Inr buf2, s') \<and>
           full s' buf2 [] c \<and> extends s s' \<and> derivative s' = derivative s"
proof -
  let ?B = "next_addr s"
  let ?btd = "\<lparr>storage = ?B, shape = [], strides = []\<rparr>"
  let ?buf2 = "Tensor (next_id s) ?btd None False TensorFunctions"
  let ?s1 = "s\<lparr>heap := (heap s)(?B := [0]), next_addr := Suc ?B, next_id := Suc (next_id s)\<rparr>"
  have bs: "shape (tdata buf) = [1]" "strides (tdata buf) = [1]" "storage (tdata buf) < ?B"
    "heap s (storage (tdata buf)) = [c]"
    using assms by (simp_all add: full_def)
  have r: "add_reduce TensorOps buf None (Some ?buf2) ?s1 =
        (Inr ?buf2, ?s1\<lparr>heap := (heap ?s1)(?B := [c])\<rparr>)"
    unfolding add_reduce_def
    using TensorOps_reduce_out [of ?buf2 buf ?s1 operators_add 0] bs
    by (simp add: shape_broadcast_def reduce_in_bounds_def reduce_storage_def
        broadcast_index_def operators_add_def)
  show ?thesis
    using r bs by (simp add: monad_simps zeros_apply full_def extends_def)
qed

lemma Tensor_expand_full:
  assumes g: "full s g [1] c" and pos: "list_all (\<lambda>n. 1 \<le> n) (Tensor_shape t)"
  shows "\<exists>d s'. Tensor_expand TensorOps t g s = (Inr d, s') \<and>
                full s' d (Tensor_shape t) c \<and> extends s s' \<and> derivative s' = derivative s"
proof -
  have gs: "Tensor_shape g = [1]" using g by (simp add: full_def Tensor_shape_def)
  consider (same) "Tensor_shape t = [1]" | (scalar) "Tensor_shape t = []"
    | (wide) "Tensor_shape t \<noteq> [1]" "Tensor_shape t \<noteq> []"
    by blast
  then show ?thesis
  proof cases
    case same
    then show ?thesis using g gs by (simp add: Tensor_expand_def returnM_apply)
  next
    case wide
    obtain buf s' where
      b: "bindM (zeros (Tensor_shape t)) (\<lambda>buf. bindM (id_map TensorOps g (Some buf))
            (\<lambda>_. returnM buf)) s = (Inr buf, s')"
      and f: "full s' buf (Tensor_shape t) c" "extends s s'" "derivative s' = derivative s"
      using expand_by_map [OF g wide(2) pos] by blast
    have "Tensor_expand TensorOps t g s = (Inr buf, s')"
      using wide gs b
      by (simp add: Tensor_expand_def shape_broadcast_one(1) [OF wide(2) pos, simplified]
          bindM_apply [of "liftE _"] liftE_apply)
    then show ?thesis using f by blast
  next
    case scalar
    obtain buf s1 where
      b: "bindM (zeros [1]) (\<lambda>buf. bindM (id_map TensorOps g (Some buf))
            (\<lambda>_. returnM buf)) s = (Inr buf, s1)"
      and f: "full s1 buf [1] c" "extends s s1" "derivative s1 = derivative s"
      using expand_by_map [OF g, of "[1]"] by auto
    obtain buf2 s' where
      b2: "bindM (zeros []) (\<lambda>buf2. bindM (add_reduce TensorOps buf None (Some buf2))
             (\<lambda>_. returnM buf2)) s1 = (Inr buf2, s')"
      and f2: "full s' buf2 [] c" "extends s1 s'" "derivative s' = derivative s1"
      using reduce_to_scalar [OF f(1)] by blast
    have "Tensor_expand TensorOps t g s =
          bindM (bindM (zeros [1]) (\<lambda>buf. bindM (id_map TensorOps g (Some buf))
                   (\<lambda>_. returnM buf)))
            (\<lambda>buf. bindM (zeros []) (\<lambda>buf2.
                    bindM (add_reduce TensorOps buf None (Some buf2)) (\<lambda>_. returnM buf2))) s"
      using scalar gs
      by (simp add: Tensor_expand_def shape_broadcast_def bindM_apply [of "liftE _"]
          liftE_apply bind_keep [symmetric])
    also have "\<dots> = (Inr buf2, s')"
      using b b2 by (simp add: bindM_apply [of "bindM _ _"])
    finally show ?thesis
      using f f2 scalar extends_trans by auto
  qed
qed

lemma full_getitem:
  "full s t ns c \<Longrightarrow> valid_index ns idx \<Longrightarrow> Tensor_getitem t idx s = (Inr c, s)"
  using position_lt [of ns idx]
  by (simp add: Tensor_getitem_def TensorData_get_apply full_def)

lemma full_shape: "full s t ns c \<Longrightarrow> Tensor_shape t = ns"
  by (simp add: full_def Tensor_shape_def)

lemma Tensor_zeros_full:
  "\<exists>z s'. Tensor_zeros v None s = (Inr z, s') \<and> full s' z (Tensor_shape v) 0 \<and>
           extends s s' \<and> derivative s' = derivative s"
  by (simp add: Tensor_zeros_def monad_simps zeros_apply set_tf_def full_def extends_def)

lemma accumulate_first:
  assumes "derivative s (unique_id v) = None" and "full s val (Tensor_shape v) c"
  shows "\<exists>d s'. accumulate_derivative TensorOps v val s = (Inr (), s') \<and>
                derivative s' = (derivative s)(unique_id v := Some d) \<and>
                full s' d (Tensor_shape v) c \<and> extends s s'"
proof -
  obtain z s1 where z: "Tensor_zeros v None s = (Inr z, s1)"
    and zf: "full s1 z (Tensor_shape v) 0" "extends s s1" "derivative s1 = derivative s"
    using Tensor_zeros_full by blast
  obtain d s2 where d: "Tensor_add TensorOps z (Tens val) s1 = (Inr d, s2)"
    and df: "full s2 d (Tensor_shape v) (0 + c)" "extends s1 s2" "derivative s2 = derivative s1"
    using Tensor_add_full [OF zf(1) full_extends [OF assms(2) zf(2)]] by blast
  have "accumulate_derivative TensorOps v val s =
          (Inr (), s2\<lparr>derivative := (derivative s2)(unique_id v := Some d)\<rparr>)"
    using assms(1) z d by (simp add: accumulate_derivative_def bindM_apply)
  moreover have "full (s2\<lparr>derivative := (derivative s2)(unique_id v := Some d)\<rparr>) d
                   (Tensor_shape v) c"
    using df(1) by (simp add: full_def)
  moreover have "extends s (s2\<lparr>derivative := (derivative s2)(unique_id v := Some d)\<rparr>)"
    using extends_trans [OF zf(2) df(2)] by (simp add: extends_def)
  ultimately show ?thesis using df(3) zf(3) by auto
qed

lemma accumulate_more:
  assumes "derivative s (unique_id v) = Some d0" and "full s d0 (Tensor_shape v) c0"
      and "full s val (Tensor_shape v) c"
  shows "\<exists>d s'. accumulate_derivative TensorOps v val s = (Inr (), s') \<and>
                derivative s' = (derivative s)(unique_id v := Some d) \<and>
                full s' d (Tensor_shape v) (c0 + c) \<and> extends s s'"
proof -
  obtain d s2 where d: "Tensor_add TensorOps d0 (Tens val) s = (Inr d, s2)"
    and df: "full s2 d (Tensor_shape v) (c0 + c)" "extends s s2" "derivative s2 = derivative s"
    using Tensor_add_full [OF assms(2,3)] by blast
  have "accumulate_derivative TensorOps v val s =
          (Inr (), s2\<lparr>derivative := (derivative s2)(unique_id v := Some d)\<rparr>)"
    using assms(1) d by (simp add: accumulate_derivative_def bindM_apply returnM_apply)
  moreover have "full (s2\<lparr>derivative := (derivative s2)(unique_id v := Some d)\<rparr>) d
                   (Tensor_shape v) (c0 + c)"
    using df(1) by (simp add: full_def)
  moreover have "extends s (s2\<lparr>derivative := (derivative s2)(unique_id v := Some d)\<rparr>)"
    using df(2) by (simp add: extends_def)
  ultimately show ?thesis using df(3) by auto
qed

lemma tensor_apply:
  "tensor ls None s =
     (Inr (Tensor (next_id s) \<lparr>storage = next_addr s, shape = [length ls],
                                strides = [1]\<rparr> None False TensorFunctions),
      s\<lparr>heap := (heap s)(next_addr s := ls), next_addr := Suc (next_addr s),
        next_id := Suc (next_id s)\<rparr>)"
  by (simp add: tensor_def monad_simps alloc_def Tensor_make_def TensorData_init_def
      Tensor_init_def operators_prod_def Let_def)

lemma tf_eq [simp]: "tf t = TensorFunctions"
  by (cases "tf t") simp

lemma Tensor_backward_scalar:
  "Tensor_shape self = [1] \<Longrightarrow> tback self = Some nd \<Longrightarrow>
   Tensor_backward TensorOps self None s =
     backpropagate TensorOps (topological_sort self)
       [(unique_id self,
         Tensor (next_id s) \<lparr>storage = next_addr s, shape = [1], strides = [1]\<rparr>
           None False TensorFunctions)]
       (s\<lparr>heap := (heap s)(next_addr s := [1]), next_addr := Suc (next_addr s),
          next_id := Suc (next_id s)\<rparr>)"
  by (simp add: Tensor_backward_def Variable_backward_def bindM_apply tensor_apply set_tf_def
      Tensor_shape_def)

lemma visit_leaf:
  "tback v = None \<Longrightarrow> requires_grad v \<Longrightarrow> unique_id v \<notin> set seen \<Longrightarrow>
   visit v (seen, order) = (unique_id v # seen, v # order)"
  by simp

lemma visit_seen:
  "unique_id v \<in> set seen \<Longrightarrow> visit v (seen, order) = (seen, order)"
  by simp

section \<open>Backward through a sum\<close>

lemma fresh_leaf_example: "fresh_leaf leaf_state leaf_tensor"
  by (simp add: fresh_leaf_def wf_tensor_def leaf_state_def leaf_tensor_def eval_nat_numeral)


text \<open>
  C2. For every \<open>n\<close> and every well-formed leaf \<open>x\<close> of shape \<open>(n,)\<close> that requires grad and
  has no gradient accumulated yet, whatever its entries (so also when all are \<open>v\<close>; the
  sizes of a well-formed tensor are at least 1): \<^verbatim>\<open>x.sum()\<close> succeeds, \<^verbatim>\<open>backward()\<close> on
  the sum succeeds, and afterwards the gradient of \<open>x\<close> has shape \<open>(n,)\<close> and is \<open>1.0\<close>
  at every position.
\<close>

theorem sum_backward_uniform:
  assumes "fresh_leaf s x" and "Tensor_shape x = [n]"
  shows "\<exists>l s1 s2 d.
           Tensor_sum TensorOps x None s = (Inr l, s1) \<and>
           Tensor_backward TensorOps l None s1 = (Inr (), s2) \<and>
           grad x s2 = Some d \<and> Tensor_shape d = [n] \<and>
           (\<forall>i<n. Tensor_getitem d [i] s2 = (Inr 1, s2))"
proof -
  have wf: "wf_tensor s x" and rg: "requires_grad x" and leaf: "tback x = None"
    and none: "derivative s (unique_id x) = None"
    using assms(1) by (simp_all add: fresh_leaf_def)
  have pos: "list_all (\<lambda>n. 1 \<le> n) (Tensor_shape x)"
    using wf by (simp add: wf_tensor_def Tensor_shape_def)
  let ?nd = "(Sum, Some (Tensor_shape x), [ATensor x, ANone])"
  obtain l s1 where l: "Tensor_sum TensorOps x None s = (Inr l, s1)"
    and lt: "Tensor_shape l = [1]" "tback l = Some ?nd" "requires_grad l"
            "unique_id l = next_id s + 5"
    and s1: "derivative s1 = derivative s"
    using rg by (simp add: Tensor_sum_all_apply [OF wf] Tensor_shape_def)
  let ?g = "Tensor (next_id s1) \<lparr>storage = next_addr s1, shape = [1], strides = [1]\<rparr>
              None False TensorFunctions"
  let ?s1g = "s1\<lparr>heap := (heap s1)(next_addr s1 := [1]), next_addr := Suc (next_addr s1),
                 next_id := Suc (next_id s1)\<rparr>"
  have g: "full ?s1g ?g [1] 1" by (simp add: full_def)
  have ul: "unique_id l \<noteq> unique_id x"
    using assms(1) lt(4) by (simp add: fresh_leaf_def)
  have topo: "topological_sort l = [l, x]"
    using lt(2,3) rg leaf ul by (simp add: topological_sort_def)
  obtain d s2 where d: "Tensor_expand TensorOps x ?g ?s1g = (Inr d, s2)"
    and df: "full s2 d (Tensor_shape x) 1" "derivative s2 = derivative ?s1g"
    using Tensor_expand_full [OF g pos] by blast
  have none2: "derivative s2 (unique_id x) = None"
    using df(2) s1 none by simp
  obtain d' s3 where a: "accumulate_derivative TensorOps x d s2 = (Inr (), s3)"
    and af: "derivative s3 = (derivative s2)(unique_id x := Some d')"
            "full s3 d' (Tensor_shape x) 1"
    using accumulate_first [OF none2 df(1)] by blast
  have "Tensor_backward TensorOps l None s1 = (Inr (), s3)"
    using lt rg leaf d a
    by (simp add: Tensor_backward_scalar [OF lt(1,2)] topo Sum_backward_def
        bindM_apply returnM_apply)
  moreover have "grad x s3 = Some d'" using af(1) by (simp add: grad_def)
  moreover have "Tensor_shape d' = [n]" using af(2) assms(2) by (simp add: full_shape)
  moreover have "\<forall>i<n. Tensor_getitem d' [i] s3 = (Inr 1, s3)"
    using af(2) assms(2) by (simp add: full_getitem)
  ultimately show ?thesis using l by blast
qed

theorem sum_backward_uniform_witness:
  "fresh_leaf leaf_state leaf_tensor \<and> Tensor_shape leaf_tensor = [3] \<and>
   (\<exists>l s1 s2 d.
      Tensor_sum TensorOps leaf_tensor None leaf_state = (Inr l, s1) \<and>
      Tensor_backward TensorOps l None s1 = (Inr (), s2) \<and>
      grad leaf_tensor s2 = Some d \<and> Tensor_shape d = [3] \<and>
      Tensor_getitem d [0] s2 = (Inr 1, s2) \<and>
      Tensor_getitem d [1] s2 = (Inr 1, s2) \<and>
      Tensor_getitem d [2] s2 = (Inr 1, s2))"
proof -
  have sh: "Tensor_shape leaf_tensor = [3]"
    by (simp add: Tensor_shape_def leaf_tensor_def)
  from sum_backward_uniform [OF fresh_leaf_example sh]
  obtain l s1 s2 d where
    a: "Tensor_sum TensorOps leaf_tensor None leaf_state = (Inr l, s1)"
       "Tensor_backward TensorOps l None s1 = (Inr (), s2)"
       "grad leaf_tensor s2 = Some d" "Tensor_shape d = [3]" and
    b: "\<forall>i<3. Tensor_getitem d [i] s2 = (Inr 1, s2)"
    by blast
  have "Tensor_getitem d [0] s2 = (Inr 1, s2)" "Tensor_getitem d [1] s2 = (Inr 1, s2)"
    "Tensor_getitem d [2] s2 = (Inr 1, s2)"
    using b by simp_all
  then show ?thesis using fresh_leaf_example sh a by blast
qed


section \<open>Backward through a repeated operand\<close>

lemma length_zip_storage:
  "length (zip_storage f out a b a_st b_st out_st) = length out_st"
  unfolding zip_storage_def by (rule length_fold_update)

lemma wf_tensor_contiguous:
  assumes "tdata t = \<lparr>storage = A, shape = ns, strides = strides_from_shape ns\<rparr>"
      and "A < next_addr s" and "length (heap s A) = prod_list ns"
      and "list_all (\<lambda>n. 1 \<le> n) ns"
  shows "wf_tensor s t"
  using assms
  by (simp add: wf_tensor_def length_strides_from_shape list_all_iff set_indices position_lt)

lemma Tensor_expand_same:
  "Tensor_shape t = Tensor_shape g \<Longrightarrow> Tensor_expand b t g s = (Inr g, s)"
  by (simp add: Tensor_expand_def returnM_apply)

text \<open>
  C1. For every well-formed leaf \<open>x\<close> that requires grad and has no gradient accumulated
  yet: \<^verbatim>\<open>y = x + x\<close> succeeds, \<^verbatim>\<open>y.sum()\<close> succeeds, \<^verbatim>\<open>backward()\<close> on the sum succeeds,
  and afterwards the gradient of \<open>x\<close> has the shape of \<open>x\<close> and is \<open>2.0\<close> at every
  position: the two uses of \<open>x\<close> are added into its gradient slot.
\<close>

theorem add_accumulates:
  assumes "fresh_leaf s x"
  shows "\<exists>y s1 l s2 s3 d.
           Tensor_add TensorOps x (Tens x) s = (Inr y, s1) \<and>
           Tensor_sum TensorOps y None s1 = (Inr l, s2) \<and>
           Tensor_backward TensorOps l None s2 = (Inr (), s3) \<and>
           grad x s3 = Some d \<and> Tensor_shape d = Tensor_shape x \<and>
           (\<forall>idx. valid_index (Tensor_shape x) idx \<longrightarrow>
                  Tensor_getitem d idx s3 = (Inr 2, s3))"
proof -
  let ?ns = "Tensor_shape x"
  have wf: "wf_tensor s x" and rg: "requires_grad x" and leaf: "tback x = None"
    and none: "derivative s (unique_id x) = None" and ux: "unique_id x < next_id s"
    using assms(1) by (simp_all add: fresh_leaf_def)
  have pos: "list_all (\<lambda>n. 1 \<le> n) ?ns"
    using wf by (simp add: wf_tensor_def Tensor_shape_def)
  have ne: "storage (tdata x) \<noteq> next_addr s"
    using wf by (simp add: wf_tensor_def)
  have ib: "\<forall>idx. valid_index ?ns idx \<longrightarrow>
              position (strides (tdata x)) idx < length (heap s (storage (tdata x)))"
    using wf by (simp add: wf_tensor_def list_all_iff set_indices Tensor_shape_def)
  let ?ytd = "\<lparr>storage = next_addr s, shape = ?ns, strides = strides_from_shape ?ns\<rparr>"
  have zb: "zip_in_bounds ?ytd (tdata x) (tdata x) (heap s (storage (tdata x)))
              (heap s (storage (tdata x))) (replicate (prod_list ?ns) 0)"
    using ib by (intro zip_in_bounds_same) (simp_all add: Tensor_shape_def)
  obtain y s1 where y: "Tensor_add TensorOps x (Tens x) s = (Inr y, s1)"
    and yt: "tdata y = ?ytd" "tback y = Some (Add, None, [ATensor x, ATensor x])"
            "requires_grad y" "unique_id y = next_id s + 3"
    and s1: "derivative s1 = derivative s" "next_id s1 = next_id s + 4"
            "next_addr s1 = Suc (next_addr s)"
            "length (heap s1 (next_addr s)) = prod_list ?ns"
    using rg Tensor_add_apply [OF shape_broadcast_same ne ne zb]
    by (simp add: length_zip_storage)
  have wfy: "wf_tensor s1 y"
    using yt(1) s1(3,4) pos by (intro wf_tensor_contiguous [of y "next_addr s" ?ns]) simp_all
  have ys: "Tensor_shape y = ?ns" using yt(1) by (simp add: Tensor_shape_def)
  let ?nd = "(Sum, Some (Tensor_shape y), [ATensor y, ANone])"
  obtain l s2 where l: "Tensor_sum TensorOps y None s1 = (Inr l, s2)"
    and lt: "Tensor_shape l = [1]" "tback l = Some ?nd" "requires_grad l"
            "unique_id l = next_id s1 + 5"
    and s2: "derivative s2 = derivative s1"
    using yt(3) by (simp add: Tensor_sum_all_apply [OF wfy] Tensor_shape_def)
  let ?g = "Tensor (next_id s2) \<lparr>storage = next_addr s2, shape = [1], strides = [1]\<rparr>
              None False TensorFunctions"
  let ?s2g = "s2\<lparr>heap := (heap s2)(next_addr s2 := [1]), next_addr := Suc (next_addr s2),
                 next_id := Suc (next_id s2)\<rparr>"
  have g: "full ?s2g ?g [1] 1" by (simp add: full_def)
  have ids: "unique_id y \<noteq> unique_id x" "unique_id l \<noteq> unique_id x"
            "unique_id l \<noteq> unique_id y"
    using ux yt(4) lt(4) s1(2) by simp_all
  have topo: "topological_sort l = [l, y, x]"
    using lt(2,3) yt(2,3) rg leaf ids by (simp add: topological_sort_def)
  obtain d s3 where d: "Tensor_expand TensorOps y ?g ?s2g = (Inr d, s3)"
    and df: "full s3 d ?ns 1" "derivative s3 = derivative ?s2g"
    using Tensor_expand_full [OF g, of y] pos ys by auto
  have dsh: "Tensor_shape x = Tensor_shape d" using df(1) by (simp add: full_shape)
  have none3: "derivative s3 (unique_id x) = None"
    using df(2) s2 s1(1) none by simp
  obtain d1 s4 where a1: "accumulate_derivative TensorOps x d s3 = (Inr (), s4)"
    and a1f: "derivative s4 = (derivative s3)(unique_id x := Some d1)"
             "full s4 d1 ?ns 1" "extends s3 s4"
    using accumulate_first [OF none3 df(1)] by blast
  have some4: "derivative s4 (unique_id x) = Some d1" using a1f(1) by simp
  obtain d2 s5 where a2: "accumulate_derivative TensorOps x d s4 = (Inr (), s5)"
    and a2f: "derivative s5 = (derivative s4)(unique_id x := Some d2)"
             "full s5 d2 ?ns (1 + 1)"
    using accumulate_more [OF some4 a1f(2) full_extends [OF df(1) a1f(3)]] by blast
  have "Tensor_backward TensorOps l None s2 = (Inr (), s5)"
    using lt yt rg leaf ids d a1 a2 Tensor_expand_same [OF dsh]
    by (simp add: Tensor_backward_scalar [OF lt(1,2)] topo Sum_backward_def Add_backward_def
        add_pending_def bindM_apply returnM_apply)
  moreover have "grad x s5 = Some d2" using a2f(1) by (simp add: grad_def)
  moreover have "Tensor_shape d2 = ?ns" using a2f(2) by (simp add: full_shape)
  moreover have "\<forall>idx. valid_index ?ns idx \<longrightarrow> Tensor_getitem d2 idx s5 = (Inr 2, s5)"
    using a2f(2) full_getitem [of s5 d2 ?ns "1 + 1"] by simp
  ultimately show ?thesis using y l by blast
qed

theorem add_accumulates_witness:
  "fresh_leaf leaf_state leaf_tensor \<and>
   (\<exists>y s1 l s2 s3 d.
      Tensor_add TensorOps leaf_tensor (Tens leaf_tensor) leaf_state = (Inr y, s1) \<and>
      Tensor_sum TensorOps y None s1 = (Inr l, s2) \<and>
      Tensor_backward TensorOps l None s2 = (Inr (), s3) \<and>
      grad leaf_tensor s3 = Some d \<and> Tensor_shape d = Tensor_shape leaf_tensor \<and>
      Tensor_getitem d [0] s3 = (Inr 2, s3) \<and>
      Tensor_getitem d [1] s3 = (Inr 2, s3) \<and>
      Tensor_getitem d [2] s3 = (Inr 2, s3))"
proof -
  from add_accumulates [OF fresh_leaf_example]
  obtain y s1 l s2 s3 d where
    a: "Tensor_add TensorOps leaf_tensor (Tens leaf_tensor) leaf_state = (Inr y, s1)"
       "Tensor_sum TensorOps y None s1 = (Inr l, s2)"
       "Tensor_backward TensorOps l None s2 = (Inr (), s3)"
       "grad leaf_tensor s3 = Some d" "Tensor_shape d = Tensor_shape leaf_tensor" and
    b: "\<forall>idx. valid_index (Tensor_shape leaf_tensor) idx \<longrightarrow>
              Tensor_getitem d idx s3 = (Inr 2, s3)"
    by blast
  have v: "valid_index (Tensor_shape leaf_tensor) [0]"
    "valid_index (Tensor_shape leaf_tensor) [1]" "valid_index (Tensor_shape leaf_tensor) [2]"
    by (simp_all add: Tensor_shape_def leaf_tensor_def)
  have "Tensor_getitem d [0] s3 = (Inr 2, s3)" "Tensor_getitem d [1] s3 = (Inr 2, s3)"
    "Tensor_getitem d [2] s3 = (Inr 2, s3)"
    using b v by blast+
  then show ?thesis using fresh_leaf_example a by blast
qed

section \<open>Central difference\<close>

lemma indices_nth_position:
  assumes "valid_index ns idx"
  shows "indices ns ! position (strides_from_shape ns) idx = idx"
proof -
  obtain k where k: "k < length (indices ns)" "indices ns ! k = idx"
    using assms by (metis in_set_conv_nth mem_Collect_eq set_indices)
  have "map (position (strides_from_shape ns)) (indices ns) ! k = [0..<prod_list ns] ! k"
    by (simp add: map_position_indices)
  then have "position (strides_from_shape ns) idx = k"
    using k by (simp add: length_indices)
  then show ?thesis using k by simp
qed

lemma map_indices_nth:
  "valid_index ns idx \<Longrightarrow> map g (indices ns) ! position (strides_from_shape ns) idx = g idx"
  using position_lt [of ns idx] by (simp add: length_indices indices_nth_position)

lemma entry_extends:
  "extends s s' \<Longrightarrow> storage (tdata t) < next_addr s \<Longrightarrow> entry s' t idx = entry s t idx"
  by (simp add: entry_def extends_def)

lemma wf_entry_extends:
  "extends s s' \<Longrightarrow> wf_tensor s t \<Longrightarrow> entry s' t = entry s t"
  by (rule ext) (simp add: entry_extends wf_tensor_def)

lemma wf_in_bounds:
  "wf_tensor s t \<Longrightarrow> valid_index (shape (tdata t)) idx \<Longrightarrow>
   position (strides (tdata t)) idx < length (heap s (storage (tdata t)))"
  by (simp add: wf_tensor_def list_all_iff set_indices)

lemma Tensor_add_entries:
  assumes "wf_tensor s a" and "wf_tensor s b"
      and "Tensor_shape a = ns" and "Tensor_shape b = ns"
  shows "\<exists>r s'. Tensor_add TensorOps a (Tens b) s = (Inr r, s') \<and>
                wf_tensor s' r \<and> Tensor_shape r = ns \<and>
                (\<forall>idx. valid_index ns idx \<longrightarrow> entry s' r idx = entry s a idx + entry s b idx) \<and>
                extends s s' \<and> derivative s' = derivative s \<and> is_contiguous (tdata r)"
proof -
  let ?otd = "\<lparr>storage = next_addr s, shape = ns, strides = strides_from_shape ns\<rparr>"
  let ?st = "zip_storage operators_add ?otd (tdata a) (tdata b) (heap s (storage (tdata a)))
              (heap s (storage (tdata b))) (replicate (prod_list ns) 0)"
  have sh: "shape (tdata a) = ns" "shape (tdata b) = ns"
    using assms(3,4) by (simp_all add: Tensor_shape_def)
  have pos: "list_all (\<lambda>n. 1 \<le> n) ns"
    using assms(1) sh by (simp add: wf_tensor_def)
  have ne: "storage (tdata a) \<noteq> next_addr s" "storage (tdata b) \<noteq> next_addr s"
    using assms(1,2) by (simp_all add: wf_tensor_def)
  have ib: "zip_in_bounds ?otd (tdata a) (tdata b) (heap s (storage (tdata a)))
              (heap s (storage (tdata b))) (replicate (prod_list ns) 0)"
    using wf_in_bounds [OF assms(1)] wf_in_bounds [OF assms(2)] sh
    by (intro zip_in_bounds_same) simp_all
  note eq = Tensor_add_apply [of a b ns s, unfolded Tensor_shape_def sh,
      OF shape_broadcast_same ne ib]
  define r where "r = Tensor (next_id s + 3) ?otd
      (if requires_grad a \<or> requires_grad b
       then Some (Add, None, [ATensor a, ATensor b]) else None)
      (requires_grad a \<or> requires_grad b) TensorFunctions"
  define s' where "s' = s\<lparr>heap := (heap s)(next_addr s := ?st),
      next_addr := Suc (next_addr s), next_id := next_id s + 4\<rparr>"
  have r: "Tensor_add TensorOps a (Tens b) s = (Inr r, s')"
    unfolding r_def s'_def by (rule eq)
  have rt: "tdata r = ?otd" by (simp add: r_def)
  have s': "heap s' = (heap s)(next_addr s := ?st)" "next_addr s' = Suc (next_addr s)"
    "next_id s' = next_id s + 4" "derivative s' = derivative s"
    by (simp_all add: s'_def)
  have st: "?st = map (\<lambda>idx. entry s a idx + entry s b idx) (indices ns)"
    using zip_storage_contiguous [of ?otd "replicate (prod_list ns) 0" operators_add
        "tdata a" "tdata b"] sh
    by (simp add: entry_def operators_add_def set_indices broadcast_index_id cong: map_cong)
  have wf: "wf_tensor s' r"
    using rt s' pos by (intro wf_tensor_contiguous [of r "next_addr s" ns])
      (simp_all add: length_zip_storage)
  have en: "\<forall>idx. valid_index ns idx \<longrightarrow> entry s' r idx = entry s a idx + entry s b idx"
    using rt s'(1) st by (simp add: entry_def map_indices_nth)
  have ex: "extends s s'" using s' by (simp add: extends_def)
  show ?thesis using r wf rt en ex s'(4) by (simp add: Tensor_shape_def is_contiguous_def)
qed

lemma length_map_storage:
  "length (map_storage f out a a_st out_st) = length out_st"
  unfolding map_storage_def by (rule length_fold_update)

lemma TensorOps_map_fresh:
  assumes "storage (tdata a) \<noteq> next_addr s"
      and "map_in_bounds
             \<lparr>storage = next_addr s, shape = shape (tdata a),
               strides = strides_from_shape (shape (tdata a))\<rparr>
             (tdata a) (heap s (storage (tdata a)))
             (replicate (prod_list (shape (tdata a))) 0)"
  shows "TensorOps_map f a None s =
     (Inr (Tensor (next_id s)
             \<lparr>storage = next_addr s, shape = shape (tdata a),
               strides = strides_from_shape (shape (tdata a))\<rparr>
             None False TensorFunctions),
      s\<lparr>heap := (heap s)(next_addr s :=
            map_storage f
              \<lparr>storage = next_addr s, shape = shape (tdata a),
                strides = strides_from_shape (shape (tdata a))\<rparr>
              (tdata a) (heap s (storage (tdata a)))
              (replicate (prod_list (shape (tdata a))) 0)),
        next_addr := Suc (next_addr s), next_id := Suc (next_id s)\<rparr>)"
  using assms
  by (simp add: TensorOps_map_def monad_simps Tensor_zeros_apply Let_def Tensor_shape_def
      shape_broadcast_same)

lemma Tensor_neg_entries:
  assumes "wf_tensor s a"
  shows "\<exists>r s'. Tensor_neg TensorOps a s = (Inr r, s') \<and>
                wf_tensor s' r \<and> Tensor_shape r = Tensor_shape a \<and>
                (\<forall>idx. valid_index (Tensor_shape a) idx \<longrightarrow> entry s' r idx = - entry s a idx) \<and>
                extends s s' \<and> derivative s' = derivative s"
proof -
  let ?ns = "shape (tdata a)"
  let ?otd = "\<lparr>storage = next_addr s, shape = ?ns, strides = strides_from_shape ?ns\<rparr>"
  let ?st = "map_storage operators_neg ?otd (tdata a) (heap s (storage (tdata a)))
               (replicate (prod_list ?ns) 0)"
  have pos: "list_all (\<lambda>n. 1 \<le> n) ?ns"
    using assms by (simp add: wf_tensor_def)
  have ne: "storage (tdata a) \<noteq> next_addr s"
    using assms by (simp add: wf_tensor_def)
  have ib: "map_in_bounds ?otd (tdata a) (heap s (storage (tdata a)))
              (replicate (prod_list ?ns) 0)"
    using wf_in_bounds [OF assms]
    by (simp add: map_in_bounds_def list_all_iff set_indices broadcast_index_id position_lt)
  note m = TensorOps_map_fresh [of "Tensor (next_id s) (tdata a) None False TensorFunctions"
      "s\<lparr>next_id := Suc (next_id s)\<rparr>" operators_neg]
  define r where "r = Tensor (next_id s + 2) ?otd
      (if requires_grad a then Some (Neg, None, [ATensor a]) else None)
      (requires_grad a) TensorFunctions"
  define s' where "s' = s\<lparr>heap := (heap s)(next_addr s := ?st),
      next_addr := Suc (next_addr s), next_id := next_id s + 3\<rparr>"
  have r: "Tensor_neg TensorOps a s = (Inr r, s')"
    unfolding r_def s'_def
    using m ne ib
    by (simp add: Tensor_neg_def FunctionBase_apply_def monad_simps get_data_apply neg_map_def
        Function_variable_def Function_data_def Tensor_init_def)
  have rt: "tdata r = ?otd" by (simp add: r_def)
  have s': "heap s' = (heap s)(next_addr s := ?st)" "next_addr s' = Suc (next_addr s)"
    "derivative s' = derivative s" "next_id s \<le> next_id s'"
    by (simp_all add: s'_def)
  have st: "?st = map (\<lambda>idx. - entry s a idx) (indices ?ns)"
    using map_storage_contiguous [of ?otd "replicate (prod_list ?ns) 0" operators_neg "tdata a"]
    by (simp add: entry_def operators_neg_def set_indices broadcast_index_id cong: map_cong)
  have wf: "wf_tensor s' r"
    using rt s' pos by (intro wf_tensor_contiguous [of r "next_addr s" ?ns])
      (simp_all add: length_map_storage)
  have en: "\<forall>idx. valid_index ?ns idx \<longrightarrow> entry s' r idx = - entry s a idx"
    using rt s'(1) st by (simp add: entry_def map_indices_nth)
  have ex: "extends s s'" using s' by (simp add: extends_def)
  show ?thesis using r wf rt en ex s'(3) by (auto simp: Tensor_shape_def)
qed

lemma Tensor_add_Tens:
  "Tensor_add b a (Tens t) = FunctionBase_apply (Add_forward b) Add [ATensor a, ATensor t]"
  by (rule ext) (simp add: Tensor_add_def bindM_apply returnM_apply)

lemma Tensor_sub_entries:
  assumes "wf_tensor s a" and "wf_tensor s b"
      and "Tensor_shape a = ns" and "Tensor_shape b = ns"
  shows "\<exists>r s'. Tensor_sub TensorOps a (Tens b) s = (Inr r, s') \<and>
                wf_tensor s' r \<and> Tensor_shape r = ns \<and>
                (\<forall>idx. valid_index ns idx \<longrightarrow> entry s' r idx = entry s a idx - entry s b idx) \<and>
                extends s s' \<and> derivative s' = derivative s \<and> is_contiguous (tdata r)"
proof -
  obtain n s1 where n: "Tensor_neg TensorOps b s = (Inr n, s1)"
    and nf: "wf_tensor s1 n" "Tensor_shape n = ns"
            "\<forall>idx. valid_index ns idx \<longrightarrow> entry s1 n idx = - entry s b idx"
            "extends s s1" "derivative s1 = derivative s"
    using Tensor_neg_entries [OF assms(2)] assms(4) by auto
  have wa: "wf_tensor s1 a" using assms(1) nf(4) by (rule wf_tensor_extends)
  obtain r s' where r: "Tensor_add TensorOps a (Tens n) s1 = (Inr r, s')"
    and rf: "wf_tensor s' r" "Tensor_shape r = ns"
            "\<forall>idx. valid_index ns idx \<longrightarrow> entry s' r idx = entry s1 a idx + entry s1 n idx"
            "extends s1 s'" "derivative s' = derivative s1" "is_contiguous (tdata r)"
    using Tensor_add_entries [OF wa nf(1) assms(3) nf(2)] by blast
  have "Tensor_sub TensorOps a (Tens b) s = (Inr r, s')"
    using n r [unfolded Tensor_add_Tens]
    by (simp add: Tensor_sub_def bindM_apply returnM_apply)
  moreover have "\<forall>idx. valid_index ns idx \<longrightarrow> entry s' r idx = entry s a idx - entry s b idx"
    using rf(3) nf(3) wf_entry_extends [OF nf(4) assms(1)] by simp
  ultimately show ?thesis
    using rf nf extends_trans by auto
qed

lemma mapM_keep:
  "\<forall>p\<in>set ps. fst p \<noteq> a \<Longrightarrow>
   mapM (\<lambda>(j, x). if j \<noteq> a then returnM x else m x) ps s = (Inr (map snd ps), s)"
  by (induction ps) (auto simp: monad_simps)

lemma mapM_replace:
  assumes "m (vals ! i) s = (Inr r, s')" and "i < length vals"
  shows "mapM (\<lambda>(j, x). if j \<noteq> k + i then returnM x else m x) (enumerate k vals) s =
           (Inr (vals[i := r]), s')"
  using assms
proof (induction vals arbitrary: i k)
  case Nil
  then show ?case by simp
next
  case (Cons v vals)
  show ?case
  proof (cases i)
    case 0
    have "\<forall>p\<in>set (enumerate (Suc k) vals). fst p \<noteq> k"
      by (auto simp: in_set_enumerate_eq)
    then have "mapM (\<lambda>(j, x). if j \<noteq> k then returnM x else m x) (enumerate (Suc k) vals) s' =
               (Inr vals, s')"
      using mapM_keep [of "enumerate (Suc k) vals" k m s'] by simp
    then show ?thesis using Cons.prems 0 by (simp add: monad_simps)
  next
    case (Suc i')
    have "mapM (\<lambda>(j, x). if j \<noteq> Suc k + i' then returnM x else m x)
            (enumerate (Suc k) vals) s = (Inr (vals[i' := r]), s')"
      using Cons.IH [of i' "Suc k"] Cons.prems Suc by simp
    then show ?thesis using Suc by (simp add: monad_simps)
  qed
qed

lemma wf_getitem:
  "wf_tensor s t \<Longrightarrow> valid_index (Tensor_shape t) idx \<Longrightarrow>
   Tensor_getitem t idx s = (Inr (entry s t idx), s)"
  by (simp add: Tensor_getitem_def TensorData_get_apply wf_in_bounds entry_def Tensor_shape_def)

lemma singleton_list: "length xs = 1 \<Longrightarrow> xs = [xs ! 0]"
  by (cases xs) auto

lemma Tensor_sum_total:
  assumes "wf_tensor s a"
  shows "\<exists>l s'. Tensor_sum TensorOps a None s = (Inr l, s') \<and> full s' l [1] (total s a) \<and>
                extends s s' \<and> derivative s' = derivative s"
proof -
  let ?st = "reduce_storage operators_add
                \<lparr>storage = next_addr s, shape = replicate (Tensor_dims a) 1,
                  strides = replicate (Tensor_dims a) 1\<rparr>
                (tdata a) (heap s (storage (tdata a))) [0]"
  have v: "?st ! 0 = total s a"
    using sum_all_value [of "next_addr s" "tdata a" "heap s (storage (tdata a))"]
    by (simp add: total_def entry_def [abs_def] Tensor_shape_def Tensor_dims_def)
  have "length ?st = 1" by (simp add: length_reduce_storage)
  then have "?st = [total s a]" using v singleton_list by fastforce
  then show ?thesis
    by (simp add: Tensor_sum_all_apply [OF assms] full_def extends_def)
qed

lemma full_wf: "full s t ns c \<Longrightarrow> list_all (\<lambda>n. 1 \<le> n) ns \<Longrightarrow> wf_tensor s t"
  by (rule wf_tensor_contiguous [of t "storage (tdata t)" ns]) (simp_all add: full_def)

lemma full_entry': "full s t ns c \<Longrightarrow> valid_index ns idx \<Longrightarrow> entry s t idx = c"
  by (simp add: entry_def full_entry)

lemma make_up:
  assumes "valid_index ns ind" and "list_all (\<lambda>n. 1 \<le> n) ns"
  shows "\<exists>up s0 s'. zeros ns s = (Inr up, s0) \<and> Tensor_setitem up ind eps s0 = (Inr (), s') \<and>
           wf_tensor s' up \<and> Tensor_shape up = ns \<and>
           (\<forall>idx. valid_index ns idx \<longrightarrow> entry s' up idx = (if idx = ind then eps else 0)) \<and>
           extends s s' \<and> derivative s' = derivative s"
proof -
  let ?td = "\<lparr>storage = next_addr s, shape = ns, strides = strides_from_shape ns\<rparr>"
  define up where "up = Tensor (next_id s) ?td None False TensorFunctions"
  define s0 where "s0 = s\<lparr>heap := (heap s)(next_addr s := replicate (prod_list ns) 0),
      next_addr := Suc (next_addr s), next_id := Suc (next_id s)\<rparr>"
  define s' where "s' = s0\<lparr>heap := (heap s0)(next_addr s :=
      (replicate (prod_list ns) 0)[position (strides_from_shape ns) ind := eps])\<rparr>"
  have z: "zeros ns s = (Inr up, s0)" by (simp add: zeros_apply up_def s0_def)
  have lt: "position (strides_from_shape ns) ind < prod_list ns"
    using assms(1) by (rule position_lt)
  have st: "Tensor_setitem up ind eps s0 = (Inr (), s')"
    using assms(1) lt
    by (simp add: Tensor_setitem_def TensorData_set_apply up_def s0_def s'_def)
  have wf: "wf_tensor s' up"
    using assms(2)
    by (intro wf_tensor_contiguous [of up "next_addr s" ns]) (simp_all add: up_def s'_def s0_def)
  have en: "\<forall>idx. valid_index ns idx \<longrightarrow> entry s' up idx = (if idx = ind then eps else 0)"
  proof (intro allI impI)
    fix idx assume v: "valid_index ns idx"
    have "position (strides_from_shape ns) ind = position (strides_from_shape ns) idx
          \<longleftrightarrow> idx = ind"
      using position_inj [OF v assms(1)] by auto
    then show "entry s' up idx = (if idx = ind then eps else 0)"
      using position_lt [OF v] lt
      by (simp add: entry_def up_def s'_def s0_def nth_list_update)
  qed
  have "extends s s'" "derivative s' = derivative s" "Tensor_shape up = ns"
    by (simp_all add: extends_def s'_def s0_def up_def Tensor_shape_def)
  then show ?thesis using z st wf en by blast
qed

lemma list_all_wf_extends:
  "list_all (wf_tensor s) vs \<Longrightarrow> extends s s' \<Longrightarrow> list_all (wf_tensor s') vs"
  by (auto simp: list_all_iff intro: wf_tensor_extends)

lemma list_all_update:
  "list_all P xs \<Longrightarrow> P y \<Longrightarrow> list_all P (xs[i := y])"
  using set_update_subset_insert [of xs i y] by (auto simp: list_all_iff)

text \<open>
  C7. For all well-formed inputs \<open>vals\<close>, position \<open>arg\<close> among them, valid index \<open>ind\<close>
  of the \<open>arg\<close>-th input \<open>x\<close>, \<open>epsilon\<close> other than 0 (the default \<open>1e-6\<close> is one) and
  every \<open>f\<close> that is a forward function on inputs like \<open>vals\<close> (the same inputs, but for
  a contiguous tensor of the shape of \<open>x\<close> in its place; \<open>f\<close> may take a fixed number of
  arguments and depend on their shapes): \<^verbatim>\<open>central_difference\<close> calls \<open>f\<close> on the inputs with \<open>x\<close>
  replaced by a tensor \<open>x+e\<close>, then on the inputs with \<open>x\<close> replaced by a tensor \<open>x-e\<close>,
  where \<open>x+e\<close> and \<open>x-e\<close> have the shape of \<open>x\<close> and its elements, except at \<open>ind\<close>, where
  \<open>epsilon\<close> is added and subtracted; the other inputs are the same tensors and no
  storage of the starting state has changed when \<open>f\<close> is called. It returns the sum of
  all elements of the first result minus that of the second, divided by
  \<open>2 * epsilon\<close>.
\<close>

theorem central_difference_value:
  assumes f: "forward_function_near f s vals arg"
      and vals: "list_all (wf_tensor s) vals"
      and arg: "arg < length vals"
      and ind: "valid_index (Tensor_shape (vals ! arg)) ind"
      and eps: "epsilon \<noteq> 0"
  shows "\<exists>xp xm s1 r1 s2 s3 r2 s4 s'.
           Tensor_shape xp = Tensor_shape (vals ! arg) \<and>
           Tensor_shape xm = Tensor_shape (vals ! arg) \<and>
           (\<forall>idx. valid_index (Tensor_shape (vals ! arg)) idx \<longrightarrow>
              entry s1 xp idx = entry s (vals ! arg) idx + (if idx = ind then epsilon else 0) \<and>
              entry s3 xm idx = entry s (vals ! arg) idx - (if idx = ind then epsilon else 0)) \<and>
           extends s s1 \<and> extends s s3 \<and>
           f (vals[arg := xp]) s1 = (Inr r1, s2) \<and>
           f (vals[arg := xm]) s3 = (Inr r2, s4) \<and>
           central_difference TensorOps f vals arg epsilon ind s =
             (Inr ((total s2 r1 - total s4 r2) / (2 * epsilon)), s')"
proof -
  let ?x = "vals ! arg"
  let ?ns = "Tensor_shape ?x"
  have wfx: "wf_tensor s ?x" using vals arg by (simp add: list_all_length)
  have pos: "list_all (\<lambda>n. 1 \<le> n) ?ns"
    using wfx by (simp add: wf_tensor_def Tensor_shape_def)
  obtain up s0 sa where z: "zeros ?ns s = (Inr up, s0)"
    and st: "Tensor_setitem up ind epsilon s0 = (Inr (), sa)"
    and upf: "wf_tensor sa up" "Tensor_shape up = ?ns"
             "\<forall>idx. valid_index ?ns idx \<longrightarrow> entry sa up idx = (if idx = ind then epsilon else 0)"
             "extends s sa"
    using make_up [OF ind pos] by blast
  have wfxa: "wf_tensor sa ?x" using wfx upf(4) by (rule wf_tensor_extends)
  obtain xp sb where xp: "Tensor_add TensorOps ?x (Tens up) sa = (Inr xp, sb)"
    and xpf: "wf_tensor sb xp" "Tensor_shape xp = ?ns"
             "\<forall>idx. valid_index ?ns idx \<longrightarrow> entry sb xp idx = entry sa ?x idx + entry sa up idx"
             "extends sa sb" "is_contiguous (tdata xp)"
    using Tensor_add_entries [OF wfxa upf(1) refl upf(2)] by blast
  have v1: "mapM (\<lambda>(j, x). if j \<noteq> arg then returnM x else Tensor_add TensorOps x (Tens up))
              (enumerate 0 vals) sa = (Inr (vals[arg := xp]), sb)"
    using mapM_replace [of "\<lambda>x. Tensor_add TensorOps x (Tens up)" vals arg sa xp sb 0] xp arg
    by simp
  have wfxb: "wf_tensor sb ?x" using wfxa xpf(4) by (rule wf_tensor_extends)
  have wfub: "wf_tensor sb up" using upf(1) xpf(4) by (rule wf_tensor_extends)
  obtain xm s1 where xm: "Tensor_sub TensorOps ?x (Tens up) sb = (Inr xm, s1)"
    and xmf: "wf_tensor s1 xm" "Tensor_shape xm = ?ns"
             "\<forall>idx. valid_index ?ns idx \<longrightarrow> entry s1 xm idx = entry sb ?x idx - entry sb up idx"
             "extends sb s1" "is_contiguous (tdata xm)"
    using Tensor_sub_entries [OF wfxb wfub refl upf(2)] by blast
  have v2: "mapM (\<lambda>(j, x). if j \<noteq> arg then returnM x else Tensor_sub TensorOps x (Tens up))
              (enumerate 0 vals) sb = (Inr (vals[arg := xm]), s1)"
    using mapM_replace [of "\<lambda>x. Tensor_sub TensorOps x (Tens up)" vals arg sb xm s1 0] xm arg
    by simp
  have e1: "extends s s1"
    using upf(4) xpf(4) xmf(4) extends_trans by blast
  have wf1: "list_all (wf_tensor s1) (vals[arg := xp])"
    using list_all_wf_extends [OF vals e1] wf_tensor_extends [OF xpf(1) xmf(4)]
    by (rule list_all_update)
  have near: "\<And>x' t. extends s t \<Longrightarrow> list_all (wf_tensor t) (vals[arg := x']) \<Longrightarrow>
      Tensor_shape x' = ?ns \<Longrightarrow> is_contiguous (tdata x') \<Longrightarrow>
      \<exists>r t'. f (vals[arg := x']) t = (Inr r, t') \<and> wf_tensor t' r \<and> extends t t'"
  proof -
    fix x' t
    assume h: "extends s t" "list_all (wf_tensor t) (vals[arg := x'])"
      "Tensor_shape x' = ?ns" "is_contiguous (tdata x')"
    have "length (vals[arg := x']) = length vals" by simp
    moreover have "\<forall>j<length vals. j \<noteq> arg \<longrightarrow> vals[arg := x'] ! j = vals ! j" by simp
    moreover have "vals[arg := x'] ! arg = x'" using arg by simp
    ultimately show "\<exists>r t'. f (vals[arg := x']) t = (Inr r, t') \<and> wf_tensor t' r \<and> extends t t'"
      using f h unfolding forward_function_near_def by metis
  qed
  obtain r1 s2 where r1: "f (vals[arg := xp]) s1 = (Inr r1, s2)"
    and r1f: "wf_tensor s2 r1" "extends s1 s2"
    using near [OF e1 wf1 xpf(2) xpf(5)] by blast
  obtain l1 s3 where l1: "Tensor_sum TensorOps r1 None s2 = (Inr l1, s3)"
    and l1f: "full s3 l1 [1] (total s2 r1)" "extends s2 s3"
    using Tensor_sum_total [OF r1f(1)] by blast
  have e3: "extends s1 s3" using r1f(2) l1f(2) by (rule extends_trans)
  have wf3: "list_all (wf_tensor s3) (vals[arg := xm])"
    using list_all_wf_extends [OF vals extends_trans [OF e1 e3]]
      wf_tensor_extends [OF xmf(1) e3]
    by (rule list_all_update)
  obtain r2 s4 where r2: "f (vals[arg := xm]) s3 = (Inr r2, s4)"
    and r2f: "wf_tensor s4 r2" "extends s3 s4"
    using near [OF extends_trans [OF e1 e3] wf3 xmf(2) xmf(5)] by blast
  obtain l2 s5 where l2: "Tensor_sum TensorOps r2 None s4 = (Inr l2, s5)"
    and l2f: "full s5 l2 [1] (total s4 r2)" "extends s4 s5"
    using Tensor_sum_total [OF r2f(1)] by blast
  have l1f5: "full s5 l1 [1] (total s2 r1)"
    using l1f(1) extends_trans [OF r2f(2) l2f(2)] by (rule full_extends)
  have one: "list_all (\<lambda>n. 1 \<le> n) [1::nat]" by simp
  obtain delta s6 where dl: "Tensor_sub TensorOps l1 (Tens l2) s5 = (Inr delta, s6)"
    and dlf: "wf_tensor s6 delta" "Tensor_shape delta = [1]"
             "\<forall>idx. valid_index [1] idx \<longrightarrow> entry s6 delta idx = entry s5 l1 idx - entry s5 l2 idx"
    using Tensor_sub_entries [OF full_wf [OF l1f5 one] full_wf [OF l2f(1) one]
        full_shape [OF l1f5] full_shape [OF l2f(1)]]
    by blast
  have "entry s6 delta [0] = total s2 r1 - total s4 r2"
    using dlf(3) full_entry' [OF l1f5, of "[0]"] full_entry' [OF l2f(1), of "[0]"] by simp
  then have g: "Tensor_getitem delta [0] s6 = (Inr (total s2 r1 - total s4 r2), s6)"
    using wf_getitem [OF dlf(1), of "[0]"] dlf(2) by simp
  have cd: "central_difference TensorOps f vals arg epsilon ind s =
          (Inr ((total s2 r1 - total s4 r2) / (2 * epsilon)), s6)"
    using arg eps z st v1 v2 r1 l1 r2 l2 dl g
    by (simp add: central_difference_def Let_def bindM_apply returnM_apply)
  have en: "\<forall>idx. valid_index ?ns idx \<longrightarrow>
              entry s1 xp idx = entry s ?x idx + (if idx = ind then epsilon else 0) \<and>
              entry s3 xm idx = entry s ?x idx - (if idx = ind then epsilon else 0)"
  proof (intro allI impI)
    fix idx assume v: "valid_index ?ns idx"
    have a: "entry sb xp idx = entry s ?x idx + (if idx = ind then epsilon else 0)"
      using xpf(3) upf(3) v wf_entry_extends [OF upf(4) wfx] by simp
    have b: "entry s1 xm idx = entry s ?x idx - (if idx = ind then epsilon else 0)"
      using xmf(3) upf(3) v wf_entry_extends [OF upf(4) wfx] wf_entry_extends [OF xpf(4) wfxa]
        wf_entry_extends [OF xpf(4) upf(1)] by simp
    show "entry s1 xp idx = entry s ?x idx + (if idx = ind then epsilon else 0) \<and>
          entry s3 xm idx = entry s ?x idx - (if idx = ind then epsilon else 0)"
      using a b wf_entry_extends [OF xmf(4) xpf(1)] wf_entry_extends [OF e3 xmf(1)] by simp
  qed
  show ?thesis
    using xpf(2) xmf(2) en e1 extends_trans [OF e1 e3] r1 r2 cd by blast
qed

lemma add2_fn_near:
  assumes "Tensor_shape a = Tensor_shape c" and "arg < 2"
  shows "forward_function_near add2_fn s [a, c] arg"
  unfolding forward_function_near_def
proof (intro allI impI)
  fix vs s'
  assume h: "extends s s' \<and> list_all (wf_tensor s') vs \<and> length vs = length [a, c] \<and>
      (\<forall>j<length [a, c]. j \<noteq> arg \<longrightarrow> vs ! j = [a, c] ! j) \<and>
      Tensor_shape (vs ! arg) = Tensor_shape ([a, c] ! arg) \<and> is_contiguous (tdata (vs ! arg))"
  then have "length vs = 2" by simp
  then obtain x y where vs: "vs = [x, y]"
    by (metis (no_types) length_0_conv length_Suc_conv numeral_2_eq_2)
  have wf: "wf_tensor s' x" "wf_tensor s' y" using h vs by simp_all
  have "arg = 0 \<or> arg = 1" using assms(2) by arith
  then have sh: "Tensor_shape y = Tensor_shape x"
  proof
    assume "arg = 0"
    then have "Tensor_shape x = Tensor_shape a" "y = c" using h vs by auto
    then show ?thesis using assms(1) by simp
  next
    assume "arg = 1"
    then have "Tensor_shape y = Tensor_shape c" "x = a" using h vs by auto
    then show ?thesis using assms(1) by simp
  qed
  show "\<exists>r s''. add2_fn vs s' = (Inr r, s'') \<and> wf_tensor s'' r \<and> extends s' s''"
    using Tensor_add_entries [OF wf refl sh] vs by (auto simp: add2_fn_def)
qed

lemma wf_pair:
  "wf_tensor pair_state leaf_tensor" "wf_tensor pair_state second_tensor"
  by (simp_all add: wf_tensor_def pair_state_def leaf_tensor_def second_tensor_def
      eval_nat_numeral)

theorem central_difference_value_witness:
  "forward_function_near add2_fn pair_state [leaf_tensor, second_tensor] 1 \<and>
   list_all (wf_tensor pair_state) [leaf_tensor, second_tensor] \<and>
   1 < length [leaf_tensor, second_tensor] \<and>
   valid_index (Tensor_shape ([leaf_tensor, second_tensor] ! 1)) [2] \<and>
   (1 / 1000000 :: real) \<noteq> 0 \<and>
   (\<exists>xp xm s1 r1 s2 s3 r2 s4 s'.
      add2_fn [leaf_tensor, xp] s1 = (Inr r1, s2) \<and>
      add2_fn [leaf_tensor, xm] s3 = (Inr r2, s4) \<and>
      entry s1 xp [2] = 3 + 1 / 1000000 \<and> entry s1 xp [0] = 1 \<and>
      entry s3 xm [2] = 3 - 1 / 1000000 \<and> entry s3 xm [1] = 2 \<and>
      central_difference TensorOps add2_fn [leaf_tensor, second_tensor] 1 (1 / 1000000) [2]
          pair_state =
        (Inr ((total s2 r1 - total s4 r2) / (2 * (1 / 1000000))), s'))"
proof -
  have h1: "forward_function_near add2_fn pair_state [leaf_tensor, second_tensor] 1"
    by (rule add2_fn_near) (simp_all add: Tensor_shape_def leaf_tensor_def second_tensor_def)
  have h2: "list_all (wf_tensor pair_state) [leaf_tensor, second_tensor]"
    using wf_pair by simp
  have h3: "1 < length [leaf_tensor, second_tensor]" by simp
  have h4: "valid_index (Tensor_shape ([leaf_tensor, second_tensor] ! 1)) [2]"
    by (simp add: Tensor_shape_def second_tensor_def)
  have h5: "(1 / 1000000 :: real) \<noteq> 0" by simp
  from central_difference_value [OF h1 h2 h3 h4 h5]
  obtain xp xm s1 r1 s2 s3 r2 s4 s' where
    en: "\<forall>idx. valid_index (Tensor_shape ([leaf_tensor, second_tensor] ! 1)) idx \<longrightarrow>
              entry s1 xp idx = entry pair_state ([leaf_tensor, second_tensor] ! 1) idx +
                                  (if idx = [2] then 1 / 1000000 else 0) \<and>
              entry s3 xm idx = entry pair_state ([leaf_tensor, second_tensor] ! 1) idx -
                                  (if idx = [2] then 1 / 1000000 else 0)" and
    r: "add2_fn ([leaf_tensor, second_tensor][1 := xp]) s1 = (Inr r1, s2)"
       "add2_fn ([leaf_tensor, second_tensor][1 := xm]) s3 = (Inr r2, s4)"
       "central_difference TensorOps add2_fn [leaf_tensor, second_tensor] 1 (1 / 1000000) [2]
            pair_state =
          (Inr ((total s2 r1 - total s4 r2) / (2 * (1 / 1000000))), s')"
    by blast
  have v: "valid_index (Tensor_shape ([leaf_tensor, second_tensor] ! 1)) [0]"
    "valid_index (Tensor_shape ([leaf_tensor, second_tensor] ! 1)) [1]"
    "valid_index (Tensor_shape ([leaf_tensor, second_tensor] ! 1)) [2]"
    by (simp_all add: Tensor_shape_def second_tensor_def)
  have e: "entry pair_state ([leaf_tensor, second_tensor] ! 1) [0] = 1"
    "entry pair_state ([leaf_tensor, second_tensor] ! 1) [1] = 2"
    "entry pair_state ([leaf_tensor, second_tensor] ! 1) [2] = 3"
    by (simp_all add: entry_def second_tensor_def pair_state_def)
  have n: "entry s1 xp [2] = 3 + 1 / 1000000" "entry s1 xp [0] = 1"
    "entry s3 xm [2] = 3 - 1 / 1000000" "entry s3 xm [1] = 2"
    using en v e by simp_all
  have r': "add2_fn [leaf_tensor, xp] s1 = (Inr r1, s2)"
    "add2_fn [leaf_tensor, xm] s3 = (Inr r2, s4)"
    using r(1,2) by simp_all
  show ?thesis
    using h1 h2 h3 h4 h5 r' n r(3) by blast
qed

section \<open>Swapping the backend\<close>

lemma same_outcome_refl [simp]: "same_outcome p p"
  by (simp add: same_outcome_def same_tensor_def split: sum.splits)

lemma same_forward_refl [simp]: "same_forward p p"
  by (simp add: same_forward_def same_tensor_def split: sum.splits prod.splits)

lemma same_forward_bind:
  "same_outcome (m1 s) (m2 s') \<Longrightarrow>
   same_forward (bindM m1 (\<lambda>r. returnM (c, r)) s) (bindM m2 (\<lambda>r. returnM (c, r)) s')"
  by (auto simp: same_outcome_def same_forward_def bindM_apply returnM_apply
      split: sum.splits prod.splits)

lemma Tensor_view_unfold:
  "Tensor_view b a shp s =
     (if \<not> is_contiguous (tdata a)
      then (Inl (AssertionError ''Must be contiguous to view''), s\<lparr>next_id := Suc (next_id s)\<rparr>)
      else if length (heap s (storage (tdata a))) \<noteq> operators_prod shp
      then (Inl ShapeMismatch, s\<lparr>next_id := Suc (next_id s)\<rparr>)
      else (Inr (Tensor (next_id s + 2)
             \<lparr>storage = storage (tdata a), shape = shp, strides = strides_from_shape shp\<rparr>
             (if requires_grad a
              then Some (View, Some (Tensor_shape a), [ATensor a, ATuple shp]) else None)
             (requires_grad a) TensorFunctions),
            s\<lparr>next_id := next_id s + 3\<rparr>))"
  by (simp add: Tensor_view_def FunctionBase_apply_def monad_simps get_data_apply
      Tensor_make_def TensorData_init_def Tensor_init_def length_strides_from_shape
      Function_variable_def Function_data_def set_tf_def Tensor_shape_def)

lemma Tensor_view_same:
  "same_tensor s1 r1 s2 r2 \<Longrightarrow>
   same_outcome (Tensor_view b r1 shp s1) (Tensor_view b' r2 shp s2)"
  by (simp add: Tensor_view_unfold same_outcome_def same_tensor_def is_contiguous_def)

lemma same_forward_sum_all:
  assumes "same_outcome (m1 s) (m2 s)"
  shows "same_forward
           (bindM m1 (\<lambda>r. bindM (Tensor_view b r [1]) (\<lambda>v. returnM (c, v))) s)
           (bindM m2 (\<lambda>r. bindM (Tensor_view b' r [1]) (\<lambda>v. returnM (c, v))) s)"
proof (cases "m1 s")
  case (Pair x1 s1)
  obtain x2 s2 where m2: "m2 s = (x2, s2)" by (cases "m2 s")
  show ?thesis
  proof (cases x1)
    case (Inl e)
    then show ?thesis
      using assms Pair m2
      by (auto simp: same_outcome_def same_forward_def bindM_apply split: sum.splits)
  next
    case (Inr r1)
    then obtain r2 where x2: "x2 = Inr r2" and st: "same_tensor s1 r1 s2 r2"
      using assms Pair m2 by (auto simp: same_outcome_def split: sum.splits)
    have "same_forward (bindM (Tensor_view b r1 [1]) (\<lambda>v. returnM (c, v)) s1)
            (bindM (Tensor_view b' r2 [1]) (\<lambda>v. returnM (c, v)) s2)"
      using Tensor_view_same [OF st] by (rule same_forward_bind)
    then show ?thesis
      using Pair m2 Inr x2 by (simp add: bindM_apply [of m1] bindM_apply [of m2])
  qed
qed

lemma Mul_forward_any: "Mul_forward b args = Mul_forward b' args"
  by (cases "(b, args)" rule: Mul_forward.cases) simp_all

lemma unary_stub_forward_any: "unary_stub_forward b args = unary_stub_forward b' args"
  by (cases "(b, args)" rule: unary_stub_forward.cases) simp_all

lemma Permute_forward_any: "Permute_forward b args = Permute_forward b' args"
  by (cases "(b, args)" rule: Permute_forward.cases) simp_all

lemma View_forward_any: "View_forward b args = View_forward b' args"
  by (cases "(b, args)" rule: View_forward.cases) simp_all

lemma same_forward_raise [simp]: "same_forward (raiseM e s) (raiseM e s')"
  by (simp add: same_forward_def raiseM_apply)

lemma Neg_forward_same:
  assumes "honors_contract b" and "list_all (arg_wf s) args"
  shows "same_forward (Neg_forward b args s) (Neg_forward TensorOps args s)"
proof (cases "(b, args)" rule: Neg_forward.cases)
  case (1 b' t1)
  then have "wf_tensor s t1" using assms(2) by simp
  then have "same_outcome (map_fn b operators_neg t1 None s)
               (map_fn TensorOps operators_neg t1 None s)"
    using assms(1) unfolding honors_contract_def by blast
  then show ?thesis using 1 by (simp add: neg_map_def same_forward_bind)
qed simp_all

lemma Copy_forward_same:
  assumes "honors_contract b" and "list_all (arg_wf s) args"
  shows "same_forward (Copy_forward b args s) (Copy_forward TensorOps args s)"
proof (cases "(b, args)" rule: Copy_forward.cases)
  case (1 b' t1)
  then have "wf_tensor s t1" using assms(2) by simp
  then have "same_outcome (map_fn b operators_id t1 None s)
               (map_fn TensorOps operators_id t1 None s)"
    using assms(1) unfolding honors_contract_def by blast
  then show ?thesis using 1 by (simp add: id_map_def same_forward_bind)
qed simp_all

lemma Add_forward_same:
  assumes "honors_contract b" and "list_all (arg_wf s) args"
  shows "same_forward (Add_forward b args s) (Add_forward TensorOps args s)"
proof (cases "(b, args)" rule: Add_forward.cases)
  case (1 b' t1 t2)
  then have "wf_tensor s t1" "wf_tensor s t2" using assms(2) by simp_all
  then have "same_outcome (zip_fn b operators_add t1 t2 None s)
               (zip_fn TensorOps operators_add t1 t2 None s)"
    using assms(1) unfolding honors_contract_def by blast
  then show ?thesis using 1 by (simp add: add_zip_def same_forward_bind)
qed simp_all

lemma Sum_forward_same:
  assumes "honors_contract b" and "list_all (arg_wf s) args"
  shows "same_forward (Sum_forward b args s) (Sum_forward TensorOps args s)"
proof (cases "(b, args)" rule: Sum_forward.cases)
  case (1 b' a d)
  then have "wf_tensor s a" using assms(2) by simp
  then have "same_outcome (reduce_fn b operators_add a (Some [d]) None s)
               (reduce_fn TensorOps operators_add a (Some [d]) None s)"
    using assms(1) unfolding honors_contract_def by blast
  then show ?thesis using 1 by (simp add: add_reduce_def same_forward_bind)
next
  case (2 b' a)
  then have "wf_tensor s a" using assms(2) by simp
  then have "same_outcome (reduce_fn b operators_add a (Some [0..<Tensor_dims a]) None s)
               (reduce_fn TensorOps operators_add a (Some [0..<Tensor_dims a]) None s)"
    using assms(1) unfolding honors_contract_def by blast
  then show ?thesis
    using 2 same_forward_sum_all [of "reduce_fn b operators_add a (Some [0..<Tensor_dims a]) None"
        s "reduce_fn TensorOps operators_add a (Some [0..<Tensor_dims a]) None" b
        "Some (Tensor_shape a)" TensorOps]
    by (simp add: add_reduce_def)
qed simp_all

lemma forward_of_same:
  assumes "honors_contract b" and "list_all (arg_wf s) args"
  shows "same_forward (forward_of b cls args s) (forward_of TensorOps cls args s)"
proof (cases cls)
  case Neg
  then show ?thesis using Neg_forward_same [OF assms] by simp
next
  case Add
  then show ?thesis using Add_forward_same [OF assms] by simp
next
  case Sum
  then show ?thesis using Sum_forward_same [OF assms] by simp
next
  case Copy
  then show ?thesis using Copy_forward_same [OF assms] by simp
next
  case Permute
  then show ?thesis by (simp add: Permute_forward_any [of b args TensorOps])
next
  case View
  then show ?thesis by (simp add: View_forward_any [of b args TensorOps])
qed (simp_all add: Mul_forward_any [of b args TensorOps]
      unary_stub_forward_any [of b args TensorOps])

lemma wf_tensor_next_id [simp]: "wf_tensor (s\<lparr>next_id := n\<rparr>) t = wf_tensor s t"
  by (simp add: wf_tensor_def)

lemma arg_wf_next_id [simp]: "arg_wf (s\<lparr>next_id := n\<rparr>) a = arg_wf s a"
  by (cases a) simp_all

lemma raw_args_wf:
  "list_all (arg_wf s) vals \<Longrightarrow>
   \<exists>raws k. mapM raw_arg vals s = (Inr raws, s\<lparr>next_id := next_id s + k\<rparr>) \<and>
            list_all (arg_wf s) raws"
proof (induction vals arbitrary: s)
  case Nil
  have "mapM raw_arg [] s = (Inr [], s\<lparr>next_id := next_id s + 0\<rparr>)"
    by (simp add: returnM_apply)
  moreover have "list_all (arg_wf s) []" by simp
  ultimately show ?case by blast
next
  case (Cons v vals)
  obtain v' j where v: "raw_arg v s = (Inr v', s\<lparr>next_id := next_id s + j\<rparr>)"
    and v'wf: "arg_wf s v'"
  proof (cases v)
    case (ATensor t)
    have "raw_arg v s = (Inr (ATensor (Tensor (next_id s) (tdata t) None False TensorFunctions)),
            s\<lparr>next_id := next_id s + 1\<rparr>)"
      using ATensor by (simp add: monad_simps get_data_apply)
    moreover have "arg_wf s (ATensor (Tensor (next_id s) (tdata t) None False TensorFunctions))"
      using Cons.prems ATensor by (simp add: wf_tensor_def)
    ultimately show ?thesis using that by blast
  next
    case (AInt n)
    have "raw_arg v s = (Inr v, s\<lparr>next_id := next_id s + 0\<rparr>)"
      using AInt by (simp add: returnM_apply)
    moreover have "arg_wf s v" using AInt by simp
    ultimately show ?thesis using that by blast
  next
    case ANone
    have "raw_arg v s = (Inr v, s\<lparr>next_id := next_id s + 0\<rparr>)"
      using ANone by (simp add: returnM_apply)
    moreover have "arg_wf s v" using ANone by simp
    ultimately show ?thesis using that by blast
  next
    case (ATuple ns)
    have "raw_arg v s = (Inr v, s\<lparr>next_id := next_id s + 0\<rparr>)"
      using ATuple by (simp add: returnM_apply)
    moreover have "arg_wf s v" using ATuple by simp
    ultimately show ?thesis using that by blast
  qed
  let ?s1 = "s\<lparr>next_id := next_id s + j\<rparr>"
  have "list_all (arg_wf ?s1) vals" using Cons.prems by (simp add: list_all_iff)
  then obtain raws k where r: "mapM raw_arg vals ?s1 = (Inr raws, ?s1\<lparr>next_id := next_id ?s1 + k\<rparr>)"
    and rwf: "list_all (arg_wf ?s1) raws"
    using Cons.IH [of ?s1] by blast
  have "mapM raw_arg (v # vals) s = (Inr (v' # raws), s\<lparr>next_id := next_id s + (j + k)\<rparr>)"
    using v r by (simp add: monad_simps add.assoc)
  moreover have "list_all (arg_wf s) (v' # raws)"
    using v'wf rwf by (simp add: list_all_iff)
  ultimately show ?case by blast
qed

lemma same_outcome_wrap:
  assumes "same_forward (m1 s) (m2 s)"
  shows "same_outcome
           (bindM m1 (\<lambda>(saved, c). Function_variable (Function_data c) (bk saved)) s)
           (bindM m2 (\<lambda>(saved, c). Function_variable (Function_data c) (bk saved)) s)"
  using assms
  by (auto simp: same_forward_def same_outcome_def same_tensor_def bindM_apply
      Function_variable_def Function_data_def Tensor_init_def split: sum.splits prod.splits)

text \<open>
  C4. Swapping the backend changes no numeric output: for every operation of the
  catalog and all well-formed arguments, the forward function and the whole
  application of the operation, run with a backend that honors the map/zip/reduce
  contract, have the same outcome as with the sequential backend. Both raise the same
  error or both return tensors with the same shape, the same strides and the same
  numbers.
\<close>

theorem backend_swap:
  assumes "honors_contract b" and "list_all (arg_wf s) args"
  shows "same_forward (forward_of b cls args s) (forward_of TensorOps cls args s) \<and>
         same_outcome (FunctionBase_apply (forward_of b cls) cls args s)
                      (FunctionBase_apply (forward_of TensorOps cls) cls args s)"
proof
  show "same_forward (forward_of b cls args s) (forward_of TensorOps cls args s)"
    using assms by (rule forward_of_same)
next
  obtain raws k where r: "mapM raw_arg args s = (Inr raws, s\<lparr>next_id := next_id s + k\<rparr>)"
    and rwf: "list_all (arg_wf s) raws"
    using raw_args_wf [OF assms(2)] by blast
  let ?s1 = "s\<lparr>next_id := next_id s + k\<rparr>"
  have "list_all (arg_wf ?s1) raws" using rwf by (simp add: list_all_iff)
  then have "same_forward (forward_of b cls raws ?s1) (forward_of TensorOps cls raws ?s1)"
    using assms(1) by (intro forward_of_same)
  then have "same_outcome
      (bindM (forward_of b cls raws)
         (\<lambda>(saved, c). Function_variable (Function_data c)
            (if list_ex arg_requires_grad args then Some (cls, saved, args) else None)) ?s1)
      (bindM (forward_of TensorOps cls raws)
         (\<lambda>(saved, c). Function_variable (Function_data c)
            (if list_ex arg_requires_grad args then Some (cls, saved, args) else None)) ?s1)"
    by (rule same_outcome_wrap)
  then show "same_outcome (FunctionBase_apply (forward_of b cls) cls args s)
                      (FunctionBase_apply (forward_of TensorOps cls) cls args s)"
    using r by (simp add: FunctionBase_apply_def bindM_apply [of "mapM raw_arg args"])
qed

lemma TensorOps_map_unfold:
  assumes "storage (tdata a) \<noteq> next_addr s"
  shows "TensorOps_map f a None s =
     (if \<not> map_in_bounds
             \<lparr>storage = next_addr s, shape = shape (tdata a),
               strides = strides_from_shape (shape (tdata a))\<rparr>
             (tdata a) (heap s (storage (tdata a)))
             (replicate (prod_list (shape (tdata a))) 0)
      then (Inl IndexError,
            s\<lparr>heap := (heap s)(next_addr s := replicate (prod_list (shape (tdata a))) 0),
              next_addr := Suc (next_addr s), next_id := Suc (next_id s)\<rparr>)
      else (Inr (Tensor (next_id s)
             \<lparr>storage = next_addr s, shape = shape (tdata a),
               strides = strides_from_shape (shape (tdata a))\<rparr>
             None False TensorFunctions),
      s\<lparr>heap := (heap s)(next_addr s :=
            map_storage f
              \<lparr>storage = next_addr s, shape = shape (tdata a),
                strides = strides_from_shape (shape (tdata a))\<rparr>
              (tdata a) (heap s (storage (tdata a)))
              (replicate (prod_list (shape (tdata a))) 0)),
        next_addr := Suc (next_addr s), next_id := Suc (next_id s)\<rparr>))"
  using assms
  by (simp add: TensorOps_map_def monad_simps Tensor_zeros_apply Let_def Tensor_shape_def
      shape_broadcast_same)

lemma TensorOps_zip_unfold:
  assumes "storage (tdata a) \<noteq> next_addr s" and "storage (tdata c) \<noteq> next_addr s"
  shows "TensorOps_zip f a c None s =
     (case shape_broadcast (shape (tdata a)) (shape (tdata c)) of
        Inl e \<Rightarrow> (Inl e, s)
      | Inr ns \<Rightarrow>
         (if \<not> zip_in_bounds
                 \<lparr>storage = next_addr s, shape = ns, strides = strides_from_shape ns\<rparr>
                 (tdata a) (tdata c) (heap s (storage (tdata a))) (heap s (storage (tdata c)))
                 (replicate (prod_list ns) 0)
          then (Inl IndexError,
                s\<lparr>heap := (heap s)(next_addr s := replicate (prod_list ns) 0),
                  next_addr := Suc (next_addr s), next_id := Suc (next_id s)\<rparr>)
          else (Inr (Tensor (next_id s)
                  \<lparr>storage = next_addr s, shape = ns, strides = strides_from_shape ns\<rparr>
                  None False TensorFunctions),
                s\<lparr>heap := (heap s)(next_addr s :=
                     zip_storage f
                       \<lparr>storage = next_addr s, shape = ns, strides = strides_from_shape ns\<rparr>
                       (tdata a) (tdata c) (heap s (storage (tdata a)))
                       (heap s (storage (tdata c))) (replicate (prod_list ns) 0)),
                  next_addr := Suc (next_addr s), next_id := Suc (next_id s)\<rparr>)))"
  using assms
  by (simp add: TensorOps_zip_def monad_simps Tensor_zeros_apply Let_def Tensor_shape_def
      split: sum.splits)

lemma TensorOps_reduce_unfold:
  assumes "storage (tdata a) \<noteq> next_addr s"
  shows "TensorOps_reduce f start a (Some ds) None s =
     (case reduce_shape (shape (tdata a)) ds of
        Inl e \<Rightarrow> (Inl e, s)
      | Inr ns \<Rightarrow>
         (if shape_broadcast ns (shape (tdata a)) \<noteq> Inr (shape (tdata a))
          then (Inl ShapeMismatch,
                s\<lparr>heap := (heap s)(next_addr s := replicate (prod_list ns) start),
                  next_addr := Suc (next_addr s), next_id := Suc (next_id s)\<rparr>)
          else if \<not> reduce_in_bounds
                 \<lparr>storage = next_addr s, shape = ns, strides = strides_from_shape ns\<rparr>
                 (tdata a) (heap s (storage (tdata a))) (replicate (prod_list ns) start)
          then (Inl IndexError,
                s\<lparr>heap := (heap s)(next_addr s := replicate (prod_list ns) start),
                  next_addr := Suc (next_addr s), next_id := Suc (next_id s)\<rparr>)
          else (Inr (Tensor (next_id s)
                  \<lparr>storage = next_addr s, shape = ns, strides = strides_from_shape ns\<rparr>
                  None False TensorFunctions),
                s\<lparr>heap := (heap s)(next_addr s :=
                     reduce_storage f
                       \<lparr>storage = next_addr s, shape = ns, strides = strides_from_shape ns\<rparr>
                       (tdata a) (heap s (storage (tdata a)))
                       (replicate (prod_list ns) start)),
                  next_addr := Suc (next_addr s), next_id := Suc (next_id s)\<rparr>)))"
  using assms
  by (simp add: TensorOps_reduce_def monad_simps Tensor_zeros_apply fill_def Let_def
      Tensor_shape_def split: sum.splits)

lemma honors_contract_padded: "honors_contract padded_ops"
  unfolding honors_contract_def
proof (intro allI impI conjI)
  fix s a f assume wf: "wf_tensor s a"
  then have lt: "storage (tdata a) < next_addr s" by (simp add: wf_tensor_def)
  let ?s1 = "s\<lparr>heap := (heap s)(next_addr s := []), next_addr := Suc (next_addr s)\<rparr>"
  have "map_fn padded_ops f a None s = TensorOps_map f a None ?s1"
    by (simp add: padded_ops_def bindM_apply alloc_def)
  then show "same_outcome (map_fn padded_ops f a None s) (map_fn TensorOps f a None s)"
    using lt
    by (simp add: TensorOps_map_unfold same_outcome_def same_tensor_def map_in_bounds_def
        map_storage_def)
next
  fix s a f c assume wf: "wf_tensor s a" "wf_tensor s c"
  then have lt: "storage (tdata a) < next_addr s" "storage (tdata c) < next_addr s"
    by (simp_all add: wf_tensor_def)
  let ?s1 = "s\<lparr>heap := (heap s)(next_addr s := []), next_addr := Suc (next_addr s)\<rparr>"
  have "zip_fn padded_ops f a c None s = TensorOps_zip f a c None ?s1"
    by (simp add: padded_ops_def bindM_apply alloc_def)
  then show "same_outcome (zip_fn padded_ops f a c None s) (zip_fn TensorOps f a c None s)"
    using lt
    by (simp add: TensorOps_zip_unfold same_outcome_def same_tensor_def zip_in_bounds_def
        zip_storage_def split: sum.splits)
next
  fix s a f ds assume wf: "wf_tensor s a"
  then have lt: "storage (tdata a) < next_addr s" by (simp add: wf_tensor_def)
  let ?s1 = "s\<lparr>heap := (heap s)(next_addr s := []), next_addr := Suc (next_addr s)\<rparr>"
  have "reduce_fn padded_ops f a (Some ds) None s = TensorOps_reduce f 0 a (Some ds) None ?s1"
    by (simp add: padded_ops_def bindM_apply alloc_def)
  then show "same_outcome (reduce_fn padded_ops f a (Some ds) None s)
               (reduce_fn TensorOps f a (Some ds) None s)"
    using lt
    by (simp add: TensorOps_reduce_unfold same_outcome_def same_tensor_def
        reduce_in_bounds_def reduce_storage_def split: sum.splits)
qed

theorem backend_swap_witness:
  "honors_contract padded_ops \<and>
   list_all (arg_wf six_state) [ATensor six_tensor, ANone] \<and>
   same_forward (forward_of padded_ops Sum [ATensor six_tensor, ANone] six_state)
     (forward_of TensorOps Sum [ATensor six_tensor, ANone] six_state) \<and>
   same_outcome
     (FunctionBase_apply (forward_of padded_ops Sum) Sum [ATensor six_tensor, ANone] six_state)
     (FunctionBase_apply (forward_of TensorOps Sum) Sum [ATensor six_tensor, ANone] six_state)"
proof -
  have h: "list_all (arg_wf six_state) [ATensor six_tensor, ANone]"
    using wf_six by simp
  show ?thesis
    using honors_contract_padded h backend_swap [OF honors_contract_padded h, of Sum] by simp
qed

end
